(* ===== verification/Prelude.thy ===== *)
theory Prelude
  imports Main "HOL-Library.Word" "HOL-Library.Multiset" "HOL-Library.Char_ord"
    "HOL-Library.List_Lexorder"
begin

text \<open>
  Shared vocabulary of the development: machine integers and byte strings, Go errors and
  panics as values, the error-propagation idiom of the source (\<open>if err != nil { return }\<close>)
  as a bind, the little- and big-endian byte order of \<open>encoding/binary\<close>, and the generic
  lemmas the component theories use.

  Go integers of a fixed width are words of that width. A Go array \<open>[k]byte\<close>
  (\<open>common.Hash\<close>, \<open>common.Address\<close>, \<open>types.Bloom\<close>, \<open>types.BlockNonce\<close>) is the word of
  \<open>8 * k\<close> bits whose big-endian bytes are the array, so its length is part of the type and
  \<open>h[:]\<close> is \<open>be_bytes k\<close>. A slice \<open>[]byte\<close> is a list of bytes; the nil slice and the empty
  slice are the same list except where the source tests for nil, and there the model uses
  an \<open>option\<close>. A Go \<open>string\<close> is a list of bytes, which is what \<^typ>\<open>string\<close> is.
\<close>

section \<open>Machine integers and byte strings\<close>

type_synonym byte = "8 word"
type_synonym bytes = "8 word list"
type_synonym u8 = "8 word"
type_synonym u16 = "16 word"
type_synonym u32 = "32 word"
type_synonym u64 = "64 word"
type_synonym u256 = "256 word"
type_synonym hash = "256 word"
type_synonym address = "160 word"
type_synonym bloom = "2048 word"

named_theorems layout_simps
named_theorems res_simps

section \<open>Errors and panics\<close>

text \<open>
  \<open>Errorf\<close> is an error with its formatted text; \<open>Wrap p e\<close> is \<open>fmt.Errorf("p: %w", e)\<close>.
  \<open>Panic\<close> is not an error value of the program: it is a run-time panic, which no
  \<open>err != nil\<close> test of the source sees, so wrapping leaves it as it is.
\<close>

datatype go_error =
    ErrMissingStatelessInputBytes
  | Errorf string
  | Wrap string go_error
  | Panic string

type_synonym 'a res = "go_error + 'a"

fun error_text :: "go_error \<Rightarrow> string" where
  "error_text ErrMissingStatelessInputBytes =
     ''statelessInputBytes missing '' @ [CHR 0xE2, CHR 0x80, CHR 0x94] @
     '' only SSZ fixtures are supported''"
| "error_text (Errorf s) = s"
| "error_text (Wrap p e) = p @ '': '' @ error_text e"
| "error_text (Panic s) = s"

text \<open>\<open>errors.Is(err, ErrMissingStatelessInputBytes)\<close>: the chain of wrapped errors is searched.\<close>

fun is_missing_input :: "go_error \<Rightarrow> bool" where
  "is_missing_input ErrMissingStatelessInputBytes = True"
| "is_missing_input (Wrap p e) = is_missing_input e"
| "is_missing_input _ = False"

fun is_panic :: "go_error \<Rightarrow> bool" where
  "is_panic (Panic s) = True"
| "is_panic _ = False"

fun wrap_error :: "string \<Rightarrow> go_error \<Rightarrow> go_error" where
  "wrap_error p (Panic s) = Panic s"
| "wrap_error p e = Wrap p e"

fun res_bind :: "'a res \<Rightarrow> ('a \<Rightarrow> 'b res) \<Rightarrow> 'b res" where
  "res_bind (Inl e) f = Inl e"
| "res_bind (Inr x) f = f x"

fun res_wrap :: "string \<Rightarrow> 'a res \<Rightarrow> 'a res" where
  "res_wrap p (Inl e) = Inl (wrap_error p e)"
| "res_wrap p (Inr x) = Inr x"

text \<open>
  A loop that converts the elements of a slice in order and returns at the first error;
  the index is the one the error messages of the source print.
\<close>

fun res_mapi :: "nat \<Rightarrow> (nat \<Rightarrow> 'a \<Rightarrow> 'b res) \<Rightarrow> 'a list \<Rightarrow> 'b list res" where
  "res_mapi i f [] = Inr []"
| "res_mapi i f (x # xs) =
     res_bind (f i x) (\<lambda>y. res_bind (res_mapi (Suc i) f xs) (\<lambda>ys. Inr (y # ys)))"

lemma res_bind_eq_Inr [res_simps]:
  "res_bind m f = Inr y \<longleftrightarrow> (\<exists>x. m = Inr x \<and> f x = Inr y)"
  by (cases m) auto

lemma res_bind_eq_Inl [res_simps]:
  "res_bind m f = Inl e \<longleftrightarrow> m = Inl e \<or> (\<exists>x. m = Inr x \<and> f x = Inl e)"
  by (cases m) auto

lemma res_wrap_eq_Inr [res_simps]: "res_wrap p m = Inr y \<longleftrightarrow> m = Inr y"
  by (cases m) auto

lemma res_wrap_eq_Inl [res_simps]:
  "res_wrap p m = Inl e \<longleftrightarrow> (\<exists>e'. m = Inl e' \<and> e = wrap_error p e')"
  by (cases m) auto

lemma res_mapi_eq_Inr:
  "res_mapi i f xs = Inr ys \<longleftrightarrow>
     length ys = length xs \<and> (\<forall>k < length xs. f (i + k) (xs ! k) = Inr (ys ! k))"
proof (induction xs arbitrary: i ys)
  case Nil
  then show ?case by auto
next
  case (Cons x xs)
  show ?case
  proof (cases ys)
    case Nil
    then show ?thesis by (auto simp: res_bind_eq_Inr)
  next
    case (Cons z zs)
    with Cons.IH [of "Suc i"] show ?thesis
      by (auto simp: res_bind_eq_Inr All_less_Suc2)
  qed
qed

lemma res_mapi_eq_Inl:
  "res_mapi i f xs = Inl e \<Longrightarrow>
     \<exists>k < length xs. (\<forall>j < k. \<exists>y. f (i + j) (xs ! j) = Inr y) \<and> f (i + k) (xs ! k) = Inl e"
proof (induction xs arbitrary: i)
  case (Cons x xs)
  show ?case
  proof (cases "f i x")
    case (Inl e')
    with Cons.prems show ?thesis by (intro exI [of _ 0]) simp
  next
    case (Inr y)
    with Cons.prems have "res_mapi (Suc i) f xs = Inl e" by (simp add: res_bind_eq_Inl)
    from Cons.IH [OF this] obtain k where "k < length xs" "f (Suc i + k) (xs ! k) = Inl e"
      "\<forall>j < k. \<exists>y. f (Suc i + j) (xs ! j) = Inr y" by blast
    with Inr show ?thesis
      by (intro exI [of _ "Suc k"]) (auto simp: All_less_Suc2)
  qed
qed simp

lemma res_mapi_length: "res_mapi i f xs = Inr ys \<Longrightarrow> length ys = length xs"
  by (simp add: res_mapi_eq_Inr)

lemma is_missing_wrap [simp]: "is_missing_input (wrap_error p e) = is_missing_input e"
  by (cases e) auto

lemma is_panic_wrap [simp]: "is_panic (wrap_error p e) = is_panic e"
  by (cases e) auto

section \<open>Byte order\<close>

text \<open>
  \<open>le_bytes n k\<close> are the \<open>n\<close> low bytes of \<open>k\<close>, least significant first: what
  \<open>binary.LittleEndian.PutUint16/32/64\<close> and \<open>binary.Write(_, binary.LittleEndian, _)\<close> store
  for an \<open>n\<close>-byte unsigned value.
\<close>

fun le_bytes :: "nat \<Rightarrow> nat \<Rightarrow> bytes" where
  "le_bytes 0 k = []"
| "le_bytes (Suc n) k = of_nat k # le_bytes n (k div 256)"

definition be_bytes :: "nat \<Rightarrow> nat \<Rightarrow> bytes" where
  "be_bytes n k = rev (le_bytes n k)"

fun le_nat :: "bytes \<Rightarrow> nat" where
  "le_nat [] = 0"
| "le_nat (b # bs) = unat b + 256 * le_nat bs"

definition be_nat :: "bytes \<Rightarrow> nat" where
  "be_nat bs = le_nat (rev bs)"

lemma length_le_bytes [simp, layout_simps]: "length (le_bytes n k) = n"
  by (induction n arbitrary: k) auto

lemma length_be_bytes [simp, layout_simps]: "length (be_bytes n k) = n"
  by (simp add: be_bytes_def)

lemma le_nat_le_bytes: "le_nat (le_bytes n k) = k mod 256 ^ n"
proof (induction n arbitrary: k)
  case 0
  then show ?case by simp
next
  case (Suc n)
  have "unat (of_nat k :: byte) = k mod 256"
    by (simp add: unat_of_nat)
  then show ?case
    by (simp add: Suc.IH mod_mult2_eq)
qed

lemma unat_less_pow: "unat w < 2 ^ LENGTH('a)" for w :: "'a::len word"
  by (rule unsigned_less)

lemma le_nat_bound: "le_nat bs < 256 ^ length bs"
proof (induction bs)
  case Nil
  then show ?case by simp
next
  case (Cons b bs)
  have "unat b < 256" using unat_less_pow [of b] by simp
  moreover have "256 * (le_nat bs + 1) \<le> 256 * 256 ^ length bs"
    using Cons.IH by (intro mult_left_mono) auto
  ultimately show ?case by simp
qed

lemma le_bytes_le_nat: "le_bytes (length bs) (le_nat bs) = bs"
proof (induction bs)
  case Nil
  then show ?case by simp
next
  case (Cons b bs)
  have "unat b < 256" using unat_less_pow [of b] by simp
  moreover have "of_nat (unat b + 256 * le_nat bs) = b"
  proof -
    have "(of_nat 256 :: byte) = 0" by simp
    then have "(of_nat (256 * le_nat bs) :: byte) = 0"
      by (simp only: of_nat_mult mult_zero_left)
    then show ?thesis by simp
  qed
  ultimately show ?case using Cons.IH by simp
qed

lemma be_nat_be_bytes: "be_nat (be_bytes n k) = k mod 256 ^ n"
  by (simp add: be_nat_def be_bytes_def le_nat_le_bytes)

lemma be_bytes_be_nat: "be_bytes (length bs) (be_nat bs) = bs"
  using le_bytes_le_nat [of "rev bs"] by (simp add: be_nat_def be_bytes_def)

lemma be_nat_bound: "be_nat bs < 256 ^ length bs"
  using le_nat_bound [of "rev bs"] by (simp add: be_nat_def)

text \<open>Words of \<open>8 * n\<close> bits survive the trip through their bytes.\<close>

lemma le_nat_word:
  fixes w :: "'a::len word"
  assumes "LENGTH('a) = 8 * n"
  shows "le_nat (le_bytes n (unat w)) = unat w"
proof -
  have "unat w < 2 ^ (8 * n)" using unat_less_pow [of w] assms by simp
  also have "(2::nat) ^ (8 * n) = 256 ^ n" by (simp add: power_mult)
  finally show ?thesis by (simp add: le_nat_le_bytes)
qed

lemma be_nat_word:
  fixes w :: "'a::len word"
  assumes "LENGTH('a) = 8 * n"
  shows "be_nat (be_bytes n (unat w)) = unat w"
  using le_nat_word [OF assms] by (simp add: be_nat_def be_bytes_def)

section \<open>Slices\<close>

text \<open>\<open>xs[a:b]\<close> of a Go slice, for \<open>a \<le> b \<le> len(xs)\<close>.\<close>

definition go_slice :: "nat \<Rightarrow> nat \<Rightarrow> 'a list \<Rightarrow> 'a list" where
  "go_slice a b xs = take (b - a) (drop a xs)"

lemma take_exact [layout_simps]: "length xs = n \<Longrightarrow> take n (xs @ ys) = xs"
  by simp

lemma drop_exact [layout_simps]: "length xs = n \<Longrightarrow> drop n (xs @ ys) = ys"
  by simp

lemma go_slice_append:
  "length xs = a \<Longrightarrow> length ys = b - a \<Longrightarrow> go_slice a b (xs @ ys @ zs) = ys"
  by (simp add: go_slice_def)

lemma go_slice_append_end:
  "length xs = a \<Longrightarrow> b = a + length ys \<Longrightarrow> go_slice a b (xs @ ys) = ys"
  by (simp add: go_slice_def)

lemma concat_replicate_length: "length (concat (map f xs)) = (\<Sum>x\<leftarrow>xs. length (f x))"
  by (simp add: length_concat o_def)

end
