(* ===== verification/Go_Strings.thy ===== *)
theory Go_Strings
  imports Prelude
begin

text \<open>
  The parts of Go's \<open>strings\<close>, \<open>strconv\<close>, \<open>encoding/hex\<close> and \<open>math/big\<close> the program calls.
  Strings are byte strings. White space is Go's \<open>unicode.IsSpace\<close>, given by the UTF-8
  encodings of its code points, so trimming and field splitting are exact on every byte
  string; \<open>ToLower\<close> and the quoting of \<open>%q\<close> are those of ASCII text.
\<close>

section \<open>Digits and numbers\<close>

definition digit_val :: "char \<Rightarrow> nat option" where
  "digit_val c =
     (let n = (of_char c :: nat)
      in if 48 \<le> n \<and> n \<le> 57 then Some (n - 48)
         else if 97 \<le> n \<and> n \<le> 122 then Some (n - 87)
         else if 65 \<le> n \<and> n \<le> 90 then Some (n - 55)
         else None)"

definition digit_char :: "nat \<Rightarrow> char" where
  "digit_char d = char_of (if d < 10 then 48 + d else 87 + d)"

text \<open>\<open>strconv.FormatUint(n, base)\<close>: the digits of \<open>n\<close>, most significant first.\<close>

fun format_digits :: "nat \<Rightarrow> nat \<Rightarrow> string" where
  "format_digits base n =
     (if base < 2 \<or> n < base then [digit_char n]
      else format_digits base (n div base) @ [digit_char (n mod base)])"

declare format_digits.simps [simp del]

abbreviation itoa :: "nat \<Rightarrow> string" where
  "itoa \<equiv> format_digits 10"

text \<open>
  \<open>strconv.ParseUint(s, base, 64)\<close> returns a value and an error. A syntax error gives 0; the
  first digit that takes the value past 64 bits gives the largest value and a range error.
\<close>

datatype num_error = ErrSyntax | ErrRange

fun parse_uint_loop :: "nat \<Rightarrow> nat \<Rightarrow> string \<Rightarrow> nat \<times> num_error option" where
  "parse_uint_loop base n [] = (n, None)"
| "parse_uint_loop base n (c # cs) =
     (case digit_val c of
        None \<Rightarrow> (0, Some ErrSyntax)
      | Some d \<Rightarrow>
          if base \<le> d then (0, Some ErrSyntax)
          else if 2 ^ 64 \<le> n * base + d then (2 ^ 64 - 1, Some ErrRange)
          else parse_uint_loop base (n * base + d) cs)"

definition ParseUint :: "string \<Rightarrow> nat \<Rightarrow> nat \<times> num_error option" where
  "ParseUint s base = (if s = [] then (0, Some ErrSyntax) else parse_uint_loop base 0 s)"

text \<open>The value of a digit string, as \<open>big.Int\<close> scans it: every character a digit of the base.\<close>

fun digits_value :: "nat \<Rightarrow> nat \<Rightarrow> string \<Rightarrow> nat option" where
  "digits_value base n [] = Some n"
| "digits_value base n (c # cs) =
     (case digit_val c of
        None \<Rightarrow> None
      | Some d \<Rightarrow> if base \<le> d then None else digits_value base (n * base + d) cs)"

text \<open>\<open>new(big.Int).SetString(s, 16)\<close>: an optional sign and at least one digit, nothing else.\<close>

definition big_SetString16 :: "string \<Rightarrow> int option" where
  "big_SetString16 s =
     (let neg = (s \<noteq> [] \<and> hd s = CHR ''-'');
          ds = (if s \<noteq> [] \<and> (hd s = CHR ''-'' \<or> hd s = CHR ''+'') then tl s else s)
      in if ds = [] then None
         else map_option (\<lambda>n. if neg then - int n else int n) (digits_value 16 0 ds))"

text \<open>\<open>(*big.Int).Uint64\<close> is the low 64 bits of the absolute value.\<close>

definition big_Uint64 :: "int \<Rightarrow> u64" where
  "big_Uint64 n = of_nat (nat \<bar>n\<bar>)"

section \<open>Hexadecimal\<close>

definition hex_val :: "char \<Rightarrow> nat option" where
  "hex_val c = (case digit_val c of None \<Rightarrow> None | Some d \<Rightarrow> if d < 16 then Some d else None)"

definition upper_hex2 :: "nat \<Rightarrow> string" where
  "upper_hex2 n =
     map (\<lambda>d. char_of (if d < 10 then 48 + d else 55 + d)) [n div 16 mod 16, n mod 16]"

definition lower_hex2 :: "nat \<Rightarrow> string" where
  "lower_hex2 n = [digit_char (n div 16 mod 16), digit_char (n mod 16)]"

definition InvalidByteError :: "char \<Rightarrow> go_error" where
  "InvalidByteError c =
     Errorf (''encoding/hex: invalid byte: U+00'' @ upper_hex2 (of_char c) @
       (if 32 \<le> (of_char c :: nat) \<and> (of_char c :: nat) \<le> 126
        then [CHR 32, CHR 39, c, CHR 39] else []))"

definition ErrLength :: go_error where
  "ErrLength = Errorf ''encoding/hex: odd length hex string''"

text \<open>
  \<open>hex.DecodeString\<close> returns the bytes decoded before the first error together with the
  error; the source drops that error in several places.
\<close>

fun hex_DecodeString :: "string \<Rightarrow> bytes \<times> go_error option" where
  "hex_DecodeString [] = ([], None)"
| "hex_DecodeString [c] =
     ([], Some (if hex_val c = None then InvalidByteError c else ErrLength))"
| "hex_DecodeString (p # q # cs) =
     (case hex_val p of
        None \<Rightarrow> ([], Some (InvalidByteError p))
      | Some a \<Rightarrow>
          (case hex_val q of
             None \<Rightarrow> ([], Some (InvalidByteError q))
           | Some b \<Rightarrow>
               (case hex_DecodeString cs of (bs, e) \<Rightarrow> (of_nat (16 * a + b) # bs, e))))"

definition hex_EncodeToString :: "bytes \<Rightarrow> string" where
  "hex_EncodeToString bs = concat (map (\<lambda>b. lower_hex2 (unat b)) bs)"

section \<open>Strings\<close>

definition HasPrefix :: "string \<Rightarrow> string \<Rightarrow> bool" where
  "HasPrefix s p \<longleftrightarrow> take (length p) s = p"

definition HasSuffix :: "string \<Rightarrow> string \<Rightarrow> bool" where
  "HasSuffix s p \<longleftrightarrow> HasPrefix (rev s) (rev p)"

definition TrimPrefix :: "string \<Rightarrow> string \<Rightarrow> string" where
  "TrimPrefix s p = (if HasPrefix s p then drop (length p) s else s)"

definition TrimSuffix :: "string \<Rightarrow> string \<Rightarrow> string" where
  "TrimSuffix s p = (if HasSuffix s p then take (length s - length p) s else s)"

definition CutPrefix :: "string \<Rightarrow> string \<Rightarrow> string option" where
  "CutPrefix s p = (if HasPrefix s p then Some (drop (length p) s) else None)"

fun str_Index :: "string \<Rightarrow> string \<Rightarrow> nat option" where
  "str_Index [] p = (if p = [] then Some 0 else None)"
| "str_Index (c # cs) p =
     (if HasPrefix (c # cs) p then Some 0 else map_option Suc (str_Index cs p))"

definition str_Contains :: "string \<Rightarrow> string \<Rightarrow> bool" where
  "str_Contains s p \<longleftrightarrow> str_Index s p \<noteq> None"

text \<open>\<open>strings.Split(s, sep)\<close> for a one-byte separator, and \<open>strings.Join\<close>.\<close>

fun str_Split :: "char \<Rightarrow> string \<Rightarrow> string list" where
  "str_Split sep [] = [[]]"
| "str_Split sep (c # cs) =
     (if c = sep then [] # str_Split sep cs
      else (case str_Split sep cs of [] \<Rightarrow> [[c]] | w # ws \<Rightarrow> (c # w) # ws))"

fun str_Join :: "string \<Rightarrow> string list \<Rightarrow> string" where
  "str_Join sep [] = []"
| "str_Join sep [w] = w"
| "str_Join sep (w # v # ws) = w @ sep @ str_Join sep (v # ws)"

definition lower_char :: "char \<Rightarrow> char" where
  "lower_char c =
     (let n = (of_char c :: nat) in if 65 \<le> n \<and> n \<le> 90 then char_of (n + 32) else c)"

definition ToLower :: "string \<Rightarrow> string" where
  "ToLower s = map lower_char s"

text \<open>The UTF-8 encodings of the code points for which \<open>unicode.IsSpace\<close> holds.\<close>

definition space_seqs :: "string list" where
  "space_seqs =
     [[CHR 9], [CHR 10], [CHR 11], [CHR 12], [CHR 13], [CHR 32],
      [CHR 0xC2, CHR 0x85], [CHR 0xC2, CHR 0xA0], [CHR 0xE1, CHR 0x9A, CHR 0x80],
      [CHR 0xE2, CHR 0x80, CHR 0x80], [CHR 0xE2, CHR 0x80, CHR 0x81],
      [CHR 0xE2, CHR 0x80, CHR 0x82], [CHR 0xE2, CHR 0x80, CHR 0x83],
      [CHR 0xE2, CHR 0x80, CHR 0x84], [CHR 0xE2, CHR 0x80, CHR 0x85],
      [CHR 0xE2, CHR 0x80, CHR 0x86], [CHR 0xE2, CHR 0x80, CHR 0x87],
      [CHR 0xE2, CHR 0x80, CHR 0x88], [CHR 0xE2, CHR 0x80, CHR 0x89],
      [CHR 0xE2, CHR 0x80, CHR 0x8A], [CHR 0xE2, CHR 0x80, CHR 0xA8],
      [CHR 0xE2, CHR 0x80, CHR 0xA9], [CHR 0xE2, CHR 0x80, CHR 0xAF],
      [CHR 0xE2, CHR 0x81, CHR 0x9F], [CHR 0xE3, CHR 0x80, CHR 0x80]]"

definition lead_len :: "string list \<Rightarrow> string \<Rightarrow> nat" where
  "lead_len qs s = (case find (HasPrefix s) qs of None \<Rightarrow> 0 | Some q \<Rightarrow> length q)"

function trim_lead :: "string list \<Rightarrow> string \<Rightarrow> string" where
  "trim_lead qs s =
     (if s = [] \<or> lead_len qs s = 0 then s else trim_lead qs (drop (lead_len qs s) s))"
  by pat_completeness auto
termination
  by (relation "measure (\<lambda>(qs, s). length s)") auto

declare trim_lead.simps [simp del]

definition TrimSpace :: "string \<Rightarrow> string" where
  "TrimSpace s = rev (trim_lead (map rev space_seqs) (rev (trim_lead space_seqs s)))"

function fields_loop :: "string \<Rightarrow> string \<Rightarrow> string list" where
  "fields_loop w [] = (if w = [] then [] else [rev w])"
| "fields_loop w (c # cs) =
     (if lead_len space_seqs (c # cs) = 0 then fields_loop (c # w) cs
      else (if w = [] then [] else [rev w]) @
           fields_loop [] (drop (lead_len space_seqs (c # cs) - 1) cs))"
  by pat_completeness auto
termination
  by (relation "measure (\<lambda>(w, s). length s)") auto

declare fields_loop.simps [simp del]

definition str_Fields :: "string \<Rightarrow> string list" where
  "str_Fields s = fields_loop [] s"

text \<open>\<open>fmt\<close>'s \<open>%q\<close> on ASCII text.\<close>

definition quote_char :: "char \<Rightarrow> string" where
  "quote_char c =
     (let n = (of_char c :: nat)
      in if n = 34 \<or> n = 92 then [CHR 92, c]
         else if n = 7 then [CHR 92, CHR ''a''] else if n = 8 then [CHR 92, CHR ''b'']
         else if n = 12 then [CHR 92, CHR ''f''] else if n = 10 then [CHR 92, CHR ''n'']
         else if n = 13 then [CHR 92, CHR ''r''] else if n = 9 then [CHR 92, CHR ''t'']
         else if n = 11 then [CHR 92, CHR ''v'']
         else if n < 32 \<or> n = 127 then [CHR 92, CHR ''x''] @ lower_hex2 n
         else [c])"

definition go_quote :: "string \<Rightarrow> string" where
  "go_quote s = [CHR 34] @ concat (map quote_char s) @ [CHR 34]"

definition num_error_text :: "string \<Rightarrow> string \<Rightarrow> num_error \<Rightarrow> string" where
  "num_error_text fn s e =
     ''strconv.'' @ fn @ '': parsing '' @ go_quote s @ '': '' @
     (case e of ErrSyntax \<Rightarrow> ''invalid syntax'' | ErrRange \<Rightarrow> ''value out of range'')"

definition ParseUint_res :: "string \<Rightarrow> nat \<Rightarrow> u64 res" where
  "ParseUint_res s base =
     (case ParseUint s base of
        (n, None) \<Rightarrow> Inr (of_nat n)
      | (n, Some e) \<Rightarrow> Inl (Errorf (num_error_text ''ParseUint'' s e)))"

section \<open>Digits and numbers: lemmas\<close>

text \<open>Executing the parser: the comparison with \<open>2 ^ 64\<close> on binary numbers.\<close>

lemma parse_uint_loop_code [code]:
  "parse_uint_loop base n [] = (n, None)"
  "parse_uint_loop base n (c # cs) =
     (case digit_val c of
        None \<Rightarrow> (0, Some ErrSyntax)
      | Some d \<Rightarrow>
          if base \<le> d then (0, Some ErrSyntax)
          else if 18446744073709551616 \<le> int (n * base + d) then (2 ^ 64 - 1, Some ErrRange)
          else parse_uint_loop base (n * base + d) cs)"
proof -
  have "(2 :: nat) ^ 64 \<le> m \<longleftrightarrow> 18446744073709551616 \<le> int m" for m by simp
  then show "parse_uint_loop base n (c # cs) =
     (case digit_val c of
        None \<Rightarrow> (0, Some ErrSyntax)
      | Some d \<Rightarrow>
          if base \<le> d then (0, Some ErrSyntax)
          else if 18446744073709551616 \<le> int (n * base + d) then (2 ^ 64 - 1, Some ErrRange)
          else parse_uint_loop base (n * base + d) cs)"
    by (simp only: parse_uint_loop.simps)
qed simp

lemma digit_val_digit_char [simp]: "d < 36 \<Longrightarrow> digit_val (digit_char d) = Some d"
  by (auto simp: digit_val_def digit_char_def Let_def)

lemma digit_val_bound: "digit_val c = Some d \<Longrightarrow> d < 36"
  by (auto simp: digit_val_def Let_def split: if_splits)

lemma format_digits_nonempty [simp]: "format_digits base n \<noteq> []"
  by (subst format_digits.simps) simp

lemma parse_uint_loop_append:
  "parse_uint_loop base n xs = (m, None) \<Longrightarrow>
   parse_uint_loop base n (xs @ ys) = parse_uint_loop base m ys"
  by (induction xs arbitrary: n) (auto split: option.splits if_splits)

lemma parse_uint_loop_format:
  assumes "2 \<le> base" "base \<le> 36" "n < 2 ^ 64"
  shows "parse_uint_loop base 0 (format_digits base n) = (n, None)"
  using assms
proof (induction base n rule: format_digits.induct)
  case (1 base n)
  show ?case
  proof (cases "n < base")
    case True
    with "1.prems" show ?thesis
      by (subst format_digits.simps) simp
  next
    case False
    have lt: "n div base < 2 ^ 64"
      using "1.prems"(3) div_le_dividend le_less_trans by blast
    have "parse_uint_loop base 0 (format_digits base (n div base)) = (n div base, None)"
      using "1.IH" False "1.prems" lt by simp
    moreover have "n mod base < 36"
      using "1.prems" mod_less_divisor [of base n] by linarith
    ultimately show ?thesis
      using False "1.prems"
      by (subst format_digits.simps)
        (simp add: parse_uint_loop_append div_mult_mod_eq not_le)
  qed
qed

lemma ParseUint_format:
  assumes "2 \<le> base" "base \<le> 36"
  shows "ParseUint_res (format_digits base (unat w)) base = Inr w"
proof -
  have "unat w < 2 ^ 64" using unat_less_pow [of w] by simp
  then have "ParseUint (format_digits base (unat w)) base = (unat w, None)"
    using assms by (simp add: ParseUint_def parse_uint_loop_format)
  then show ?thesis by (simp add: ParseUint_res_def)
qed

lemma digits_value_append:
  "digits_value base n xs = Some m \<Longrightarrow> digits_value base n (xs @ ys) = digits_value base m ys"
  by (induction xs arbitrary: n) (auto split: option.splits if_splits)

lemma digits_value_format:
  assumes "2 \<le> base" "base \<le> 36"
  shows "digits_value base 0 (format_digits base n) = Some n"
  using assms
proof (induction base n rule: format_digits.induct)
  case (1 base n)
  show ?case
  proof (cases "n < base")
    case True
    with "1.prems" show ?thesis
      by (subst format_digits.simps) simp
  next
    case False
    have "digits_value base 0 (format_digits base (n div base)) = Some (n div base)"
      using "1.IH" False "1.prems" by simp
    moreover have "n mod base < 36"
      using "1.prems" mod_less_divisor [of base n] by linarith
    ultimately show ?thesis
      using False "1.prems"
      by (subst format_digits.simps)
        (simp add: digits_value_append div_mult_mod_eq not_le)
  qed
qed

lemma digit_char_sign: "d < 36 \<Longrightarrow> digit_char d \<noteq> CHR ''-'' \<and> digit_char d \<noteq> CHR ''+''"
  using digit_val_digit_char [of d] by (auto simp: digit_val_def)

lemma hd_format_digits:
  "2 \<le> base \<Longrightarrow> base \<le> 36 \<Longrightarrow> \<exists>d < 36. hd (format_digits base n) = digit_char d"
proof (induction base n rule: format_digits.induct)
  case (1 base n)
  show ?case
  proof (cases "n < base")
    case True
    with "1.prems" show ?thesis by (subst format_digits.simps) (auto intro: exI [of _ n])
  next
    case False
    with 1 show ?thesis by (subst format_digits.simps) simp
  qed
qed

lemma big_SetString16_format: "big_SetString16 (format_digits 16 n) = Some (int n)"
proof -
  obtain d where "d < 36" "hd (format_digits 16 n) = digit_char d"
    using hd_format_digits [of 16 n] by auto
  with digit_char_sign [of d] show ?thesis
    by (simp add: big_SetString16_def Let_def digits_value_format)
qed

lemma digits_value_chars: "digits_value base n xs = Some m \<Longrightarrow> c \<in> set xs \<Longrightarrow> digit_val c \<noteq> None"
  by (induction xs arbitrary: n) (auto split: option.splits if_splits)

lemma itoa_chars:
  assumes "c \<in> set (itoa n)"
  shows "c \<noteq> CHR ''/''" "c \<noteq> CHR ''_''" "c \<noteq> CHR ''.''"
proof -
  have "digit_val c \<noteq> None"
    using assms digits_value_chars [of 10 0 "itoa n" n] digits_value_format [of 10 n] by simp
  moreover have "digit_val CHR ''/'' = None" "digit_val CHR ''_'' = None" "digit_val CHR ''.'' = None"
    by (simp_all add: digit_val_def)
  ultimately show "c \<noteq> CHR ''/''" "c \<noteq> CHR ''_''" "c \<noteq> CHR ''.''" by metis+
qed

lemma itoa_inject: "itoa m = itoa n \<longleftrightarrow> m = n"
proof
  assume same: "itoa m = itoa n"
  have "Some m = digits_value 10 0 (itoa m)" by (rule digits_value_format [symmetric]) simp_all
  also have "\<dots> = Some n" unfolding same by (rule digits_value_format) simp_all
  finally show "m = n" by simp
qed (rule arg_cong)

section \<open>Hexadecimal: lemmas\<close>

lemma hex_val_digit_char [simp]: "d < 16 \<Longrightarrow> hex_val (digit_char d) = Some d"
  by (simp add: hex_val_def)

lemma hex_val_bound: "hex_val c = Some d \<Longrightarrow> d < 16"
  by (auto simp: hex_val_def split: option.splits if_splits)

lemma hex_Decode_Encode: "hex_DecodeString (hex_EncodeToString bs) = (bs, None)"
proof (induction bs)
  case Nil
  then show ?case by (simp add: hex_EncodeToString_def)
next
  case (Cons b bs)
  have "unat b < 256" using unat_less_pow [of b] by simp
  then have "unat b div 16 mod 16 = unat b div 16" by simp
  with Cons.IH show ?case
    by (simp add: hex_EncodeToString_def lower_hex2_def)
qed

lemma length_hex_EncodeToString [simp]: "length (hex_EncodeToString bs) = 2 * length bs"
  by (induction bs) (simp_all add: hex_EncodeToString_def lower_hex2_def)

lemma hex_DecodeString_length:
  "hex_DecodeString s = (bs, None) \<Longrightarrow> length s = 2 * length bs"
  by (induction s arbitrary: bs rule: hex_DecodeString.induct)
    (auto split: option.splits prod.splits)

lemma hex_DecodeString_prefix_length: "2 * length (fst (hex_DecodeString s)) \<le> length s"
  by (induction s rule: hex_DecodeString.induct) (auto split: option.splits prod.splits)

section \<open>Strings: lemmas\<close>

lemma HasPrefix_append [simp]: "HasPrefix (p @ s) p"
  by (simp add: HasPrefix_def)

lemma TrimPrefix_append [simp]: "TrimPrefix (p @ s) p = s"
  by (simp add: TrimPrefix_def)

lemma str_Split_nonempty [simp]: "str_Split sep s \<noteq> []"
  by (induction s) (auto split: list.splits)

lemma str_Split_no_sep: "w \<in> set (str_Split sep s) \<Longrightarrow> sep \<notin> set w"
proof (induction s arbitrary: w)
  case Nil
  then show ?case by simp
next
  case (Cons c cs)
  then show ?case
    by (cases "str_Split sep cs") (auto split: if_splits)
qed

lemma str_Join_Cons:
  "ws \<noteq> [] \<Longrightarrow> str_Join sep (w # ws) = w @ sep @ str_Join sep ws"
  by (cases ws) auto

lemma str_Join_Split: "str_Join [sep] (str_Split sep s) = s"
proof (induction s)
  case Nil
  then show ?case by simp
next
  case (Cons c cs)
  obtain w ws where w: "str_Split sep cs = w # ws"
    by (cases "str_Split sep cs") auto
  with Cons.IH show ?case by (cases ws) (auto simp: w)
qed

lemma str_Split_plain: "sep \<notin> set s \<Longrightarrow> str_Split sep s = [s]"
  by (induction s) auto

lemma str_Split_append:
  "sep \<notin> set w \<Longrightarrow> str_Split sep (w @ sep # s) = w # str_Split sep s"
  by (induction w) auto

lemma str_Split_sep: "str_Split sep (xs @ sep # ys) = str_Split sep xs @ str_Split sep ys"
  by (induction xs) (auto split: list.splits)

lemma str_Join_snoc: "str_Join sep (ws @ [w]) = (if ws = [] then w else str_Join sep ws @ sep @ w)"
  by (induction sep ws rule: str_Join.induct) auto

lemma str_Split_Join:
  assumes "ws \<noteq> []" and "\<And>w. w \<in> set ws \<Longrightarrow> sep \<notin> set w"
  shows "str_Split sep (str_Join [sep] ws) = ws"
  using assms
proof (induction ws)
  case Nil
  then show ?case by simp
next
  case (Cons w ws)
  show ?case
  proof (cases ws)
    case Nil
    with Cons.prems show ?thesis by (simp add: str_Split_plain)
  next
    case (Cons v vs)
    with Cons.prems Cons.IH show ?thesis by (simp add: str_Split_append)
  qed
qed

lemma str_Index_Some:
  "str_Index s p = Some i \<Longrightarrow> take (length p) (drop i s) = p \<and> i \<le> length s"
proof (induction s arbitrary: i)
  case Nil
  then show ?case by (auto split: if_splits)
next
  case (Cons c cs)
  then show ?case by (cases i) (auto simp: HasPrefix_def split: if_splits)
qed

lemma lower_char_idem [simp]: "lower_char (lower_char c) = lower_char c"
  by (auto simp: lower_char_def Let_def)

lemma ToLower_idem [simp]: "ToLower (ToLower s) = ToLower s"
  by (simp add: ToLower_def o_def)

end
