(* ===== verification/Geth_Api.thy ===== *)
theory Geth_Api
  imports Go_Strings
begin

text \<open>
  The boundary to go-ethereum and holiman/uint256, which are not part of the repository.
  Their data types appear with the fields the source reads or writes; their functions are
  the fields of the record \<open>geth\<close>, an argument of every definition that calls them. What the
  program relies on is stated as predicates over \<open>geth\<close> that theorems assume by name.
\<close>

section \<open>Data\<close>

record AccessTuple =
  at_Address :: address
  at_StorageKeys :: "hash list"

record SetCodeAuthorization =
  au_ChainID :: u256
  au_Address :: address
  au_Nonce :: u64
  au_V :: u8
  au_R :: u256
  au_S :: u256

record Withdrawal =
  wd_Index :: u64
  wd_Validator :: u64
  wd_Address :: address
  wd_Amount :: u64

record DynamicFeeTx =
  df_ChainID :: int
  df_Nonce :: u64
  df_GasTipCap :: int
  df_GasFeeCap :: int
  df_Gas :: u64
  df_To :: "address option"
  df_Value :: int
  df_Data :: bytes
  df_AccessList :: "AccessTuple list"
  df_V :: int
  df_R :: int
  df_S :: int

record LegacyTx =
  lt_Nonce :: u64
  lt_GasPrice :: int
  lt_Gas :: u64
  lt_To :: "address option"
  lt_Value :: int
  lt_Data :: bytes
  lt_V :: int
  lt_R :: int
  lt_S :: int

record AccessListTx =
  al_ChainID :: int
  al_Nonce :: u64
  al_GasPrice :: int
  al_Gas :: u64
  al_To :: "address option"
  al_Value :: int
  al_Data :: bytes
  al_AccessList :: "AccessTuple list"
  al_V :: int
  al_R :: int
  al_S :: int

record BlobTx =
  bt_ChainID :: u256
  bt_Nonce :: u64
  bt_GasTipCap :: u256
  bt_GasFeeCap :: u256
  bt_Gas :: u64
  bt_To :: address
  bt_Value :: u256
  bt_Data :: bytes
  bt_AccessList :: "AccessTuple list"
  bt_BlobFeeCap :: u256
  bt_BlobHashes :: "hash list"
  bt_V :: u256
  bt_R :: u256
  bt_S :: u256

record SetCodeTx =
  sc_ChainID :: u256
  sc_Nonce :: u64
  sc_GasTipCap :: u256
  sc_GasFeeCap :: u256
  sc_Gas :: u64
  sc_To :: address
  sc_Value :: u256
  sc_Data :: bytes
  sc_AccessList :: "AccessTuple list"
  sc_AuthList :: "SetCodeAuthorization list"
  sc_V :: u256
  sc_R :: u256
  sc_S :: u256

text \<open>\<open>types.NewTx\<close> wraps one of the five transaction payloads.\<close>

datatype Transaction =
    NewDynamicFeeTx DynamicFeeTx
  | NewLegacyTx LegacyTx
  | NewAccessListTx AccessListTx
  | NewBlobTx BlobTx
  | NewSetCodeTx SetCodeTx

text \<open>Pointer fields of \<open>types.Header\<close> are options; \<open>*big.Int\<close> values are integers.\<close>

record Header =
  h_ParentHash :: hash
  h_UncleHash :: hash
  h_Coinbase :: address
  h_Root :: hash
  h_TxHash :: hash
  h_ReceiptHash :: hash
  h_Bloom :: bloom
  h_Difficulty :: int
  h_Number :: int
  h_GasLimit :: u64
  h_GasUsed :: u64
  h_Time :: u64
  h_Extra :: bytes
  h_MixDigest :: hash
  h_Nonce :: u64
  h_BaseFee :: "int option"
  h_WithdrawalsHash :: "hash option"
  h_BlobGasUsed :: "u64 option"
  h_ExcessBlobGas :: "u64 option"
  h_ParentBeaconRoot :: "hash option"
  h_RequestsHash :: "hash option"
  h_BlockAccessListHash :: "hash option"
  h_SlotNumber :: "u64 option"

text \<open>
  \<open>types.Block\<close>: the accessor methods the source calls (\<open>Header\<close>, \<open>Transactions\<close>,
  \<open>Withdrawals\<close>, \<open>Time\<close>, \<open>BaseFee\<close>, \<open>BeaconRoot\<close> and so on) read these fields.
\<close>

record Block =
  b_Header :: Header
  b_Transactions :: "Transaction list"
  b_Withdrawals :: "Withdrawal list"

section \<open>Functions\<close>

record geth =
  HexToHash :: "string \<Rightarrow> hash"
  HexToAddress :: "string \<Rightarrow> address"
  Keccak256Hash :: "bytes \<Rightarrow> hash"
  uint256_NewInt :: "u64 \<Rightarrow> u256"
  uint256_FromBig :: "int \<Rightarrow> u256 option"
  tx_MarshalBinary :: "Transaction \<Rightarrow> bytes res"
  tx_Type :: "Transaction \<Rightarrow> u8"
  BlobTxType :: u8
  tx_BlobHashes :: "Transaction \<Rightarrow> hash list"
  Header_Hash :: "Header \<Rightarrow> hash"
  Block_Hash :: "Block \<Rightarrow> hash"
  rlp_EncodeBlock :: "Header \<Rightarrow> Transaction list \<Rightarrow> Header list \<Rightarrow> Withdrawal list \<Rightarrow> bytes res"

section \<open>Documented behaviour\<close>

text \<open>\<open>common.HexToHash\<close> of a string that spells 32 bytes, with or without \<open>0x\<close>, is those bytes.\<close>

definition hex_to_hash_law :: "geth \<Rightarrow> bool" where
  "hex_to_hash_law G \<longleftrightarrow>
     (\<forall>s bs. hex_DecodeString (TrimPrefix s ''0x'') = (bs, None) \<longrightarrow> length bs = 32 \<longrightarrow>
        be_bytes 32 (unat (HexToHash G s)) = bs)"

text \<open>\<open>(*Block).Hash\<close> is the hash of the block's header.\<close>

definition block_hash_law :: "geth \<Rightarrow> bool" where
  "block_hash_law G \<longleftrightarrow> (\<forall>b. Block_Hash G b = Header_Hash G (b_Header b))"

text \<open>\<open>Type\<close> tells the payload kinds apart and \<open>BlobHashes\<close> are the blob payload's hashes.\<close>

definition blob_tx_law :: "geth \<Rightarrow> bool" where
  "blob_tx_law G \<longleftrightarrow>
     (\<forall>t. (tx_Type G t = BlobTxType G) = (case t of NewBlobTx _ \<Rightarrow> True | _ \<Rightarrow> False)) \<and>
     (\<forall>t. tx_BlobHashes G t = (case t of NewBlobTx b \<Rightarrow> bt_BlobHashes b | _ \<Rightarrow> []))"

text \<open>
  \<open>uint256.FromBig\<close> keeps the low 256 bits (two's complement for a negative number) and
  \<open>uint256.NewInt\<close> widens a \<open>uint64\<close>.
\<close>

definition uint256_law :: "geth \<Rightarrow> bool" where
  "uint256_law G \<longleftrightarrow>
     (\<forall>n. uint256_FromBig G n = Some (of_int n)) \<and> (\<forall>w. uint256_NewInt G w = ucast w)"

section \<open>A concrete instance\<close>

text \<open>
  A stand-in with computable functions that satisfies the documented behaviour above. It
  shows the predicates are satisfiable; nothing of the model depends on it.
\<close>

definition sample_hash :: "string \<Rightarrow> hash" where
  "sample_hash s = of_nat (be_nat (fst (hex_DecodeString (TrimPrefix s ''0x''))))"

definition sample_geth :: geth where
  "sample_geth =
     \<lparr>HexToHash = sample_hash,
      HexToAddress = (\<lambda>s. ucast (sample_hash s)),
      Keccak256Hash = (\<lambda>bs. of_nat (length bs)),
      uint256_NewInt = ucast,
      uint256_FromBig = (\<lambda>n. Some (of_int n)),
      tx_MarshalBinary = (\<lambda>t. Inr (case t of NewLegacyTx l \<Rightarrow> lt_Data l | NewBlobTx b \<Rightarrow> 3 # bt_Data b
                                    | NewDynamicFeeTx d \<Rightarrow> 2 # df_Data d | NewAccessListTx a \<Rightarrow> 1 # al_Data a
                                    | NewSetCodeTx c \<Rightarrow> 4 # sc_Data c)),
      tx_Type = (\<lambda>t. case t of NewLegacyTx _ \<Rightarrow> 0 | NewAccessListTx _ \<Rightarrow> 1 | NewDynamicFeeTx _ \<Rightarrow> 2
                             | NewBlobTx _ \<Rightarrow> 3 | NewSetCodeTx _ \<Rightarrow> 4),
      BlobTxType = 3,
      tx_BlobHashes = (\<lambda>t. case t of NewBlobTx b \<Rightarrow> bt_BlobHashes b | _ \<Rightarrow> []),
      Header_Hash = (\<lambda>h. h_ParentHash h + 1),
      Block_Hash = (\<lambda>b. h_ParentHash (b_Header b) + 1),
      rlp_EncodeBlock = (\<lambda>h ts us ws. Inr (le_bytes 8 (length ts + length ws)))\<rparr>"

lemma sample_hex_to_hash_law: "hex_to_hash_law sample_geth"
proof -
  have "be_bytes 32 (unat (of_nat (be_nat bs) :: hash)) = bs" if "length bs = 32" for bs
  proof -
    have "be_nat bs < 2 ^ 256" using be_nat_bound [of bs] that by simp
    then have "unat (of_nat (be_nat bs) :: hash) = be_nat bs"
      by (simp add: unat_of_nat)
    with be_bytes_be_nat [of bs] that show ?thesis by simp
  qed
  then show ?thesis
    by (simp add: hex_to_hash_law_def sample_geth_def sample_hash_def)
qed

lemma sample_block_hash_law: "block_hash_law sample_geth"
  by (simp add: block_hash_law_def sample_geth_def)

lemma sample_blob_tx_law: "blob_tx_law sample_geth"
  by (simp add: blob_tx_law_def sample_geth_def split: Transaction.splits)

lemma sample_uint256_law: "uint256_law sample_geth"
  by (simp add: uint256_law_def sample_geth_def)

lemmas sample_laws =
  sample_hex_to_hash_law sample_block_hash_law sample_blob_tx_law sample_uint256_law

end
