(* ===== verification/Ssz_Spec.thy ===== *)
theory Ssz_Spec
  imports Geth_Api "HOL-Library.Monad_Syntax"
begin

text \<open>
  The stateless input as the guest reads it: an abstract \<open>SszStatelessInput\<close> value and a
  reference decoder written from the SSZ rules and the layout tables in the comments of
  \<open>fixture/encode_ssz.go\<close> (schema id, 16-byte container, 44-byte payload request, 540-byte
  payload, 12-byte witness, offset tables of 4-byte little-endian offsets). The encoders are
  proved against it. The locale \<open>fixed_codec\<close> is the contract of a fixed-width field and
  \<open>section_codec\<close> the contract of a variable-size section.
\<close>

section \<open>Offsets\<close>

text \<open>A section is cut at increasing offsets; the last part runs to the end.\<close>

fun cut_at :: "nat list \<Rightarrow> bytes \<Rightarrow> bytes list option" where
  "cut_at [] bs = Some []"
| "cut_at [a] bs = (if a \<le> length bs then Some [drop a bs] else None)"
| "cut_at (a # b # os) bs =
     (if a \<le> b then map_option ((#) (go_slice a b bs)) (cut_at (b # os) bs) else None)"

fun offsets :: "nat \<Rightarrow> bytes \<Rightarrow> nat list" where
  "offsets 0 bs = []"
| "offsets (Suc n) bs = le_nat (take 4 bs) # offsets n (drop 4 bs)"

text \<open>The offsets an encoder must emit for \<open>parts\<close> that start at \<open>o\<close>.\<close>

fun running :: "nat \<Rightarrow> bytes list \<Rightarrow> nat list" where
  "running off [] = []"
| "running off (p # ps) = off # running (off + length p) ps"

lemma length_running [simp]: "length (running off ps) = length ps"
  by (induction off ps rule: running.induct) auto

lemma running_bound: "x \<in> set (running off ps) \<Longrightarrow> x \<le> off + length (concat ps)"
  by (induction off ps rule: running.induct) auto

lemma cut_at_running: "cut_at (running (length pre) ps) (pre @ concat ps) = Some ps"
proof (induction ps arbitrary: pre)
  case Nil
  then show ?case by simp
next
  case (Cons p ps)
  show ?case
  proof (cases ps)
    case Nil
    then show ?thesis by simp
  next
    case (Cons q qs)
    with Cons.IH [of "pre @ p"] show ?thesis
      by (simp add: go_slice_def)
  qed
qed

lemma cut_at_parts:
  "length pre = n \<Longrightarrow> offs = running n ps \<Longrightarrow> cut_at offs (pre @ concat ps) = Some ps"
  using cut_at_running by blast

lemma offsets_table:
  "\<forall>x \<in> set os. x < 2 ^ 32 \<Longrightarrow> n = length os \<Longrightarrow>
   offsets n (concat (map (le_bytes 4) os) @ rest) = os"
proof (induction os arbitrary: n)
  case Nil
  then show ?case by simp
next
  case (Cons x os)
  have "x mod 256 ^ 4 = x" using Cons.prems by simp
  then show ?case using Cons by (simp add: le_nat_le_bytes)
qed

section \<open>Lists\<close>

definition decode_byte_lists :: "bytes \<Rightarrow> bytes list option" where
  "decode_byte_lists bs =
     (let first = le_nat (take 4 bs); n = first div 4
      in if bs = [] then Some []
         else if n = 0 \<or> first mod 4 \<noteq> 0 \<or> length bs < first then None
         else cut_at (offsets n bs) bs)"

fun items :: "nat \<Rightarrow> (bytes \<Rightarrow> 'a) \<Rightarrow> nat \<Rightarrow> bytes \<Rightarrow> 'a list" where
  "items w dec 0 bs = []"
| "items w dec (Suc n) bs = dec (take w bs) # items w dec n (drop w bs)"

definition decode_list :: "nat \<Rightarrow> (bytes \<Rightarrow> 'a) \<Rightarrow> bytes \<Rightarrow> 'a list option" where
  "decode_list w dec bs =
     (if length bs mod w = 0 then Some (items w dec (length bs div w) bs) else None)"

section \<open>The contract of a fixed-width field\<close>

locale fixed_codec =
  fixes width :: nat
    and enc :: "'a \<Rightarrow> bytes"
    and dec :: "bytes \<Rightarrow> 'a"
  assumes width_pos: "0 < width"
    and length_enc: "length (enc x) = width"
    and dec_enc: "dec (enc x) = x"
begin

lemma length_concat_enc: "length (concat (map enc xs)) = width * length xs"
  by (induction xs) (simp_all add: length_enc)

lemma items_concat_enc: "items width dec (length xs) (concat (map enc xs)) = xs"
  by (induction xs) (simp_all add: length_enc dec_enc)

lemma decode_list_enc: "decode_list width dec (concat (map enc xs)) = Some xs"
  using width_pos items_concat_enc by (simp add: decode_list_def length_concat_enc)

lemma enc_inj: "enc x = enc y \<Longrightarrow> x = y"
  using dec_enc by metis

end

section \<open>The contract of a variable-size section\<close>

locale section_codec =
  fixes ok :: "'a \<Rightarrow> bool"
    and enc :: "'a \<Rightarrow> bytes"
    and dec :: "bytes \<Rightarrow> 'a option"
  assumes dec_enc: "ok x \<Longrightarrow> dec (enc x) = Some x"
begin

lemma enc_inj: "ok x \<Longrightarrow> ok y \<Longrightarrow> enc x = enc y \<Longrightarrow> x = y"
  using dec_enc option.inject by metis

end

section \<open>Fixed-width fields\<close>

definition dec_le :: "bytes \<Rightarrow> 'a::len word" where
  "dec_le bs = of_nat (le_nat bs)"

definition dec_be :: "bytes \<Rightarrow> 'a::len word" where
  "dec_be bs = of_nat (be_nat bs)"

lemma dec_le_enc: "LENGTH('a) = 8 * n \<Longrightarrow> dec_le (le_bytes n (unat w)) = (w :: 'a::len word)"
  by (simp add: dec_le_def le_nat_word)

lemma dec_be_enc: "LENGTH('a) = 8 * n \<Longrightarrow> dec_be (be_bytes n (unat w)) = (w :: 'a::len word)"
  by (simp add: dec_be_def be_nat_word)

interpretation u64_codec: fixed_codec 8 "\<lambda>w :: u64. le_bytes 8 (unat w)" dec_le
  by unfold_locales (simp_all add: dec_le_enc)

interpretation u256_codec: fixed_codec 32 "\<lambda>w :: u256. le_bytes 32 (unat w)" dec_le
  by unfold_locales (simp_all add: dec_le_enc)

interpretation u16_codec: fixed_codec 2 "\<lambda>w :: u16. be_bytes 2 (unat w)" dec_be
  by unfold_locales (simp_all add: dec_be_enc)

interpretation hash_codec: fixed_codec 32 "\<lambda>w :: hash. be_bytes 32 (unat w)" dec_be
  by unfold_locales (simp_all add: dec_be_enc)

interpretation address_codec: fixed_codec 20 "\<lambda>w :: address. be_bytes 20 (unat w)" dec_be
  by unfold_locales (simp_all add: dec_be_enc)

interpretation bloom_codec: fixed_codec 256 "\<lambda>w :: bloom. be_bytes 256 (unat w)" dec_be
  by unfold_locales (simp_all add: dec_be_enc)

lemmas field_codecs =
  u64_codec.dec_enc u256_codec.dec_enc u16_codec.dec_enc hash_codec.dec_enc
  address_codec.dec_enc bloom_codec.dec_enc

section \<open>The abstract stateless input\<close>

record SszExecutionPayload =
  p_parent_hash :: hash
  p_fee_recipient :: address
  p_state_root :: hash
  p_receipts_root :: hash
  p_logs_bloom :: bloom
  p_prev_randao :: hash
  p_block_number :: u64
  p_gas_limit :: u64
  p_gas_used :: u64
  p_timestamp :: u64
  p_extra_data :: bytes
  p_base_fee_per_gas :: u256
  p_block_hash :: hash
  p_transactions :: "bytes list"
  p_withdrawals :: "Withdrawal list"
  p_blob_gas_used :: u64
  p_excess_blob_gas :: u64
  p_block_access_list :: bytes
  p_slot_number :: u64

record SszNewPayloadRequest =
  n_execution_payload :: SszExecutionPayload
  n_versioned_hashes :: "hash list"
  n_parent_beacon_block_root :: hash
  n_execution_requests :: "bytes list"

record SszExecutionWitness =
  w_state :: "bytes list"
  w_codes :: "bytes list"
  w_headers :: "bytes list"

record SszStatelessInput =
  i_schema_id :: u16
  i_new_payload_request :: SszNewPayloadRequest
  i_witness :: SszExecutionWitness
  i_chain_id :: u64

section \<open>The reference decoder\<close>

definition decode_withdrawal :: "bytes \<Rightarrow> Withdrawal" where
  "decode_withdrawal bs =
     \<lparr>wd_Index = dec_le (go_slice 0 8 bs), wd_Validator = dec_le (go_slice 8 16 bs),
      wd_Address = dec_be (go_slice 16 36 bs), wd_Amount = dec_le (go_slice 36 44 bs)\<rparr>"

definition decode_payload :: "bytes \<Rightarrow> SszExecutionPayload option" where
  "decode_payload bs =
     (let off = (\<lambda>a. le_nat (go_slice a (a + 4) bs))
      in if length bs < 540 \<or> off 436 \<noteq> 540 then None
         else do {
           parts \<leftarrow> cut_at [off 436, off 504, off 508, off 528] bs;
           txs \<leftarrow> decode_byte_lists (parts ! 1);
           wds \<leftarrow> decode_list 44 decode_withdrawal (parts ! 2);
           Some \<lparr>p_parent_hash = dec_be (go_slice 0 32 bs),
                 p_fee_recipient = dec_be (go_slice 32 52 bs),
                 p_state_root = dec_be (go_slice 52 84 bs),
                 p_receipts_root = dec_be (go_slice 84 116 bs),
                 p_logs_bloom = dec_be (go_slice 116 372 bs),
                 p_prev_randao = dec_be (go_slice 372 404 bs),
                 p_block_number = dec_le (go_slice 404 412 bs),
                 p_gas_limit = dec_le (go_slice 412 420 bs),
                 p_gas_used = dec_le (go_slice 420 428 bs),
                 p_timestamp = dec_le (go_slice 428 436 bs),
                 p_extra_data = parts ! 0,
                 p_base_fee_per_gas = dec_le (go_slice 440 472 bs),
                 p_block_hash = dec_be (go_slice 472 504 bs),
                 p_transactions = txs,
                 p_withdrawals = wds,
                 p_blob_gas_used = dec_le (go_slice 512 520 bs),
                 p_excess_blob_gas = dec_le (go_slice 520 528 bs),
                 p_block_access_list = parts ! 3,
                 p_slot_number = dec_le (go_slice 532 540 bs)\<rparr>
         })"

definition decode_requests :: "bytes \<Rightarrow> bytes list option" where
  "decode_requests bs =
     (if length bs < 20 \<or> le_nat (take 4 bs) \<noteq> 20 then None else cut_at (offsets 5 bs) bs)"

definition decode_new_payload_request :: "bytes \<Rightarrow> SszNewPayloadRequest option" where
  "decode_new_payload_request bs =
     (let off = (\<lambda>a. le_nat (go_slice a (a + 4) bs))
      in if length bs < 44 \<or> off 0 \<noteq> 44 then None
         else do {
           parts \<leftarrow> cut_at [off 0, off 4, off 40] bs;
           ep \<leftarrow> decode_payload (parts ! 0);
           vh \<leftarrow> decode_list 32 dec_be (parts ! 1);
           er \<leftarrow> decode_requests (parts ! 2);
           Some \<lparr>n_execution_payload = ep, n_versioned_hashes = vh,
                 n_parent_beacon_block_root = dec_be (go_slice 8 40 bs),
                 n_execution_requests = er\<rparr>
         })"

definition decode_witness :: "bytes \<Rightarrow> SszExecutionWitness option" where
  "decode_witness bs =
     (if length bs < 12 \<or> le_nat (take 4 bs) \<noteq> 12 then None
      else do {
        parts \<leftarrow> cut_at (offsets 3 bs) bs;
        state \<leftarrow> decode_byte_lists (parts ! 0);
        codes \<leftarrow> decode_byte_lists (parts ! 1);
        headers \<leftarrow> decode_byte_lists (parts ! 2);
        Some \<lparr>w_state = state, w_codes = codes, w_headers = headers\<rparr>
      })"

text \<open>The container follows the two bytes of the schema id; its offsets count from its own start.\<close>

definition decode_container :: "bytes \<Rightarrow> (u16 \<times> u64 \<times> bytes \<times> bytes) option" where
  "decode_container bs =
     (let c = drop 2 bs; off = (\<lambda>a. le_nat (go_slice a (a + 4) c))
      in if length c < 16 \<or> off 0 \<noteq> 16 then None
         else do {
           parts \<leftarrow> cut_at [off 0, off 4] c;
           Some (dec_be (take 2 bs), dec_le (go_slice 8 16 c), parts ! 0, parts ! 1)
         })"

definition decode_stateless_input :: "bytes \<Rightarrow> SszStatelessInput option" where
  "decode_stateless_input bs =
     do {
       (schema, chain, npr, wit) \<leftarrow> decode_container bs;
       n \<leftarrow> decode_new_payload_request npr;
       w \<leftarrow> decode_witness wit;
       Some \<lparr>i_schema_id = schema, i_new_payload_request = n, i_witness = w, i_chain_id = chain\<rparr>
     }"

section \<open>Reading a field out of a concatenation\<close>

lemma go_slice_skip [layout_simps]:
  "length xs \<le> a \<Longrightarrow> go_slice a b (xs @ ys) = go_slice (a - length xs) (b - length xs) ys"
  by (simp add: go_slice_def)

lemma go_slice_here [layout_simps]:
  "length xs = b \<Longrightarrow> go_slice 0 b (xs @ ys) = xs"
  by (simp add: go_slice_def)

lemma go_slice_all [layout_simps]: "length xs = b \<Longrightarrow> go_slice 0 b xs = xs"
  by (simp add: go_slice_def)

end
