(* ===== verification/Json.thy ===== *)
theory Json
  imports Go_Strings
begin

text \<open>
  JSON values and Go's \<open>encoding/json\<close> rules for storing them into typed fields. A number
  keeps its literal, because \<open>Unmarshal\<close> into an integer parses the literal. An object is
  its list of members. A member is matched to a struct field without regard to case; a
  member that names no field is ignored, and of several members for one field the last
  counts. \<open>null\<close> leaves a scalar as it is, makes a pointer or a slice nil, and is kept as
  it is by a \<open>json.RawMessage\<close>.
\<close>

section \<open>Values\<close>

datatype json =
    JNull
  | JBool bool
  | JNum string
  | JStr string
  | JArr "json list"
  | JObj "(string \<times> json) list"

type_synonym members = "(string \<times> json) list"

text \<open>A \<open>json.RawMessage\<close> that was never set has length 0: \<open>None\<close>.\<close>

type_synonym raw_message = "json option"

definition json_type_error :: "string \<Rightarrow> 'a res" where
  "json_type_error t = Inl (Errorf (''json: cannot unmarshal value into Go value of type '' @ t))"

section \<open>Storing a value\<close>

text \<open>\<open>json.Unmarshal(raw, &n)\<close> for a \<open>uint64\<close> that starts at \<open>old\<close>.\<close>

fun unmarshal_uint64 :: "u64 \<Rightarrow> json \<Rightarrow> u64 res" where
  "unmarshal_uint64 old JNull = Inr old"
| "unmarshal_uint64 old (JNum lit) =
     (case ParseUint lit 10 of
        (n, None) \<Rightarrow> Inr (of_nat n)
      | (n, Some e) \<Rightarrow> json_type_error ''uint64'')"
| "unmarshal_uint64 old _ = json_type_error ''uint64''"

text \<open>The same for an \<open>int\<close>: the literal must be an integer of 64 bits, as \<open>strconv.ParseInt\<close> reads it.\<close>

definition parse_int64 :: "string \<Rightarrow> int option" where
  "parse_int64 lit =
     (let neg = (lit \<noteq> [] \<and> hd lit = CHR ''-'');
          ds = (if neg then tl lit else lit)
      in if ds = [] then None
         else (case digits_value 10 0 ds of
                 None \<Rightarrow> None
               | Some n \<Rightarrow> if neg then (if n \<le> 2 ^ 63 then Some (- int n) else None)
                           else (if n < 2 ^ 63 then Some (int n) else None)))"

fun unmarshal_int :: "int \<Rightarrow> json \<Rightarrow> int res" where
  "unmarshal_int old JNull = Inr old"
| "unmarshal_int old (JNum lit) =
     (case parse_int64 lit of None \<Rightarrow> json_type_error ''int'' | Some n \<Rightarrow> Inr n)"
| "unmarshal_int old _ = json_type_error ''int''"

fun unmarshal_string :: "string \<Rightarrow> json \<Rightarrow> string res" where
  "unmarshal_string old JNull = Inr old"
| "unmarshal_string old (JStr s) = Inr s"
| "unmarshal_string old _ = json_type_error ''string''"

fun unmarshal_bool :: "bool \<Rightarrow> json \<Rightarrow> bool res" where
  "unmarshal_bool old JNull = Inr old"
| "unmarshal_bool old (JBool b) = Inr b"
| "unmarshal_bool old _ = json_type_error ''bool''"

text \<open>A pointer becomes nil on \<open>null\<close> and otherwise points to the stored value.\<close>

fun unmarshal_ptr :: "(json \<Rightarrow> 'a res) \<Rightarrow> json \<Rightarrow> 'a option res" where
  "unmarshal_ptr conv JNull = Inr None"
| "unmarshal_ptr conv v = res_bind (conv v) (\<lambda>x. Inr (Some x))"

fun unmarshal_slice :: "(json \<Rightarrow> 'a res) \<Rightarrow> json \<Rightarrow> 'a list res" where
  "unmarshal_slice conv JNull = Inr []"
| "unmarshal_slice conv (JArr vs) = res_mapi 0 (\<lambda>_. conv) vs"
| "unmarshal_slice conv _ = json_type_error ''slice''"

abbreviation unmarshal_strings :: "json \<Rightarrow> string list res" where
  "unmarshal_strings \<equiv> unmarshal_slice (unmarshal_string [])"

text \<open>A struct: the members of an object; \<open>null\<close> stores nothing.\<close>

fun unmarshal_struct :: "(members \<Rightarrow> 'a res) \<Rightarrow> json \<Rightarrow> 'a res" where
  "unmarshal_struct conv JNull = conv []"
| "unmarshal_struct conv (JObj ms) = conv ms"
| "unmarshal_struct conv _ = json_type_error ''struct''"

text \<open>A \<open>map[string]json.RawMessage\<close>: a repeated key keeps its last value.\<close>

fun first_keys :: "string list \<Rightarrow> members \<Rightarrow> members" where
  "first_keys seen [] = []"
| "first_keys seen ((k, v) # ms) =
     (if k \<in> set seen then first_keys seen ms else (k, v) # first_keys (k # seen) ms)"

fun unmarshal_raw_map :: "json \<Rightarrow> members res" where
  "unmarshal_raw_map JNull = Inr []"
| "unmarshal_raw_map (JObj ms) = Inr (rev (first_keys [] (rev ms)))"
| "unmarshal_raw_map _ = json_type_error ''map''"

section \<open>Struct fields\<close>

definition values_of :: "string \<Rightarrow> members \<Rightarrow> json list" where
  "values_of name ms = map snd (filter (\<lambda>(k, v). ToLower k = ToLower name) ms)"

text \<open>A scalar field: every member for it is stored in turn over the zero value.\<close>

fun store_all :: "('a \<Rightarrow> json \<Rightarrow> 'a res) \<Rightarrow> 'a \<Rightarrow> json list \<Rightarrow> 'a res" where
  "store_all conv old [] = Inr old"
| "store_all conv old (v # vs) = res_bind (conv old v) (\<lambda>x. store_all conv x vs)"

definition field_uint64 :: "string \<Rightarrow> members \<Rightarrow> u64 res" where
  "field_uint64 name ms = store_all unmarshal_uint64 0 (values_of name ms)"

definition field_int :: "string \<Rightarrow> members \<Rightarrow> int res" where
  "field_int name ms = store_all unmarshal_int 0 (values_of name ms)"

definition field_string :: "string \<Rightarrow> members \<Rightarrow> string res" where
  "field_string name ms = store_all unmarshal_string [] (values_of name ms)"

definition field_bool :: "string \<Rightarrow> members \<Rightarrow> bool res" where
  "field_bool name ms = store_all unmarshal_bool False (values_of name ms)"

text \<open>A pointer, slice, struct or map field, stored by \<open>conv\<close>; \<open>zero\<close> when no member names it.\<close>

definition field_with :: "(json \<Rightarrow> 'a res) \<Rightarrow> 'a \<Rightarrow> string \<Rightarrow> members \<Rightarrow> 'a res" where
  "field_with conv zero name ms = store_all (\<lambda>_. conv) zero (values_of name ms)"

abbreviation field_ptr_string :: "string \<Rightarrow> members \<Rightarrow> string option res" where
  "field_ptr_string \<equiv> field_with (unmarshal_ptr (unmarshal_string [])) None"

abbreviation field_ptr_uint64 :: "string \<Rightarrow> members \<Rightarrow> u64 option res" where
  "field_ptr_uint64 \<equiv> field_with (unmarshal_ptr (unmarshal_uint64 0)) None"

abbreviation field_strings :: "string \<Rightarrow> members \<Rightarrow> string list res" where
  "field_strings \<equiv> field_with unmarshal_strings []"

definition field_raw :: "string \<Rightarrow> members \<Rightarrow> raw_message" where
  "field_raw name ms = (case rev (values_of name ms) of [] \<Rightarrow> None | v # _ \<Rightarrow> Some v)"

section \<open>Lemmas\<close>

lemma unmarshal_uint64_format: "unmarshal_uint64 old (JNum (itoa (unat w))) = Inr w"
  using ParseUint_format [of 10 w]
  by (auto simp: ParseUint_res_def split: prod.splits option.splits)

lemma first_keys_distinct:
  "distinct (map fst (first_keys seen ms)) \<and> set (map fst (first_keys seen ms)) \<inter> set seen = {}"
  by (induction seen ms rule: first_keys.induct) (auto split: if_splits)

lemma unmarshal_raw_map_distinct: "unmarshal_raw_map v = Inr ms \<Longrightarrow> distinct (map fst ms)"
  using first_keys_distinct
  by (cases v) (auto simp: json_type_error_def rev_map [symmetric])

end
