(* ===== verification/Fixture_Types.thy ===== *)
theory Fixture_Types
  imports Json Geth_Api
begin

text \<open>
  The corpus fixture format of \<open>fixture/fixture.go\<close>: its records, the bodies of the five kinds of
  transaction, how \<open>encoding/json\<close> fills them, and \<open>LoadFile\<close>. Reading a file and splitting its
  text into JSON values are inputs of the loader.
\<close>

section \<open>The corpus format\<close>

text \<open>A nested struct that no member names keeps its zero value, which is that of the empty object.\<close>

definition field_struct :: "(members \<Rightarrow> 'a res) \<Rightarrow> string \<Rightarrow> members \<Rightarrow> 'a res" where
  "field_struct conv name ms =
     res_bind (conv []) (\<lambda>zero. field_with (unmarshal_struct conv) zero name ms)"

record FixtureHeader =
  fh_ParentHash :: string
  fh_OmmersHash :: string
  fh_Beneficiary :: string
  fh_StateRoot :: string
  fh_TransactionsRoot :: string
  fh_ReceiptsRoot :: string
  fh_WithdrawalsRoot :: "string option"
  fh_LogsBloom :: string
  fh_Difficulty :: string
  fh_Number :: u64
  fh_GasLimit :: u64
  fh_GasUsed :: u64
  fh_Timestamp :: u64
  fh_MixHash :: string
  fh_Nonce :: string
  fh_BaseFeePerGas :: raw_message
  fh_BlobGasUsed :: "u64 option"
  fh_ExcessBlobGas :: "u64 option"
  fh_ParentBeaconBlockRoot :: "string option"
  fh_RequestsHash :: "string option"
  fh_SlotNumber :: "u64 option"
  fh_ExtraData :: string

definition unmarshal_FixtureHeader :: "members \<Rightarrow> FixtureHeader res" where
  "unmarshal_FixtureHeader ms =
     res_bind (field_string ''parent_hash'' ms) (\<lambda>x0.
     res_bind (field_string ''ommers_hash'' ms) (\<lambda>x1.
     res_bind (field_string ''beneficiary'' ms) (\<lambda>x2.
     res_bind (field_string ''state_root'' ms) (\<lambda>x3.
     res_bind (field_string ''transactions_root'' ms) (\<lambda>x4.
     res_bind (field_string ''receipts_root'' ms) (\<lambda>x5.
     res_bind (field_ptr_string ''withdrawals_root'' ms) (\<lambda>x6.
     res_bind (field_string ''logs_bloom'' ms) (\<lambda>x7.
     res_bind (field_string ''difficulty'' ms) (\<lambda>x8.
     res_bind (field_uint64 ''number'' ms) (\<lambda>x9.
     res_bind (field_uint64 ''gas_limit'' ms) (\<lambda>x10.
     res_bind (field_uint64 ''gas_used'' ms) (\<lambda>x11.
     res_bind (field_uint64 ''timestamp'' ms) (\<lambda>x12.
     res_bind (field_string ''mix_hash'' ms) (\<lambda>x13.
     res_bind (field_string ''nonce'' ms) (\<lambda>x14.
     res_bind (field_ptr_uint64 ''blob_gas_used'' ms) (\<lambda>x16.
     res_bind (field_ptr_uint64 ''excess_blob_gas'' ms) (\<lambda>x17.
     res_bind (field_ptr_string ''parent_beacon_block_root'' ms) (\<lambda>x18.
     res_bind (field_ptr_string ''requests_hash'' ms) (\<lambda>x19.
     res_bind (field_ptr_uint64 ''slot_number'' ms) (\<lambda>x20.
     res_bind (field_string ''extra_data'' ms) (\<lambda>x21.
       Inr \<lparr>fh_ParentHash = x0,
         fh_OmmersHash = x1,
         fh_Beneficiary = x2,
         fh_StateRoot = x3,
         fh_TransactionsRoot = x4,
         fh_ReceiptsRoot = x5,
         fh_WithdrawalsRoot = x6,
         fh_LogsBloom = x7,
         fh_Difficulty = x8,
         fh_Number = x9,
         fh_GasLimit = x10,
         fh_GasUsed = x11,
         fh_Timestamp = x12,
         fh_MixHash = x13,
         fh_Nonce = x14,
         fh_BaseFeePerGas = field_raw ''base_fee_per_gas'' ms,
         fh_BlobGasUsed = x16,
         fh_ExcessBlobGas = x17,
         fh_ParentBeaconBlockRoot = x18,
         fh_RequestsHash = x19,
         fh_SlotNumber = x20,
         fh_ExtraData = x21\<rparr>)))))))))))))))))))))"

record FixtureSig =
  fs_R :: string
  fs_S :: string
  fs_YParity :: string
  fs_V :: string

definition unmarshal_FixtureSig :: "members \<Rightarrow> FixtureSig res" where
  "unmarshal_FixtureSig ms =
     res_bind (field_string ''r'' ms) (\<lambda>x0.
     res_bind (field_string ''s'' ms) (\<lambda>x1.
     res_bind (field_string ''yParity'' ms) (\<lambda>x2.
     res_bind (field_string ''v'' ms) (\<lambda>x3.
       Inr \<lparr>fs_R = x0,
         fs_S = x1,
         fs_YParity = x2,
         fs_V = x3\<rparr>))))"

text \<open>\<open>Transaction\<close> maps the transaction type name to the undecoded body.\<close>

record FixtureTx =
  ft_Signature :: FixtureSig
  ft_Transaction :: members

definition unmarshal_FixtureTx :: "members \<Rightarrow> FixtureTx res" where
  "unmarshal_FixtureTx ms =
     res_bind (field_struct unmarshal_FixtureSig ''signature'' ms) (\<lambda>x0.
     res_bind (field_with unmarshal_raw_map [] ''transaction'' ms) (\<lambda>x1.
       Inr \<lparr>ft_Signature = x0,
         ft_Transaction = x1\<rparr>))"

record FixtureWithdrawal =
  fw_Index :: string
  fw_ValidatorIndex :: string
  fw_Address :: string
  fw_Amount :: string

definition unmarshal_FixtureWithdrawal :: "members \<Rightarrow> FixtureWithdrawal res" where
  "unmarshal_FixtureWithdrawal ms =
     res_bind (field_string ''index'' ms) (\<lambda>x0.
     res_bind (field_string ''validatorIndex'' ms) (\<lambda>x1.
     res_bind (field_string ''address'' ms) (\<lambda>x2.
     res_bind (field_string ''amount'' ms) (\<lambda>x3.
       Inr \<lparr>fw_Index = x0,
         fw_ValidatorIndex = x1,
         fw_Address = x2,
         fw_Amount = x3\<rparr>))))"

record FixtureBody =
  fb_Transactions :: "FixtureTx list"
  fb_Ommers :: "json list"
  fb_Withdrawals :: "FixtureWithdrawal list"
  fb_BlockAccessList :: "string option"

definition unmarshal_FixtureBody :: "members \<Rightarrow> FixtureBody res" where
  "unmarshal_FixtureBody ms =
     res_bind (field_with (unmarshal_slice (unmarshal_struct unmarshal_FixtureTx)) [] ''transactions'' ms) (\<lambda>x0.
     res_bind (field_with (unmarshal_slice Inr) [] ''ommers'' ms) (\<lambda>x1.
     res_bind (field_with (unmarshal_slice (unmarshal_struct unmarshal_FixtureWithdrawal)) [] ''withdrawals'' ms) (\<lambda>x2.
     res_bind (field_ptr_string ''block_access_list'' ms) (\<lambda>x3.
       Inr \<lparr>fb_Transactions = x0,
         fb_Ommers = x1,
         fb_Withdrawals = x2,
         fb_BlockAccessList = x3\<rparr>))))"

record WitnessData =
  wt_State :: "string list"
  wt_Codes :: "string list"
  wt_Keys :: "string list"
  wt_Headers :: "string list"

definition unmarshal_WitnessData :: "members \<Rightarrow> WitnessData res" where
  "unmarshal_WitnessData ms =
     res_bind (field_strings ''state'' ms) (\<lambda>x0.
     res_bind (field_strings ''codes'' ms) (\<lambda>x1.
     res_bind (field_strings ''keys'' ms) (\<lambda>x2.
     res_bind (field_strings ''headers'' ms) (\<lambda>x3.
       Inr \<lparr>wt_State = x0,
         wt_Codes = x1,
         wt_Keys = x2,
         wt_Headers = x3\<rparr>))))"

record FixtureChainConfig =
  cc_ChainID :: u64
  cc_ShanghaiTime :: "u64 option"
  cc_CancunTime :: "u64 option"
  cc_PragueTime :: "u64 option"
  cc_OsakaTime :: "u64 option"
  cc_Bpo1Time :: "u64 option"
  cc_Bpo2Time :: "u64 option"
  cc_AmsterdamTime :: "u64 option"

definition unmarshal_FixtureChainConfig :: "members \<Rightarrow> FixtureChainConfig res" where
  "unmarshal_FixtureChainConfig ms =
     res_bind (field_uint64 ''chain_id'' ms) (\<lambda>x0.
     res_bind (field_ptr_uint64 ''shanghai_time'' ms) (\<lambda>x1.
     res_bind (field_ptr_uint64 ''cancun_time'' ms) (\<lambda>x2.
     res_bind (field_ptr_uint64 ''prague_time'' ms) (\<lambda>x3.
     res_bind (field_ptr_uint64 ''osaka_time'' ms) (\<lambda>x4.
     res_bind (field_ptr_uint64 ''bpo1_time'' ms) (\<lambda>x5.
     res_bind (field_ptr_uint64 ''bpo2_time'' ms) (\<lambda>x6.
     res_bind (field_ptr_uint64 ''amsterdam_time'' ms) (\<lambda>x7.
       Inr \<lparr>cc_ChainID = x0,
         cc_ShanghaiTime = x1,
         cc_CancunTime = x2,
         cc_PragueTime = x3,
         cc_OsakaTime = x4,
         cc_Bpo1Time = x5,
         cc_Bpo2Time = x6,
         cc_AmsterdamTime = x7\<rparr>))))))))"

record FixtureBlock =
  bk_Header :: FixtureHeader
  bk_Body :: FixtureBody

record StatelessInput =
  si_Block :: FixtureBlock
  si_Witness :: WitnessData
  si_ChainConfig :: "FixtureChainConfig option"

record FixtureFile =
  ff_Name :: string
  ff_Network :: string
  ff_StatelessInput :: StatelessInput
  ff_Success :: bool

definition unmarshal_FixtureBlock :: "members \<Rightarrow> FixtureBlock res" where
  "unmarshal_FixtureBlock ms =
     res_bind (field_struct unmarshal_FixtureHeader ''header'' ms) (\<lambda>h.
     res_bind (field_struct unmarshal_FixtureBody ''body'' ms) (\<lambda>b.
       Inr \<lparr>bk_Header = h, bk_Body = b\<rparr>))"

definition unmarshal_StatelessInput :: "members \<Rightarrow> StatelessInput res" where
  "unmarshal_StatelessInput ms =
     res_bind (field_struct unmarshal_FixtureBlock ''block'' ms) (\<lambda>b.
     res_bind (field_struct unmarshal_WitnessData ''witness'' ms) (\<lambda>w.
     res_bind (field_with (unmarshal_ptr (unmarshal_struct unmarshal_FixtureChainConfig)) None
                 ''chain_config'' ms) (\<lambda>c.
       Inr \<lparr>si_Block = b, si_Witness = w, si_ChainConfig = c\<rparr>)))"

definition unmarshal_FixtureFile :: "members \<Rightarrow> FixtureFile res" where
  "unmarshal_FixtureFile ms =
     res_bind (field_string ''name'' ms) (\<lambda>n.
     res_bind (field_string ''network'' ms) (\<lambda>w.
     res_bind (field_struct unmarshal_StatelessInput ''stateless_input'' ms) (\<lambda>s.
     res_bind (field_bool ''success'' ms) (\<lambda>b.
       Inr \<lparr>ff_Name = n, ff_Network = w, ff_StatelessInput = s, ff_Success = b\<rparr>))))"

text \<open>
  \<open>LoadFile\<close>: \<open>content\<close> is what \<open>os.ReadFile(path)\<close> returned and \<open>syntax\<close> the JSON syntax
  pass of \<open>encoding/json\<close> over the text.
\<close>

definition LoadFile :: "(string \<Rightarrow> json res) \<Rightarrow> string \<Rightarrow> string res \<Rightarrow> FixtureFile res" where
  "LoadFile syntax path content =
     res_bind (res_wrap (''read '' @ path) content) (\<lambda>data.
     res_wrap (''parse '' @ path)
       (res_bind (syntax data) (unmarshal_struct unmarshal_FixtureFile)))"

section \<open>Transaction bodies\<close>

record Eip1559TxBody =
  e1_ChainID :: u64
  e1_Nonce :: u64
  e1_GasLimit :: u64
  e1_MaxFeePerGas :: u64
  e1_MaxPriorityFeePerGas :: u64
  e1_To :: "string option"
  e1_Value :: string
  e1_AccessList :: raw_message
  e1_Input :: string

definition unmarshal_Eip1559TxBody :: "members \<Rightarrow> Eip1559TxBody res" where
  "unmarshal_Eip1559TxBody ms =
     res_bind (field_uint64 ''chain_id'' ms) (\<lambda>x0.
     res_bind (field_uint64 ''nonce'' ms) (\<lambda>x1.
     res_bind (field_uint64 ''gas_limit'' ms) (\<lambda>x2.
     res_bind (field_uint64 ''max_fee_per_gas'' ms) (\<lambda>x3.
     res_bind (field_uint64 ''max_priority_fee_per_gas'' ms) (\<lambda>x4.
     res_bind (field_ptr_string ''to'' ms) (\<lambda>x5.
     res_bind (field_string ''value'' ms) (\<lambda>x6.
     res_bind (field_string ''input'' ms) (\<lambda>x8.
       Inr \<lparr>e1_ChainID = x0,
         e1_Nonce = x1,
         e1_GasLimit = x2,
         e1_MaxFeePerGas = x3,
         e1_MaxPriorityFeePerGas = x4,
         e1_To = x5,
         e1_Value = x6,
         e1_AccessList = field_raw ''access_list'' ms,
         e1_Input = x8\<rparr>))))))))"

record LegacyTxBody =
  e0_ChainID :: raw_message
  e0_Nonce :: u64
  e0_GasPrice :: u64
  e0_GasLimit :: u64
  e0_To :: "string option"
  e0_Value :: string
  e0_Input :: string

definition unmarshal_LegacyTxBody :: "members \<Rightarrow> LegacyTxBody res" where
  "unmarshal_LegacyTxBody ms =
     res_bind (field_uint64 ''nonce'' ms) (\<lambda>x1.
     res_bind (field_uint64 ''gas_price'' ms) (\<lambda>x2.
     res_bind (field_uint64 ''gas_limit'' ms) (\<lambda>x3.
     res_bind (field_ptr_string ''to'' ms) (\<lambda>x4.
     res_bind (field_string ''value'' ms) (\<lambda>x5.
     res_bind (field_string ''input'' ms) (\<lambda>x6.
       Inr \<lparr>e0_ChainID = field_raw ''chain_id'' ms,
         e0_Nonce = x1,
         e0_GasPrice = x2,
         e0_GasLimit = x3,
         e0_To = x4,
         e0_Value = x5,
         e0_Input = x6\<rparr>))))))"

record Eip4844TxBody =
  e3_ChainID :: string
  e3_Nonce :: string
  e3_Gas :: string
  e3_MaxFeePerGas :: string
  e3_MaxPriorityFeePerGas :: string
  e3_To :: string
  e3_Value :: string
  e3_AccessList :: raw_message
  e3_BlobVersionedHashes :: "string list"
  e3_MaxFeePerBlobGas :: string
  e3_Input :: string

definition unmarshal_Eip4844TxBody :: "members \<Rightarrow> Eip4844TxBody res" where
  "unmarshal_Eip4844TxBody ms =
     res_bind (field_string ''chainId'' ms) (\<lambda>x0.
     res_bind (field_string ''nonce'' ms) (\<lambda>x1.
     res_bind (field_string ''gas'' ms) (\<lambda>x2.
     res_bind (field_string ''maxFeePerGas'' ms) (\<lambda>x3.
     res_bind (field_string ''maxPriorityFeePerGas'' ms) (\<lambda>x4.
     res_bind (field_string ''to'' ms) (\<lambda>x5.
     res_bind (field_string ''value'' ms) (\<lambda>x6.
     res_bind (field_strings ''blobVersionedHashes'' ms) (\<lambda>x8.
     res_bind (field_string ''maxFeePerBlobGas'' ms) (\<lambda>x9.
     res_bind (field_string ''input'' ms) (\<lambda>x10.
       Inr \<lparr>e3_ChainID = x0,
         e3_Nonce = x1,
         e3_Gas = x2,
         e3_MaxFeePerGas = x3,
         e3_MaxPriorityFeePerGas = x4,
         e3_To = x5,
         e3_Value = x6,
         e3_AccessList = field_raw ''accessList'' ms,
         e3_BlobVersionedHashes = x8,
         e3_MaxFeePerBlobGas = x9,
         e3_Input = x10\<rparr>))))))))))"

record Eip2930TxBody =
  e2_ChainID :: u64
  e2_Nonce :: u64
  e2_GasPrice :: u64
  e2_GasLimit :: u64
  e2_To :: "string option"
  e2_Value :: string
  e2_AccessList :: raw_message
  e2_Input :: string

definition unmarshal_Eip2930TxBody :: "members \<Rightarrow> Eip2930TxBody res" where
  "unmarshal_Eip2930TxBody ms =
     res_bind (field_uint64 ''chain_id'' ms) (\<lambda>x0.
     res_bind (field_uint64 ''nonce'' ms) (\<lambda>x1.
     res_bind (field_uint64 ''gas_price'' ms) (\<lambda>x2.
     res_bind (field_uint64 ''gas_limit'' ms) (\<lambda>x3.
     res_bind (field_ptr_string ''to'' ms) (\<lambda>x4.
     res_bind (field_string ''value'' ms) (\<lambda>x5.
     res_bind (field_string ''input'' ms) (\<lambda>x7.
       Inr \<lparr>e2_ChainID = x0,
         e2_Nonce = x1,
         e2_GasPrice = x2,
         e2_GasLimit = x3,
         e2_To = x4,
         e2_Value = x5,
         e2_AccessList = field_raw ''access_list'' ms,
         e2_Input = x7\<rparr>)))))))"

record AuthInner =
  ai_ChainID :: string
  ai_Address :: string
  ai_Nonce :: string

definition unmarshal_AuthInner :: "members \<Rightarrow> AuthInner res" where
  "unmarshal_AuthInner ms =
     res_bind (field_string ''chainId'' ms) (\<lambda>x0.
     res_bind (field_string ''address'' ms) (\<lambda>x1.
     res_bind (field_string ''nonce'' ms) (\<lambda>x2.
       Inr \<lparr>ai_ChainID = x0,
         ai_Address = x1,
         ai_Nonce = x2\<rparr>)))"

record FixtureAuthorization =
  fa_Inner :: AuthInner
  fa_YParity :: string
  fa_R :: string
  fa_S :: string

definition unmarshal_FixtureAuthorization :: "members \<Rightarrow> FixtureAuthorization res" where
  "unmarshal_FixtureAuthorization ms =
     res_bind (field_struct unmarshal_AuthInner ''inner'' ms) (\<lambda>x0.
     res_bind (field_string ''yParity'' ms) (\<lambda>x1.
     res_bind (field_string ''r'' ms) (\<lambda>x2.
     res_bind (field_string ''s'' ms) (\<lambda>x3.
       Inr \<lparr>fa_Inner = x0,
         fa_YParity = x1,
         fa_R = x2,
         fa_S = x3\<rparr>))))"

record Eip7702TxBody =
  e4_ChainID :: u64
  e4_Nonce :: u64
  e4_GasLimit :: u64
  e4_MaxFeePerGas :: u64
  e4_MaxPriorityFeePerGas :: u64
  e4_To :: string
  e4_Value :: string
  e4_AccessList :: raw_message
  e4_AuthorizationList :: "FixtureAuthorization list"
  e4_Input :: string

definition unmarshal_Eip7702TxBody :: "members \<Rightarrow> Eip7702TxBody res" where
  "unmarshal_Eip7702TxBody ms =
     res_bind (field_uint64 ''chain_id'' ms) (\<lambda>x0.
     res_bind (field_uint64 ''nonce'' ms) (\<lambda>x1.
     res_bind (field_uint64 ''gas_limit'' ms) (\<lambda>x2.
     res_bind (field_uint64 ''max_fee_per_gas'' ms) (\<lambda>x3.
     res_bind (field_uint64 ''max_priority_fee_per_gas'' ms) (\<lambda>x4.
     res_bind (field_string ''to'' ms) (\<lambda>x5.
     res_bind (field_string ''value'' ms) (\<lambda>x6.
     res_bind (field_with (unmarshal_slice (unmarshal_struct unmarshal_FixtureAuthorization)) [] ''authorization_list'' ms) (\<lambda>x8.
     res_bind (field_string ''input'' ms) (\<lambda>x9.
       Inr \<lparr>e4_ChainID = x0,
         e4_Nonce = x1,
         e4_GasLimit = x2,
         e4_MaxFeePerGas = x3,
         e4_MaxPriorityFeePerGas = x4,
         e4_To = x5,
         e4_Value = x6,
         e4_AccessList = field_raw ''access_list'' ms,
         e4_AuthorizationList = x8,
         e4_Input = x9\<rparr>)))))))))"

record AccessTupleJSON =
  aj_Address :: string
  aj_StorageKeys :: "string list"

definition unmarshal_AccessTupleJSON :: "members \<Rightarrow> AccessTupleJSON res" where
  "unmarshal_AccessTupleJSON ms =
     res_bind (field_string ''address'' ms) (\<lambda>x0.
     res_bind (field_strings ''storageKeys'' ms) (\<lambda>x1.
       Inr \<lparr>aj_Address = x0,
         aj_StorageKeys = x1\<rparr>))"

end
