(* ===== verification/Tx_Build.thy ===== *)
theory Tx_Build
  imports Fixture_Types
begin

text \<open>
  \<open>fixture/encode.go\<close>: the conversion helpers from fixture strings to numbers, hashes and
  byte slices, and the builders that turn the decoded JSON of a fixture into go-ethereum
  transactions, withdrawals and the block header. Every early return of the source is a
  branch here; the helpers named \<open>must...\<close> and \<open>...2\<close>, which drop an error and go on with
  what was decoded so far, do the same.
\<close>

section \<open>Conversion helpers\<close>

definition hexStrToBytes :: "string \<Rightarrow> bytes \<times> go_error option" where
  "hexStrToBytes s =
     (let t = TrimPrefix s ''0x'';
          u = (if length t mod 2 \<noteq> 0 then CHR ''0'' # t else t)
      in hex_DecodeString u)"

definition mustHexToBytes :: "string \<Rightarrow> bytes" where
  "mustHexToBytes s = fst (hexStrToBytes s)"

fun pair_res :: "'a \<times> go_error option \<Rightarrow> 'a res" where
  "pair_res (x, None) = Inr x"
| "pair_res (x, Some e) = Inl e"

definition decodeHexArray :: "string list \<Rightarrow> bytes list res" where
  "decodeHexArray arr =
     res_mapi 0 (\<lambda>i s. res_wrap (''element '' @ itoa i) (pair_res (hexStrToBytes s))) arr"

text \<open>\<open>copy(bloom[:], b)\<close> fills the 256-byte array from the left and leaves the rest zero.\<close>

definition array_of :: "nat \<Rightarrow> bytes \<Rightarrow> bytes" where
  "array_of n b = take n (b @ replicate n 0)"

definition hexToBloom :: "string \<Rightarrow> bloom" where
  "hexToBloom s = of_nat (be_nat (array_of 256 (mustHexToBytes s)))"

definition hexToBigInt :: "string \<Rightarrow> int res" where
  "hexToBigInt s =
     (let t = TrimPrefix s ''0x''
      in if t = [] \<or> t = ''0'' then Inr 0
         else (case big_SetString16 t of
                 None \<Rightarrow> Inl (Errorf (''invalid hex big.Int: '' @ go_quote t))
               | Some n \<Rightarrow> Inr n))"

definition hexToBigInt2 :: "string \<Rightarrow> int" where
  "hexToBigInt2 s = (case hexToBigInt s of Inl e \<Rightarrow> 0 | Inr n \<Rightarrow> n)"

definition hexToUint64 :: "string \<Rightarrow> u64 res" where
  "hexToUint64 s =
     (let t = TrimPrefix s ''0x''
      in if t = [] then Inr 0
         else (case big_SetString16 t of
                 None \<Rightarrow> Inl (Errorf (''invalid hex uint64: '' @ go_quote t))
               | Some n \<Rightarrow> Inr (big_Uint64 n)))"

definition bigToUint256 :: "geth \<Rightarrow> int option \<Rightarrow> u256" where
  "bigToUint256 G n =
     (case n of
        None \<Rightarrow> uint256_NewInt G 0
      | Some i \<Rightarrow> (case uint256_FromBig G i of None \<Rightarrow> uint256_NewInt G 0 | Some u \<Rightarrow> u))"

definition hexToUint256 :: "geth \<Rightarrow> string \<Rightarrow> u256 res" where
  "hexToUint256 G s = res_bind (hexToBigInt s) (\<lambda>n. Inr (bigToUint256 G (Some n)))"

definition rawJSONToBigInt :: "raw_message \<Rightarrow> int res" where
  "rawJSONToBigInt raw =
     (case raw of
        None \<Rightarrow> Inr 0
      | Some JNull \<Rightarrow> Inr 0
      | Some v \<Rightarrow>
          (case unmarshal_uint64 0 v of
             Inr n \<Rightarrow> Inr (int (unat n))
           | Inl _ \<Rightarrow>
               res_bind (res_wrap ''rawJSONToBigInt'' (unmarshal_string [] v)) hexToBigInt))"

definition rawJSONToUint64 :: "raw_message \<Rightarrow> u64 res" where
  "rawJSONToUint64 raw = res_bind (rawJSONToBigInt raw) (\<lambda>n. Inr (big_Uint64 n))"

definition parseSig :: "FixtureSig \<Rightarrow> (u64 \<times> int \<times> int) res" where
  "parseSig sig =
     res_bind (res_wrap ''yParity'' (hexToUint64 (fs_YParity sig))) (\<lambda>yParity.
       Inr (yParity, hexToBigInt2 (fs_R sig), hexToBigInt2 (fs_S sig)))"

definition parseToAddrPtr :: "geth \<Rightarrow> string option \<Rightarrow> address option" where
  "parseToAddrPtr G s =
     (case s of
        None \<Rightarrow> None
      | Some t \<Rightarrow> if t = [] \<or> t = ''null'' then None else Some (HexToAddress G t))"

section \<open>Access lists\<close>

definition decodeAccessList :: "geth \<Rightarrow> raw_message \<Rightarrow> AccessTuple list res" where
  "decodeAccessList G raw =
     (case raw of
        None \<Rightarrow> Inr []
      | Some JNull \<Rightarrow> Inr []
      | Some (JArr []) \<Rightarrow> Inr []
      | Some v \<Rightarrow>
          res_bind (res_wrap ''access_list''
                     (unmarshal_slice (unmarshal_struct unmarshal_AccessTupleJSON) v)) (\<lambda>tuples.
            Inr (map (\<lambda>t. \<lparr>at_Address = HexToAddress G (aj_Address t),
                            at_StorageKeys = map (HexToHash G) (aj_StorageKeys t)\<rparr>) tuples)))"

section \<open>Transactions\<close>

definition buildEip1559 :: "geth \<Rightarrow> json \<Rightarrow> FixtureSig \<Rightarrow> Transaction res" where
  "buildEip1559 G raw sig =
     res_bind (unmarshal_struct unmarshal_Eip1559TxBody raw) (\<lambda>b.
     res_bind (decodeAccessList G (e1_AccessList b)) (\<lambda>al.
     res_bind (parseSig sig) (\<lambda>(yParity, r, s).
       Inr (NewDynamicFeeTx
         \<lparr>df_ChainID = int (unat (e1_ChainID b)),
          df_Nonce = e1_Nonce b,
          df_GasTipCap = int (unat (e1_MaxPriorityFeePerGas b)),
          df_GasFeeCap = int (unat (e1_MaxFeePerGas b)),
          df_Gas = e1_GasLimit b,
          df_To = parseToAddrPtr G (e1_To b),
          df_Value = hexToBigInt2 (e1_Value b),
          df_Data = mustHexToBytes (e1_Input b),
          df_AccessList = al,
          df_V = int (unat yParity),
          df_R = r,
          df_S = s\<rparr>))))"

text \<open>The 64-bit sum of EIP-155 wraps around as the source's does.\<close>

definition legacyV :: "u64 \<Rightarrow> u64 \<Rightarrow> int" where
  "legacyV chainID yParity =
     (if 0 < chainID then int (unat (chainID * 2 + 35 + yParity))
      else int (unat (27 + yParity)))"

definition buildLegacy :: "geth \<Rightarrow> json \<Rightarrow> FixtureSig \<Rightarrow> Transaction res" where
  "buildLegacy G raw sig =
     res_bind (unmarshal_struct unmarshal_LegacyTxBody raw) (\<lambda>b.
     res_bind (res_wrap ''legacy chain_id'' (rawJSONToUint64 (e0_ChainID b))) (\<lambda>chainID.
     res_bind (parseSig sig) (\<lambda>(yParity, r, s).
       Inr (NewLegacyTx
         \<lparr>lt_Nonce = e0_Nonce b,
          lt_GasPrice = int (unat (e0_GasPrice b)),
          lt_Gas = e0_GasLimit b,
          lt_To = parseToAddrPtr G (e0_To b),
          lt_Value = hexToBigInt2 (e0_Value b),
          lt_Data = mustHexToBytes (e0_Input b),
          lt_V = legacyV chainID yParity,
          lt_R = r,
          lt_S = s\<rparr>))))"

definition buildEip2930 :: "geth \<Rightarrow> json \<Rightarrow> FixtureSig \<Rightarrow> Transaction res" where
  "buildEip2930 G raw sig =
     res_bind (unmarshal_struct unmarshal_Eip2930TxBody raw) (\<lambda>b.
     res_bind (decodeAccessList G (e2_AccessList b)) (\<lambda>al.
     res_bind (parseSig sig) (\<lambda>(yParity, r, s).
       Inr (NewAccessListTx
         \<lparr>al_ChainID = int (unat (e2_ChainID b)),
          al_Nonce = e2_Nonce b,
          al_GasPrice = int (unat (e2_GasPrice b)),
          al_Gas = e2_GasLimit b,
          al_To = parseToAddrPtr G (e2_To b),
          al_Value = hexToBigInt2 (e2_Value b),
          al_Data = mustHexToBytes (e2_Input b),
          al_AccessList = al,
          al_V = int (unat yParity),
          al_R = r,
          al_S = s\<rparr>))))"

definition buildEip4844 :: "geth \<Rightarrow> json \<Rightarrow> FixtureSig \<Rightarrow> Transaction res" where
  "buildEip4844 G raw sig =
     res_bind (unmarshal_struct unmarshal_Eip4844TxBody raw) (\<lambda>b.
     res_bind (decodeAccessList G (e3_AccessList b)) (\<lambda>al.
     res_bind (parseSig sig) (\<lambda>(yParity, _, _).
     res_bind (res_wrap ''EIP-4844 chainId'' (hexToUint256 G (e3_ChainID b))) (\<lambda>chainID.
     res_bind (hexToUint64 (e3_Nonce b)) (\<lambda>nonce.
     res_bind (hexToUint64 (e3_Gas b)) (\<lambda>gas.
     res_bind (hexToUint256 G (e3_MaxFeePerGas b)) (\<lambda>maxFeePerGas.
     res_bind (hexToUint256 G (e3_MaxPriorityFeePerGas b)) (\<lambda>maxPrioFeePerGas.
     res_bind (hexToUint256 G (e3_Value b)) (\<lambda>value.
     res_bind (hexToUint256 G (e3_MaxFeePerBlobGas b)) (\<lambda>blobFeeCap.
     res_bind (hexToUint256 G (fs_R sig)) (\<lambda>rU.
     res_bind (hexToUint256 G (fs_S sig)) (\<lambda>sU.
       Inr (NewBlobTx
         \<lparr>bt_ChainID = chainID,
          bt_Nonce = nonce,
          bt_GasTipCap = maxPrioFeePerGas,
          bt_GasFeeCap = maxFeePerGas,
          bt_Gas = gas,
          bt_To = HexToAddress G (e3_To b),
          bt_Value = value,
          bt_Data = mustHexToBytes (e3_Input b),
          bt_AccessList = al,
          bt_BlobFeeCap = blobFeeCap,
          bt_BlobHashes = map (HexToHash G) (e3_BlobVersionedHashes b),
          bt_V = uint256_NewInt G yParity,
          bt_R = rU,
          bt_S = sU\<rparr>)))))))))))))"

definition buildAuth :: "geth \<Rightarrow> nat \<Rightarrow> FixtureAuthorization \<Rightarrow> SetCodeAuthorization res" where
  "buildAuth G i a =
     res_bind (res_wrap (''auth['' @ itoa i @ ''] chainId'') (hexToUint64 (ai_ChainID (fa_Inner a)))) (\<lambda>chainID.
     res_bind (res_wrap (''auth['' @ itoa i @ ''] nonce'') (hexToUint64 (ai_Nonce (fa_Inner a)))) (\<lambda>nonce.
     res_bind (hexToUint64 (fa_YParity a)) (\<lambda>yParity.
     res_bind (hexToUint256 G (fa_R a)) (\<lambda>rU.
     res_bind (hexToUint256 G (fa_S a)) (\<lambda>sU.
       Inr \<lparr>au_ChainID = uint256_NewInt G chainID,
            au_Address = HexToAddress G (ai_Address (fa_Inner a)),
            au_Nonce = nonce,
            au_V = ucast yParity,
            au_R = rU,
            au_S = sU\<rparr>)))))"

definition buildAuthList :: "geth \<Rightarrow> FixtureAuthorization list \<Rightarrow> SetCodeAuthorization list res" where
  "buildAuthList G auths = res_mapi 0 (buildAuth G) auths"

definition buildEip7702 :: "geth \<Rightarrow> json \<Rightarrow> FixtureSig \<Rightarrow> Transaction res" where
  "buildEip7702 G raw sig =
     res_bind (unmarshal_struct unmarshal_Eip7702TxBody raw) (\<lambda>b.
     res_bind (decodeAccessList G (e4_AccessList b)) (\<lambda>al.
     res_bind (buildAuthList G (e4_AuthorizationList b)) (\<lambda>auths.
     res_bind (parseSig sig) (\<lambda>(yParity, _, _).
     res_bind (hexToUint256 G (fs_R sig)) (\<lambda>rU.
     res_bind (hexToUint256 G (fs_S sig)) (\<lambda>sU.
       Inr (NewSetCodeTx
         \<lparr>sc_ChainID = uint256_NewInt G (e4_ChainID b),
          sc_Nonce = e4_Nonce b,
          sc_GasTipCap = uint256_NewInt G (e4_MaxPriorityFeePerGas b),
          sc_GasFeeCap = uint256_NewInt G (e4_MaxFeePerGas b),
          sc_Gas = e4_GasLimit b,
          sc_To = HexToAddress G (e4_To b),
          sc_Value = bigToUint256 G (Some (hexToBigInt2 (e4_Value b))),
          sc_Data = mustHexToBytes (e4_Input b),
          sc_AccessList = al,
          sc_AuthList = auths,
          sc_V = uint256_NewInt G yParity,
          sc_R = rU,
          sc_S = sU\<rparr>)))))))"

text \<open>With exactly one key in the map, the \<open>range\<close> loop of the source runs once, on that key.\<close>

definition buildTx :: "geth \<Rightarrow> FixtureTx \<Rightarrow> Transaction res" where
  "buildTx G ft =
     (case ft_Transaction ft of
        [(txType, raw)] \<Rightarrow>
          if txType = ''Eip1559'' then buildEip1559 G raw (ft_Signature ft)
          else if txType = ''Legacy'' then buildLegacy G raw (ft_Signature ft)
          else if txType = ''Eip2930'' then buildEip2930 G raw (ft_Signature ft)
          else if txType = ''Eip4844'' then buildEip4844 G raw (ft_Signature ft)
          else if txType = ''Eip7702'' then buildEip7702 G raw (ft_Signature ft)
          else Inl (Errorf (''unknown tx type '' @ go_quote txType))
      | ms \<Rightarrow> Inl (Errorf (''expected exactly one tx type key, got '' @ itoa (length ms))))"

definition buildTransactions :: "geth \<Rightarrow> FixtureTx list \<Rightarrow> Transaction list res" where
  "buildTransactions G txs =
     res_mapi 0 (\<lambda>i ft. res_wrap (''tx['' @ itoa i @ '']'') (buildTx G ft)) txs"

definition buildWithdrawal :: "geth \<Rightarrow> nat \<Rightarrow> FixtureWithdrawal \<Rightarrow> Withdrawal res" where
  "buildWithdrawal G i w =
     res_bind (res_wrap (''withdrawal['' @ itoa i @ ''] index'') (hexToUint64 (fw_Index w))) (\<lambda>idx.
     res_bind (res_wrap (''withdrawal['' @ itoa i @ ''] validatorIndex'')
                 (hexToUint64 (fw_ValidatorIndex w))) (\<lambda>vi.
     res_bind (res_wrap (''withdrawal['' @ itoa i @ ''] amount'') (hexToUint64 (fw_Amount w))) (\<lambda>amount.
       Inr \<lparr>wd_Index = idx, wd_Validator = vi,
            wd_Address = HexToAddress G (fw_Address w), wd_Amount = amount\<rparr>)))"

definition buildWithdrawals :: "geth \<Rightarrow> FixtureWithdrawal list \<Rightarrow> Withdrawal list res" where
  "buildWithdrawals G wds = res_mapi 0 (buildWithdrawal G) wds"

section \<open>The header\<close>

definition fixtureHeader :: "geth \<Rightarrow> FixtureFile \<Rightarrow> Header res" where
  "fixtureHeader G f =
     (let h = bk_Header (si_Block (ff_StatelessInput f));
          bal = fb_BlockAccessList (bk_Body (si_Block (ff_StatelessInput f)))
      in res_bind (res_wrap ''difficulty'' (hexToBigInt (fh_Difficulty h))) (\<lambda>difficulty.
         res_bind (res_wrap ''baseFee'' (rawJSONToBigInt (fh_BaseFeePerGas h))) (\<lambda>baseFee.
           Inr \<lparr>h_ParentHash = HexToHash G (fh_ParentHash h),
                h_UncleHash = HexToHash G (fh_OmmersHash h),
                h_Coinbase = HexToAddress G (fh_Beneficiary h),
                h_Root = HexToHash G (fh_StateRoot h),
                h_TxHash = HexToHash G (fh_TransactionsRoot h),
                h_ReceiptHash = HexToHash G (fh_ReceiptsRoot h),
                h_Bloom = hexToBloom (fh_LogsBloom h),
                h_Difficulty = difficulty,
                h_Number = int (unat (fh_Number h)),
                h_GasLimit = fh_GasLimit h,
                h_GasUsed = fh_GasUsed h,
                h_Time = fh_Timestamp h,
                h_Extra = mustHexToBytes (fh_ExtraData h),
                h_MixDigest = HexToHash G (fh_MixHash h),
                h_Nonce = of_nat (be_nat (array_of 8 (mustHexToBytes (fh_Nonce h)))),
                h_BaseFee = Some baseFee,
                h_WithdrawalsHash = map_option (HexToHash G) (fh_WithdrawalsRoot h),
                h_BlobGasUsed = fh_BlobGasUsed h,
                h_ExcessBlobGas = fh_ExcessBlobGas h,
                h_ParentBeaconRoot = map_option (HexToHash G) (fh_ParentBeaconBlockRoot h),
                h_RequestsHash = map_option (HexToHash G) (fh_RequestsHash h),
                h_BlockAccessListHash =
                  map_option (\<lambda>b. Keccak256Hash G (mustHexToBytes b)) bal,
                h_SlotNumber = fh_SlotNumber h\<rparr>)))"

section \<open>Lemmas\<close>

definition hex_text :: "bytes \<Rightarrow> string" where
  "hex_text bs = ''0x'' @ hex_EncodeToString bs"

lemma hexStrToBytes_hex_text: "hexStrToBytes (hex_text bs) = (bs, None)"
  using TrimPrefix_append [of "''0x''" "hex_EncodeToString bs"]
  by (simp add: hexStrToBytes_def hex_text_def hex_Decode_Encode Let_def del: TrimPrefix_append)

lemma hexToUint64_format: "hexToUint64 (''0x'' @ format_digits 16 n) = Inr (of_nat n)"
  using TrimPrefix_append [of "''0x''" "format_digits 16 n"]
  by (simp add: hexToUint64_def big_SetString16_format big_Uint64_def Let_def del: TrimPrefix_append)

lemma unat_legacy:
  assumes "2 * unat c + 36 < 2 ^ 64" "y < 2"
  shows "unat (c * 2 + 35 + y :: u64) = 2 * unat c + 35 + unat y"
proof -
  have y: "unat y < 2" using assms(2) by (simp add: word_less_nat_alt)
  have "unat (c * 2 + 35 + y) = (unat c * 2 + 35 + unat y) mod 2 ^ 64"
    by (simp add: unat_word_ariths mod_simps)
  also have "\<dots> = unat c * 2 + 35 + unat y"
    using assms(1) y by simp
  finally show ?thesis by simp
qed

section \<open>Properties\<close>

text \<open>
  Arrays of byte strings survive the trip through JSON hex: decoding the \<open>0x\<close> spelling of every
  element gives the elements back, in order.
\<close>

lemma decodeHexArray_roundtrip: "decodeHexArray (map hex_text bss) = Inr bss"
  unfolding decodeHexArray_def by (subst res_mapi_eq_Inr) (simp add: hexStrToBytes_hex_text)

text \<open>
  \<open>hexToUint64\<close> reads the \<open>0x\<close> spelling of a number modulo 2^64: every 64-bit value is read back
  exactly, and a larger one is cut to its low 64 bits without an error.
\<close>

lemma hexToUint64_value:
  "\<exists>w. hexToUint64 (''0x'' @ format_digits 16 n) = Inr w \<and> unat w = n mod 2 ^ 64"
  by (simp only: hexToUint64_format) (simp add: unat_of_nat)

text \<open>
  The \<open>V\<close> of a legacy transaction carries its chain id and parity (EIP-155): both are recovered
  from it as long as the 64-bit sum does not wrap, and without a chain id \<open>V\<close> is 27 or 28.
\<close>

lemma legacyV_recovers:
  assumes "2 * unat c + 36 < 2 ^ 64" "y < 2"
  shows "(0 < c \<longrightarrow> (legacyV c y - 35) div 2 = int (unat c) \<and> (legacyV c y - 35) mod 2 = int (unat y)) \<and>
         (c = 0 \<longrightarrow> legacyV c y = 27 + int (unat y))"
proof -
  have y: "unat y < 2" using assms(2) by (simp add: word_less_nat_alt)
  then consider "unat y = 0" | "unat y = 1" by linarith
  then have "y = 0 \<or> y = 1" by cases (simp_all add: word_unat_eq_iff)
  moreover have "legacyV c y = int (2 * unat c + 35 + unat y)" if "0 < c"
    using that unat_legacy [OF assms] by (simp add: legacyV_def del: of_nat_add of_nat_mult)
  ultimately show ?thesis by (auto simp: legacyV_def)
qed

lemma legacyV_recovers_example:
  "(legacyV 1337 1 - 35) div 2 = int (unat (1337 :: u64)) \<and> (legacyV 1337 1 - 35) mod 2 = 1"
  using legacyV_recovers [of 1337 1] by simp

text \<open>
  Transactions are built one by one, in order, and the first that fails decides the error. On
  success there is one transaction per entry, built from it; on failure the error names the first
  entry that cannot be built, by its index.
\<close>

lemma buildTransactions_spec:
  "(case buildTransactions G txs of
      Inr ts \<Rightarrow> length ts = length txs \<and> (\<forall>i < length txs. buildTx G (txs ! i) = Inr (ts ! i))
    | Inl e \<Rightarrow> (\<exists>i < length txs. (\<forall>j < i. \<exists>t. buildTx G (txs ! j) = Inr t) \<and>
                 (\<exists>e'. buildTx G (txs ! i) = Inl e' \<and> e = wrap_error (''tx['' @ itoa i @ '']'') e')))"
proof (cases "buildTransactions G txs")
  case (Inr ts)
  then have "length ts = length txs \<and> (\<forall>i < length txs. buildTx G (txs ! i) = Inr (ts ! i))"
    by (simp add: buildTransactions_def res_mapi_eq_Inr res_wrap_eq_Inr)
  with Inr show ?thesis by simp
next
  case (Inl e)
  then have "res_mapi 0 (\<lambda>i ft. res_wrap (''tx['' @ itoa i @ '']'') (buildTx G ft)) txs = Inl e"
    by (simp only: buildTransactions_def)
  from res_mapi_eq_Inl [OF this] Inl show ?thesis
    by (auto simp: res_wrap_eq_Inr res_wrap_eq_Inl)
qed

definition sample_fixture_tx :: FixtureTx where
  "sample_fixture_tx =
     \<lparr>ft_Signature = \<lparr>fs_R = ''0x5'', fs_S = ''0x6'', fs_YParity = ''0x1'', fs_V = []\<rparr>,
      ft_Transaction = [(''Eip1559'', JObj [(''input'', JStr ''0xc001'')])]\<rparr>"

lemma sample_buildTx: "\<exists>d. buildTx sample_geth sample_fixture_tx = Inr (NewDynamicFeeTx d) \<and> df_Data d = [192, 1]"
proof -
  have "hexToUint64 ''0x1'' = Inr 1" "mustHexToBytes ''0xc001'' = [192, 1]"
    "unmarshal_Eip1559TxBody [(''input'', JStr ''0xc001'')] =
       Inr \<lparr>e1_ChainID = 0, e1_Nonce = 0, e1_GasLimit = 0, e1_MaxFeePerGas = 0,
            e1_MaxPriorityFeePerGas = 0, e1_To = None, e1_Value = [], e1_AccessList = None,
            e1_Input = ''0xc001''\<rparr>"
    by code_simp+
  then show ?thesis
    by (simp add: buildTx_def buildEip1559_def parseSig_def decodeAccessList_def sample_fixture_tx_def)
qed

lemma buildTransactions_spec_example:
  "\<exists>e. buildTransactions sample_geth [sample_fixture_tx, sample_fixture_tx\<lparr>ft_Transaction := []\<rparr>] = Inl e \<and>
     (\<exists>e'. e = wrap_error ''tx[1]'' e')"
proof -
  let ?bad = "sample_fixture_tx\<lparr>ft_Transaction := []\<rparr>"
  let ?b = "buildTransactions sample_geth [sample_fixture_tx, ?bad]"
  obtain t where good: "buildTx sample_geth sample_fixture_tx = Inr t" using sample_buildTx by blast
  have bad: "\<exists>e. buildTx sample_geth ?bad = Inl e" by (simp add: buildTx_def)
  have "\<not> (\<exists>ts. ?b = Inr ts)"
  proof
    assume "\<exists>ts. ?b = Inr ts"
    then obtain ts where "?b = Inr ts" by blast
    then show False
      using buildTransactions_spec [where G = sample_geth and txs = "[sample_fixture_tx, ?bad]"] bad
      by (auto simp: All_less_Suc)
  qed
  then obtain e where e: "?b = Inl e" by (metis sum.exhaust)
  moreover have "itoa 1 = ''1''" by code_simp
  ultimately show ?thesis
    using buildTransactions_spec [where G = sample_geth and txs = "[sample_fixture_tx, ?bad]"] good
    by (auto simp: less_Suc_eq)
qed

text \<open>
  The transaction type follows the fixture's key: a transaction is built only from an entry with
  exactly one key, and its kind is the one that key names.
\<close>

lemma buildTx_kind:
  assumes "buildTx G ft = Inr t"
  shows "\<exists>key raw. ft_Transaction ft = [(key, raw)] \<and>
    key = (case t of NewDynamicFeeTx _ \<Rightarrow> ''Eip1559'' | NewLegacyTx _ \<Rightarrow> ''Legacy''
                   | NewAccessListTx _ \<Rightarrow> ''Eip2930'' | NewBlobTx _ \<Rightarrow> ''Eip4844''
                   | NewSetCodeTx _ \<Rightarrow> ''Eip7702'')"
proof -
  obtain key raw where one: "ft_Transaction ft = [(key, raw)]"
    using assms by (auto simp: buildTx_def split: list.splits prod.splits)
  with assms show ?thesis
    by (auto simp: buildTx_def buildEip1559_def buildLegacy_def buildEip2930_def buildEip4844_def
        buildEip7702_def res_simps split: if_splits)
qed

end
