(* ===== verification/Fork_Schedule.thy ===== *)
theory Fork_Schedule
  imports Fixture_Types
begin

text \<open>
  Which protocol fork a block is executed under: \<open>activeProtocolFork\<close> of
  \<open>fixture/encode_ssz.go\<close> for fixtures, and the genesis configuration of
  \<open>fixture/genesis.go\<close> for the live pipeline. Both answer the same question over a list of
  activation times, which the locale \<open>fork_schedule\<close> states once.
\<close>

section \<open>Fork indices\<close>

definition forkShanghai :: u8 where "forkShanghai = 0x0F"
definition forkCancun :: u8 where "forkCancun = 0x10"
definition forkPrague :: u8 where "forkPrague = 0x11"
definition forkOsaka :: u8 where "forkOsaka = 0x12"
definition forkBPO1 :: u8 where "forkBPO1 = 0x13"
definition forkBPO2 :: u8 where "forkBPO2 = 0x14"
definition forkAmsterdam :: u8 where "forkAmsterdam = 0x15"

lemmas fork_defs =
  forkShanghai_def forkCancun_def forkPrague_def forkOsaka_def forkBPO1_def forkBPO2_def
  forkAmsterdam_def

definition statelessInputSchemaRevision :: u16 where
  "statelessInputSchemaRevision = 0x01"

unbundle bit_operations_syntax

definition schemaIDFor :: "u8 \<Rightarrow> u16" where
  "schemaIDFor fork = (push_bit 8 (ucast fork)) OR statelessInputSchemaRevision"

definition statelessInputSchemaID :: u16 where
  "statelessInputSchemaID = (push_bit 8 (ucast forkAmsterdam)) OR statelessInputSchemaRevision"

section \<open>Fixtures\<close>

fun first_active :: "(u8 \<times> u64 option) list \<Rightarrow> u64 \<Rightarrow> u8 option" where
  "first_active [] ts = None"
| "first_active ((idx, time) # fs) ts =
     (case time of
        None \<Rightarrow> first_active fs ts
      | Some t \<Rightarrow> if t \<le> ts then Some idx else first_active fs ts)"

definition fork_table :: "FixtureChainConfig \<Rightarrow> (u8 \<times> u64 option) list" where
  "fork_table cc =
     [(forkAmsterdam, cc_AmsterdamTime cc),
      (forkBPO2, cc_Bpo2Time cc),
      (forkBPO1, cc_Bpo1Time cc),
      (forkOsaka, cc_OsakaTime cc),
      (forkPrague, cc_PragueTime cc),
      (forkCancun, cc_CancunTime cc),
      (forkShanghai, cc_ShanghaiTime cc)]"

definition activeProtocolFork :: "FixtureChainConfig option \<Rightarrow> u64 \<Rightarrow> u8" where
  "activeProtocolFork cc blockTimestamp =
     (case cc of
        None \<Rightarrow> forkAmsterdam
      | Some c \<Rightarrow>
          (case first_active (fork_table c) blockTimestamp of
             Some idx \<Rightarrow> idx
           | None \<Rightarrow> forkAmsterdam))"

section \<open>Genesis\<close>

record genesisFork =
  gf_enumVal :: u8
  gf_activationTime :: u64

record GenesisChainConfig =
  gc_ChainID :: u64
  gc_activeForks :: "genesisFork list"

definition forkDefs :: "(string \<times> u8) list" where
  "forkDefs =
     [(''cancunTime'', forkCancun),
      (''pragueTime'', forkPrague),
      (''osakaTime'', forkOsaka),
      (''bpo1Time'', forkBPO1),
      (''bpo2Time'', forkBPO2),
      (''amsterdamTime'', forkAmsterdam)]"

text \<open>One round of the loop over \<open>forkDefs\<close>: a missing or non-integer field is skipped.\<close>

fun collect_forks :: "members \<Rightarrow> (string \<times> u8) list \<Rightarrow> genesisFork list" where
  "collect_forks config [] = []"
| "collect_forks config ((timeField, enumVal) # fds) =
     (case map_of config timeField of
        None \<Rightarrow> collect_forks config fds
      | Some raw \<Rightarrow>
          (case unmarshal_uint64 0 raw of
             Inl _ \<Rightarrow> collect_forks config fds
           | Inr t \<Rightarrow>
               \<lparr>gf_enumVal = enumVal, gf_activationTime = t\<rparr> # collect_forks config fds))"

definition genesis_config :: "members \<Rightarrow> GenesisChainConfig" where
  "genesis_config config =
     \<lparr>gc_ChainID =
        (case map_of config ''chainId'' of
           None \<Rightarrow> 0
         | Some raw \<Rightarrow> (case unmarshal_uint64 0 raw of Inl _ \<Rightarrow> 0 | Inr n \<Rightarrow> n)),
      gc_activeForks = collect_forks config forkDefs\<rparr>"

definition ParseGenesisFile ::
  "(string \<Rightarrow> json res) \<Rightarrow> string \<Rightarrow> string res \<Rightarrow> GenesisChainConfig res" where
  "ParseGenesisFile syntax path content =
     res_bind (res_wrap (''genesis: read '' @ path) content) (\<lambda>data.
     res_bind (res_wrap (''genesis: parse '' @ path)
                 (res_bind (syntax data)
                   (unmarshal_struct (field_with unmarshal_raw_map [] ''config'')))) (\<lambda>config.
       let cfg = genesis_config config
       in if gc_activeForks cfg = []
          then Inl (Errorf (''genesis: no supported fork activation times found in '' @ path))
          else Inr cfg))"

definition DefaultMainnetChainConfig :: GenesisChainConfig where
  "DefaultMainnetChainConfig =
     \<lparr>gc_ChainID = 1,
      gc_activeForks =
        [\<lparr>gf_enumVal = forkCancun, gf_activationTime = 1710338135\<rparr>,
         \<lparr>gf_enumVal = forkPrague, gf_activationTime = 1746612311\<rparr>,
         \<lparr>gf_enumVal = forkOsaka, gf_activationTime = 1764798551\<rparr>,
         \<lparr>gf_enumVal = forkBPO1, gf_activationTime = 1765290071\<rparr>,
         \<lparr>gf_enumVal = forkBPO2, gf_activationTime = 1767747671\<rparr>]\<rparr>"

definition ForkCount :: "GenesisChainConfig \<Rightarrow> nat" where
  "ForkCount g = length (gc_activeForks g)"

text \<open>The loop runs from the last entry down to the first.\<close>

fun last_active :: "genesisFork list \<Rightarrow> u64 \<Rightarrow> u8" where
  "last_active [] ts = 0"
| "last_active (f # fs) ts =
     (if gf_activationTime f \<le> ts then gf_enumVal f else last_active fs ts)"

definition ActiveProtocolFork :: "GenesisChainConfig \<Rightarrow> u64 \<Rightarrow> u8" where
  "ActiveProtocolFork g blockTimestamp = last_active (rev (gc_activeForks g)) blockTimestamp"

section \<open>The contract of a fork schedule\<close>

text \<open>
  \<open>active\<close> picks the last fork of an oldest-first schedule whose activation time has passed,
  and \<open>fallback\<close> when none has.
\<close>

definition started :: "u64 \<Rightarrow> (u64 \<times> u8) list \<Rightarrow> (u64 \<times> u8) list" where
  "started ts schedule = filter (\<lambda>(t, f). t \<le> ts) schedule"

lemma started_simps [simp]:
  "started ts [] = []"
  "started ts ((t, f) # fs) = (if t \<le> ts then (t, f) # started ts fs else started ts fs)"
  "started ts (xs @ ys) = started ts xs @ started ts ys"
  by (simp_all add: started_def)

lemma set_started: "(t, f) \<in> set (started ts schedule) \<longleftrightarrow> (t, f) \<in> set schedule \<and> t \<le> ts"
  by (auto simp: started_def)

lemma started_empty: "started ts schedule = [] \<longleftrightarrow> (\<forall>(t, f) \<in> set schedule. ts < t)"
  by (auto simp: started_def filter_empty_conv not_le)

locale fork_schedule =
  fixes active :: "u64 \<Rightarrow> u8"
    and schedule :: "(u64 \<times> u8) list"
    and fallback :: u8
  assumes active_eq:
    "active ts = (if started ts schedule = [] then fallback else snd (last (started ts schedule)))"
begin

lemma active_none: "(\<And>t f. (t, f) \<in> set schedule \<Longrightarrow> ts < t) \<Longrightarrow> active ts = fallback"
  by (auto simp: active_eq started_empty)

lemma active_latest:
  assumes "schedule = xs @ (t, f) # ys" and "t \<le> ts"
    and "\<And>u g. (u, g) \<in> set ys \<Longrightarrow> ts < u"
  shows "active ts = f"
proof -
  have "started ts ys = []" using assms(3) by (auto simp: started_empty)
  with assms(1,2) show ?thesis by (simp add: active_eq)
qed

lemma active_member:
  "active ts = fallback \<or> (\<exists>t. (t, active ts) \<in> set schedule \<and> t \<le> ts)"
proof (cases "started ts schedule = []")
  case True
  then show ?thesis by (simp add: active_eq)
next
  case False
  then have "last (started ts schedule) \<in> set (started ts schedule)" by simp
  with False show ?thesis
    by (cases "last (started ts schedule)") (auto simp: active_eq set_started)
qed

end

text \<open>With forks listed in index order, the active index never goes back as time advances.\<close>

locale ordered_fork_schedule = fork_schedule +
  assumes ordered: "sorted (map snd schedule)"
begin

lemma active_mono:
  assumes "ts \<le> ts'" and "started ts schedule \<noteq> []"
  shows "active ts \<le> active ts'"
proof -
  let ?S = "started ts schedule" and ?S' = "started ts' schedule"
  have "set ?S \<subseteq> set ?S'" using assms(1) by (auto simp: set_started)
  then have mem: "last ?S \<in> set ?S'" using assms(2) last_in_set by blast
  then have ne: "?S' \<noteq> []" by auto
  obtain i where i: "i < length ?S'" "?S' ! i = last ?S"
    using mem by (auto simp: in_set_conv_nth)
  have "sorted (map snd ?S')"
    using ordered unfolding started_def by (rule sorted_filter)
  then have "map snd ?S' ! i \<le> map snd ?S' ! (length ?S' - 1)"
    using i(1) by (intro sorted_nth_mono) auto
  then show ?thesis
    using i ne assms(2) by (simp add: active_eq last_conv_nth)
qed

end

section \<open>Both selectors meet the contract\<close>

fun known_times :: "(u8 \<times> u64 option) list \<Rightarrow> (u64 \<times> u8) list" where
  "known_times [] = []"
| "known_times ((f, None) # fs) = known_times fs"
| "known_times ((f, Some t) # fs) = (t, f) # known_times fs"

lemma known_times_append [simp]: "known_times (xs @ ys) = known_times xs @ known_times ys"
  by (induction xs rule: known_times.induct) auto

lemma first_active_started:
  "first_active fs ts =
     (let xs = started ts (known_times (rev fs))
      in if xs = [] then None else Some (snd (last xs)))"
  by (induction fs ts rule: first_active.induct) (auto simp: Let_def split: option.splits)

lemma set_known_times: "set (map snd (known_times fs)) \<subseteq> set (map fst fs)"
  by (induction fs rule: known_times.induct) auto

lemma sorted_known_times: "sorted (map fst fs) \<Longrightarrow> sorted (map snd (known_times fs))"
proof (induction fs rule: known_times.induct)
  case (3 f t fs)
  from "3.prems" have "\<forall>x \<in> set (map fst fs). f \<le> x" by simp
  then have "\<forall>x \<in> set (map snd (known_times fs)). f \<le> x"
    using set_known_times by blast
  with 3 show ?case by simp
qed auto

interpretation fixture_forks: ordered_fork_schedule
  "activeProtocolFork (Some cc)" "known_times (rev (fork_table cc))" forkAmsterdam for cc
proof unfold_locales
  show "activeProtocolFork (Some cc) ts =
      (if started ts (known_times (rev (fork_table cc))) = [] then forkAmsterdam
       else snd (last (started ts (known_times (rev (fork_table cc))))))" for ts
    by (simp add: activeProtocolFork_def first_active_started Let_def)
  show "sorted (map snd (known_times (rev (fork_table cc))))"
    by (rule sorted_known_times) (simp add: fork_table_def fork_defs)
qed

definition genesis_schedule :: "GenesisChainConfig \<Rightarrow> (u64 \<times> u8) list" where
  "genesis_schedule g = map (\<lambda>f. (gf_activationTime f, gf_enumVal f)) (gc_activeForks g)"

lemma last_active_started:
  "last_active fs ts =
     (let xs = started ts (map (\<lambda>f. (gf_activationTime f, gf_enumVal f)) (rev fs))
      in if xs = [] then 0 else snd (last xs))"
  by (induction fs ts rule: last_active.induct) (auto simp: Let_def)

interpretation genesis_forks: fork_schedule "ActiveProtocolFork g" "genesis_schedule g" 0 for g
  by unfold_locales (simp add: ActiveProtocolFork_def genesis_schedule_def last_active_started Let_def)

interpretation mainnet_forks: ordered_fork_schedule
  "ActiveProtocolFork DefaultMainnetChainConfig" "genesis_schedule DefaultMainnetChainConfig" 0
  by unfold_locales (simp add: genesis_schedule_def DefaultMainnetChainConfig_def fork_defs)

lemma collect_forks_subset:
  "set (map gf_enumVal (collect_forks config fds)) \<subseteq> set (map snd fds)"
proof (induction fds)
  case Nil
  then show ?case by simp
next
  case (Cons fd fds)
  then show ?case by (cases fd) (auto split: option.splits sum.splits)
qed

lemma collect_forks_sorted:
  "sorted (map snd fds) \<Longrightarrow> sorted (map gf_enumVal (collect_forks config fds))"
proof (induction fds)
  case Nil
  then show ?case by simp
next
  case (Cons fd fds)
  obtain timeField enumVal where fd: "fd = (timeField, enumVal)" by fastforce
  from Cons.prems have "\<forall>x \<in> set (map snd fds). enumVal \<le> x" by (simp add: fd)
  then have "\<forall>x \<in> set (map gf_enumVal (collect_forks config fds)). enumVal \<le> x"
    using collect_forks_subset by blast
  with Cons show ?case by (auto simp: fd split: option.splits sum.splits)
qed

lemma genesis_config_ordered:
  "sorted (map snd (genesis_schedule (genesis_config config)))"
  using collect_forks_sorted [of forkDefs config]
  by (simp add: genesis_schedule_def genesis_config_def forkDefs_def fork_defs o_def)

interpretation parsed_forks: ordered_fork_schedule
  "ActiveProtocolFork (genesis_config config)" "genesis_schedule (genesis_config config)" 0
  for config
  by unfold_locales (rule genesis_config_ordered)

section \<open>The same times, in a genesis file and in a fixture\<close>

definition time_field :: "members \<Rightarrow> string \<Rightarrow> u64 option \<Rightarrow> bool" where
  "time_field config name t \<longleftrightarrow> map_of config name = map_option (\<lambda>w. JNum (itoa (unat w))) t"

definition times_agree :: "members \<Rightarrow> FixtureChainConfig \<Rightarrow> bool" where
  "times_agree config cc \<longleftrightarrow>
     time_field config ''cancunTime'' (cc_CancunTime cc) \<and>
     time_field config ''pragueTime'' (cc_PragueTime cc) \<and>
     time_field config ''osakaTime'' (cc_OsakaTime cc) \<and>
     time_field config ''bpo1Time'' (cc_Bpo1Time cc) \<and>
     time_field config ''bpo2Time'' (cc_Bpo2Time cc) \<and>
     time_field config ''amsterdamTime'' (cc_AmsterdamTime cc)"

lemma collect_forks_times:
  "list_all2 (\<lambda>(name, v) (v', t). v = v' \<and> time_field config name t) fds table \<Longrightarrow>
     map (\<lambda>f. (gf_activationTime f, gf_enumVal f)) (collect_forks config fds) = known_times table"
proof (induction rule: list_all2_induct)
  case (Cons fd fds e table)
  obtain name v t where "fd = (name, v)" "e = (v, t)" "time_field config name t"
    using Cons(1) by (cases fd; cases e) auto
  with Cons(3) show ?case
    by (cases t) (simp_all add: time_field_def unmarshal_uint64_format del: unmarshal_uint64.simps)
qed simp

lemma schedules_agree:
  assumes "times_agree config cc"
  shows "known_times (rev (fork_table cc)) =
    (case cc_ShanghaiTime cc of None \<Rightarrow> [] | Some t \<Rightarrow> [(t, forkShanghai)]) @ genesis_schedule (genesis_config config)"
proof -
  have "list_all2 (\<lambda>(name, v) (v', t). v = v' \<and> time_field config name t)
      forkDefs (tl (rev (fork_table cc)))"
    using assms by (simp add: times_agree_def forkDefs_def fork_table_def)
  from collect_forks_times [OF this]
  have times: "genesis_schedule (genesis_config config) = known_times (tl (rev (fork_table cc)))"
    by (simp only: genesis_schedule_def genesis_config_def GenesisChainConfig.simps)
  have "rev (fork_table cc) = [(forkShanghai, cc_ShanghaiTime cc)] @ tl (rev (fork_table cc))"
    by (simp add: fork_table_def)
  from arg_cong [OF this, of known_times] have "known_times (rev (fork_table cc)) =
      known_times [(forkShanghai, cc_ShanghaiTime cc)] @ genesis_schedule (genesis_config config)"
    unfolding known_times_append times .
  then show ?thesis by (cases "cc_ShanghaiTime cc") (simp_all only: known_times.simps option.case)
qed

lemma genesis_fork_started:
  "ActiveProtocolFork (genesis_config config) ts = 0 \<longleftrightarrow>
     started ts (genesis_schedule (genesis_config config)) = []"
proof -
  let ?S = "started ts (genesis_schedule (genesis_config config))"
  have "set (map snd (genesis_schedule (genesis_config config))) \<subseteq> set (map snd forkDefs)"
    using collect_forks_subset [of config forkDefs]
    by (simp add: genesis_schedule_def genesis_config_def image_image)
  moreover have "0 \<notin> set (map snd forkDefs)" by (simp add: forkDefs_def fork_defs)
  ultimately have "0 \<notin> snd ` set ?S" by (auto simp: started_def)
  then have "?S \<noteq> [] \<Longrightarrow> snd (last ?S) \<noteq> 0" by (metis imageI last_in_set)
  then show ?thesis by (auto simp: genesis_forks.active_eq)
qed

section \<open>Properties\<close>

text \<open>
  C38: how the two fork selectors compare. Take a genesis file and a fixture chain config with the same times for
  Cancun to Amsterdam. Where the genesis selector, which the live path uses, finds a fork, the
  fixture selector finds the same one. Where it finds none and answers 0, the fixture selector answers
  Shanghai if its Shanghai time, which a genesis configuration does not read, has passed, and otherwise
  Amsterdam, its default.
\<close>

theorem fork_selection_agrees:
  assumes "times_agree config cc"
  shows "activeProtocolFork (Some cc) ts =
    (let f = ActiveProtocolFork (genesis_config config) ts
     in if f \<noteq> 0 then f
        else case cc_ShanghaiTime cc of
               Some t \<Rightarrow> if t \<le> ts then forkShanghai else forkAmsterdam
             | None \<Rightarrow> forkAmsterdam)"
  using genesis_fork_started [of config ts]
  by (simp add: Let_def fixture_forks.active_eq genesis_forks.active_eq schedules_agree [OF assms] split: option.split)

definition sample_chain :: FixtureChainConfig where
  "sample_chain =
     \<lparr>cc_ChainID = 1, cc_ShanghaiTime = None, cc_CancunTime = Some 10, cc_PragueTime = Some 20,
      cc_OsakaTime = None, cc_Bpo1Time = None, cc_Bpo2Time = None, cc_AmsterdamTime = Some 30\<rparr>"

theorem fork_selection_agrees_witness:
  "let config = [(''cancunTime'', JNum ''10''), (''pragueTime'', JNum ''20''), (''amsterdamTime'', JNum ''30'')];
       cc = sample_chain\<lparr>cc_ShanghaiTime := Some 5\<rparr>
   in activeProtocolFork (Some cc) 25 = ActiveProtocolFork (genesis_config config) 25 \<and>
      ActiveProtocolFork (genesis_config config) 25 = forkPrague \<and>
      ActiveProtocolFork (genesis_config config) 7 = 0 \<and> activeProtocolFork (Some cc) 7 = forkShanghai"
proof -
  let ?config = "[(''cancunTime'', JNum ''10''), (''pragueTime'', JNum ''20''), (''amsterdamTime'', JNum ''30'')]"
  let ?cc = "sample_chain\<lparr>cc_ShanghaiTime := Some 5\<rparr>"
  have nums: "itoa 10 = ''10''" "itoa 20 = ''20''" "itoa 30 = ''30''" by code_simp+
  have agree: "times_agree ?config ?cc"
    by (simp add: times_agree_def time_field_def sample_chain_def nums)
  have genesis: "ActiveProtocolFork (genesis_config ?config) 25 = forkPrague" "ActiveProtocolFork (genesis_config ?config) 7 = 0"
    by code_simp+
  have "forkPrague \<noteq> 0" by (simp add: fork_defs)
  with fork_selection_agrees [OF agree, of 25] fork_selection_agrees [OF agree, of 7] genesis
  show ?thesis by (simp add: Let_def)
qed

text \<open>
  Forks never go back. Under any genesis file, in whatever order its times are, the fork selected
  for a later block timestamp is not an earlier fork.
\<close>

lemma genesis_fork_monotone:
  assumes "ts \<le> ts'"
  shows "ActiveProtocolFork (genesis_config config) ts \<le> ActiveProtocolFork (genesis_config config) ts'"
proof (cases "started ts (genesis_schedule (genesis_config config)) = []")
  case True
  then have "ActiveProtocolFork (genesis_config config) ts = 0" by (simp add: genesis_fork_started)
  then show ?thesis by simp
next
  case False
  with assms show ?thesis by (rule parsed_forks.active_mono)
qed

lemma genesis_fork_monotone_example:
  "ActiveProtocolFork (genesis_config [(''cancunTime'', JNum ''20''), (''pragueTime'', JNum ''10'')]) 15
     \<le> ActiveProtocolFork (genesis_config [(''cancunTime'', JNum ''20''), (''pragueTime'', JNum ''10'')]) 25"
  by (rule genesis_fork_monotone) simp

text \<open>
  A \<open>null\<close> activation time counts as time 0. A genesis file with \<open>"amsterdamTime": null\<close> makes
  Amsterdam the active fork of every block, although the code means to skip a field that is not a
  plain number.
\<close>

lemma genesis_null_time_is_zero:
  assumes "map_of config ''amsterdamTime'' = Some JNull"
  shows "ActiveProtocolFork (genesis_config config) ts = forkAmsterdam"
proof -
  obtain xs where "genesis_schedule (genesis_config config) = xs @ (0, forkAmsterdam) # []"
  proof -
    have split: "collect_forks config (xs @ ys) = collect_forks config xs @ collect_forks config ys" for xs ys
      by (induction xs) (auto split: option.splits sum.splits)
    have "forkDefs = butlast forkDefs @ [(''amsterdamTime'', forkAmsterdam)]"
      by (simp add: forkDefs_def)
    then have "collect_forks config forkDefs =
        collect_forks config (butlast forkDefs) @ [\<lparr>gf_enumVal = forkAmsterdam, gf_activationTime = 0\<rparr>]"
      using split [of "butlast forkDefs" "[(''amsterdamTime'', forkAmsterdam)]"] assms by simp
    then show thesis
      using that by (simp add: genesis_schedule_def genesis_config_def)
  qed
  then show ?thesis by (rule genesis_forks.active_latest) simp_all
qed

lemma genesis_null_time_is_zero_example:
  "ActiveProtocolFork (genesis_config [(''cancunTime'', JNum ''20''), (''amsterdamTime'', JNull)]) 5 =
     forkAmsterdam"
  by (rule genesis_null_time_is_zero) simp

end
