(* ===== verification/Ssz_Encode.thy ===== *)
theory Ssz_Encode
  imports Tx_Build Fork_Schedule
begin

text \<open>
  The encoders of \<open>fixture/encode_ssz.go\<close> (fixture path) and \<open>fixture/encode_ssz_live.go\<close>
  (live path), field by field, with the \<open>uint32\<close> offset arithmetic at its width, and the
  zisk file framing. A \<open>bytes.Buffer\<close> is the list of bytes written to it so far.
\<close>

section \<open>Primitive helpers\<close>

definition writeU32LE :: "u32 \<Rightarrow> bytes" where
  "writeU32LE v = le_bytes 4 (unat v)"

definition writeU64LE :: "u64 \<Rightarrow> bytes" where
  "writeU64LE v = le_bytes 8 (unat v)"

definition hash_bytes :: "hash \<Rightarrow> bytes" where
  "hash_bytes h = be_bytes 32 (unat h)"

definition address_bytes :: "address \<Rightarrow> bytes" where
  "address_bytes a = be_bytes 20 (unat a)"

definition bloom_bytes :: "bloom \<Rightarrow> bytes" where
  "bloom_bytes b = be_bytes 256 (unat b)"

definition writeAddress :: "geth \<Rightarrow> string \<Rightarrow> bytes" where
  "writeAddress G hex = address_bytes (HexToAddress G hex)"

definition writeBloom :: "string \<Rightarrow> bytes" where
  "writeBloom hex = bloom_bytes (hexToBloom hex)"

text \<open>\<open>(*big.Int).Bytes\<close>: the absolute value, big-endian, without leading zeros.\<close>

fun min_le_bytes :: "nat \<Rightarrow> bytes" where
  "min_le_bytes n = (if n = 0 then [] else of_nat n # min_le_bytes (n div 256))"

declare min_le_bytes.simps [simp del]

definition big_Bytes :: "int \<Rightarrow> bytes" where
  "big_Bytes n = rev (min_le_bytes (nat \<bar>n\<bar>))"

text \<open>
  The reversing loop writes \<open>b[len(nb)-1-i]\<close>; for a number of more than 32 bytes its first
  store is out of range, which panics.
\<close>

fun reverse_into :: "nat \<Rightarrow> nat \<Rightarrow> bytes \<Rightarrow> bytes \<Rightarrow> bytes res" where
  "reverse_into len i [] b = Inr b"
| "reverse_into len i (byt # nb) b =
     (if len - 1 - i < length b then reverse_into len (Suc i) nb (b[len - 1 - i := byt])
      else Inl (Panic ''index out of range''))"

definition sszUint256 :: "int option \<Rightarrow> bytes res" where
  "sszUint256 n =
     (case n of
        None \<Rightarrow> Inr (replicate 32 0)
      | Some i \<Rightarrow>
          if 0 < i then reverse_into (length (big_Bytes i)) 0 (big_Bytes i) (replicate 32 0)
          else Inr (replicate 32 0))"

section \<open>Lists\<close>

fun byte_list_loop :: "u32 \<Rightarrow> bytes \<Rightarrow> bytes \<Rightarrow> bytes list \<Rightarrow> bytes" where
  "byte_list_loop off offsets data [] = offsets @ data"
| "byte_list_loop off offsets data (item # items) =
     byte_list_loop (off + of_nat (length item)) (offsets @ writeU32LE off) (data @ item) items"

definition encodeSszByteListList :: "bytes list \<Rightarrow> bytes" where
  "encodeSszByteListList items =
     (if length items = 0 then []
      else byte_list_loop (of_nat (4 * length items)) [] [] items)"

definition encodeSszWithdrawal :: "Withdrawal \<Rightarrow> bytes" where
  "encodeSszWithdrawal w =
     writeU64LE (wd_Index w) @ writeU64LE (wd_Validator w) @ address_bytes (wd_Address w) @
     writeU64LE (wd_Amount w)"

definition encodeSszWithdrawalList :: "Withdrawal list \<Rightarrow> bytes" where
  "encodeSszWithdrawalList wds = concat (map encodeSszWithdrawal wds)"

definition encodeSszVersionedHashes :: "geth \<Rightarrow> Transaction list \<Rightarrow> bytes" where
  "encodeSszVersionedHashes G txs =
     concat (map (\<lambda>tx. if tx_Type G tx = BlobTxType G
                       then concat (map hash_bytes (tx_BlobHashes G tx)) else []) txs)"

section \<open>Execution requests\<close>

definition executionRequestTypes :: nat where
  "executionRequestTypes = 5"

text \<open>The loop over the requests: \<open>prev\<close> (\<open>last\<close> in the source) starts at -1 and
  \<open>reqs\<close> (\<open>lists\<close>) as five nil slices.\<close>

fun requests_loop :: "int \<Rightarrow> bytes list \<Rightarrow> bytes list \<Rightarrow> bytes list res" where
  "requests_loop prev reqs [] = Inr reqs"
| "requests_loop prev reqs (r # rs) =
     (if length r < 2 then
        Inl (Errorf (''execution request of '' @ itoa (length r) @ '' bytes''))
      else if executionRequestTypes \<le> unat (hd r) \<or> int (unat (hd r)) \<le> prev then
        Inl (Errorf (''execution request type 0x'' @ lower_hex2 (unat (hd r)) @
                     '' out of range or order''))
      else requests_loop (int (unat (hd r))) (reqs[unat (hd r) := tl r]) rs)"

fun request_offsets :: "nat \<Rightarrow> bytes list \<Rightarrow> bytes" where
  "request_offsets off [] = []"
| "request_offsets off (l # ls) = writeU32LE (of_nat off) @ request_offsets (off + length l) ls"

definition encode_request_lists :: "bytes list \<Rightarrow> bytes" where
  "encode_request_lists reqs =
     request_offsets (4 * executionRequestTypes) reqs @ concat reqs"

definition encodeSszExecutionRequests :: "bytes list \<Rightarrow> bytes res" where
  "encodeSszExecutionRequests requests =
     res_bind (requests_loop (-1) (replicate executionRequestTypes []) requests) (\<lambda>reqs.
       Inr (encode_request_lists reqs))"

section \<open>The witness\<close>

definition encodeExecutionWitnessFromArrays :: "bytes list \<Rightarrow> bytes list \<Rightarrow> bytes list \<Rightarrow> bytes" where
  "encodeExecutionWitnessFromArrays state codes headers =
     (let stateSSZ = encodeSszByteListList state;
          codesSSZ = encodeSszByteListList codes;
          headersSSZ = encodeSszByteListList headers;
          fix = writeU32LE (of_nat 12) @
                writeU32LE (of_nat (12 + length stateSSZ)) @
                writeU32LE (of_nat (12 + length stateSSZ + length codesSSZ))
      in fix @ stateSSZ @ codesSSZ @ headersSSZ)"

definition encodeSszExecutionWitness :: "WitnessData \<Rightarrow> bytes res" where
  "encodeSszExecutionWitness w =
     res_bind (decodeHexArray (wt_State w)) (\<lambda>state.
     res_bind (decodeHexArray (wt_Codes w)) (\<lambda>codes.
     res_bind (decodeHexArray (wt_Headers w)) (\<lambda>headers.
       let stateSSZ = encodeSszByteListList state;
           codesSSZ = encodeSszByteListList codes;
           headersSSZ = encodeSszByteListList headers;
           fix = writeU32LE (of_nat 12) @
                 writeU32LE (of_nat (12 + length stateSSZ)) @
                 writeU32LE (of_nat (12 + length stateSSZ + length codesSSZ))
       in Inr (fix @ stateSSZ @ codesSSZ @ headersSSZ))))"

section \<open>The execution payload\<close>

definition marshal_all :: "geth \<Rightarrow> Transaction list \<Rightarrow> bytes list res" where
  "marshal_all G txs = res_mapi 0 (\<lambda>_. tx_MarshalBinary G) txs"

definition or_zero :: "u64 option \<Rightarrow> u64" where
  "or_zero v = (case v of None \<Rightarrow> 0 | Some x \<Rightarrow> x)"

definition encodeSszExecutionPayload ::
  "geth \<Rightarrow> FixtureFile \<Rightarrow> Transaction list \<Rightarrow> Withdrawal list \<Rightarrow> bytes res" where
  "encodeSszExecutionPayload G f txs withdrawals =
     (let h = bk_Header (si_Block (ff_StatelessInput f))
      in res_bind (fixtureHeader G f) (\<lambda>header.
         let blockHash = Header_Hash G header;
             extraData = mustHexToBytes (fh_ExtraData h)
         in res_bind (marshal_all G txs) (\<lambda>rawTxs.
            let txsSSZ = encodeSszByteListList rawTxs;
                wdsSSZ = encodeSszWithdrawalList withdrawals
            in res_bind (rawJSONToBigInt (fh_BaseFeePerGas h)) (\<lambda>baseFee.
               let balBytes = (case fb_BlockAccessList (bk_Body (si_Block (ff_StatelessInput f))) of
                                 None \<Rightarrow> [] | Some s \<Rightarrow> mustHexToBytes s);
                   extraDataOff = (540 :: u32);
                   txsOff = extraDataOff + of_nat (length extraData);
                   wdsOff = txsOff + of_nat (length txsSSZ);
                   balOff = wdsOff + of_nat (length wdsSSZ)
               in res_bind (sszUint256 (Some baseFee)) (\<lambda>fee.
                  let fix = mustHexToBytes (fh_ParentHash h) @
                            writeAddress G (fh_Beneficiary h) @
                            mustHexToBytes (fh_StateRoot h) @
                            mustHexToBytes (fh_ReceiptsRoot h) @
                            writeBloom (fh_LogsBloom h) @
                            mustHexToBytes (fh_MixHash h) @
                            writeU64LE (fh_Number h) @
                            writeU64LE (fh_GasLimit h) @
                            writeU64LE (fh_GasUsed h) @
                            writeU64LE (fh_Timestamp h) @
                            writeU32LE extraDataOff @
                            fee @
                            hash_bytes blockHash @
                            writeU32LE txsOff @
                            writeU32LE wdsOff @
                            writeU64LE (or_zero (fh_BlobGasUsed h)) @
                            writeU64LE (or_zero (fh_ExcessBlobGas h)) @
                            writeU32LE balOff @
                            writeU64LE (or_zero (fh_SlotNumber h))
                  in Inr (fix @ extraData @ txsSSZ @ wdsSSZ @ balBytes))))))"

definition encodeExecutionPayloadFromBlock :: "geth \<Rightarrow> Block \<Rightarrow> bytes \<Rightarrow> bytes res" where
  "encodeExecutionPayloadFromBlock G block balBytes =
     (let h = b_Header block; extraData = h_Extra h
      in res_bind (marshal_all G (b_Transactions block)) (\<lambda>rawTxs.
         let txsSSZ = encodeSszByteListList rawTxs;
             wdsSSZ = encodeSszWithdrawalList (b_Withdrawals block);
             baseFee = (case h_BaseFee h of None \<Rightarrow> 0 | Some n \<Rightarrow> n);
             extraDataOff = (540 :: u32);
             txsOff = extraDataOff + of_nat (length extraData);
             wdsOff = txsOff + of_nat (length txsSSZ);
             balOff = wdsOff + of_nat (length wdsSSZ);
             blockHash = Block_Hash G block
         in res_bind (sszUint256 (Some baseFee)) (\<lambda>fee.
            let fix = hash_bytes (h_ParentHash h) @
                      address_bytes (h_Coinbase h) @
                      hash_bytes (h_Root h) @
                      hash_bytes (h_ReceiptHash h) @
                      bloom_bytes (h_Bloom h) @
                      hash_bytes (h_MixDigest h) @
                      writeU64LE (big_Uint64 (h_Number h)) @
                      writeU64LE (h_GasLimit h) @
                      writeU64LE (h_GasUsed h) @
                      writeU64LE (h_Time h) @
                      writeU32LE extraDataOff @
                      fee @
                      hash_bytes blockHash @
                      writeU32LE txsOff @
                      writeU32LE wdsOff @
                      writeU64LE (or_zero (h_BlobGasUsed h)) @
                      writeU64LE (or_zero (h_ExcessBlobGas h)) @
                      writeU32LE balOff @
                      writeU64LE (or_zero (h_SlotNumber h))
            in Inr (fix @ extraData @ txsSSZ @ wdsSSZ @ balBytes))))"

section \<open>The payload request\<close>

definition encodeSszNewPayloadRequest ::
  "geth \<Rightarrow> FixtureFile \<Rightarrow> Transaction list \<Rightarrow> Withdrawal list \<Rightarrow> hash \<Rightarrow> bytes res" where
  "encodeSszNewPayloadRequest G f txs withdrawals parentBeaconRoot =
     res_bind (encodeSszExecutionPayload G f txs withdrawals) (\<lambda>ep.
     let vh = encodeSszVersionedHashes G txs
     in res_bind (encodeSszExecutionRequests []) (\<lambda>er.
        let fix = writeU32LE (of_nat 44) @
                  writeU32LE (of_nat (44 + length ep)) @
                  hash_bytes parentBeaconRoot @
                  writeU32LE (of_nat (44 + length ep + length vh))
        in Inr (fix @ ep @ vh @ er)))"

definition encodeNewPayloadRequestFromBlock ::
  "geth \<Rightarrow> Block \<Rightarrow> hash \<Rightarrow> bytes \<Rightarrow> bytes list \<Rightarrow> bytes res" where
  "encodeNewPayloadRequestFromBlock G block parentBeaconRoot balBytes requests =
     res_bind (encodeExecutionPayloadFromBlock G block balBytes) (\<lambda>ep.
     let vh = encodeSszVersionedHashes G (b_Transactions block)
     in res_bind (encodeSszExecutionRequests requests) (\<lambda>er.
        let fix = writeU32LE (of_nat 44) @
                  writeU32LE (of_nat (44 + length ep)) @
                  hash_bytes parentBeaconRoot @
                  writeU32LE (of_nat (44 + length ep + length vh))
        in Inr (fix @ ep @ vh @ er)))"

section \<open>The stateless input\<close>

definition encodeStatelessInputContainer :: "bytes \<Rightarrow> bytes \<Rightarrow> u64 \<Rightarrow> u16 \<Rightarrow> bytes" where
  "encodeStatelessInputContainer npr wit chainID schemaID =
     (let offNPR = (16 :: u32); offWitness = offNPR + of_nat (length npr)
      in be_bytes 2 (unat schemaID) @ writeU32LE offNPR @ writeU32LE offWitness @
         writeU64LE chainID @ npr @ wit)"

definition encodeSszStatelessInput ::
  "geth \<Rightarrow> FixtureFile \<Rightarrow> Transaction list \<Rightarrow> Withdrawal list \<Rightarrow> hash \<Rightarrow> bytes res" where
  "encodeSszStatelessInput G f txs withdrawals parentBeaconRoot =
     res_bind (encodeSszNewPayloadRequest G f txs withdrawals parentBeaconRoot) (\<lambda>npr.
     res_bind (encodeSszExecutionWitness (si_Witness (ff_StatelessInput f))) (\<lambda>wit.
       let cc = si_ChainConfig (ff_StatelessInput f);
           chainID = (case cc of None \<Rightarrow> 1 | Some c \<Rightarrow> if cc_ChainID c \<noteq> 0 then cc_ChainID c else 1);
           fork = activeProtocolFork cc (fh_Timestamp (bk_Header (si_Block (ff_StatelessInput f))))
       in Inr (encodeStatelessInputContainer npr wit chainID (schemaIDFor fork))))"

definition ZesuInputSSZPlain :: "geth \<Rightarrow> FixtureFile \<Rightarrow> bytes res" where
  "ZesuInputSSZPlain G f =
     (let blk = si_Block (ff_StatelessInput f)
      in res_bind (buildTransactions G (fb_Transactions (bk_Body blk))) (\<lambda>txs.
         res_bind (buildWithdrawals G (fb_Withdrawals (bk_Body blk))) (\<lambda>withdrawals.
         let parentBeaconRoot = (case fh_ParentBeaconBlockRoot (bk_Header blk) of
                                   None \<Rightarrow> 0 | Some s \<Rightarrow> HexToHash G s)
         in encodeSszStatelessInput G f txs withdrawals parentBeaconRoot)))"

definition encodeStatelessInputFromBlock ::
  "geth \<Rightarrow> Block \<Rightarrow> bytes list \<Rightarrow> bytes list \<Rightarrow> bytes list \<Rightarrow> hash \<Rightarrow> bytes \<Rightarrow> bytes list \<Rightarrow>
   u64 \<Rightarrow> u8 \<Rightarrow> bytes res" where
  "encodeStatelessInputFromBlock G block state codes headers parentBeaconRoot balBytes requests
     chainID fork =
     res_bind (encodeNewPayloadRequestFromBlock G block parentBeaconRoot balBytes requests) (\<lambda>npr.
       let wit = encodeExecutionWitnessFromArrays state codes headers;
           cid = (if chainID = 0 then 1 else chainID);
           fk = (if fork = 0 then forkAmsterdam else fork)
       in Inr (encodeStatelessInputContainer npr wit cid (schemaIDFor fk)))"

definition ZesuInputSSZFromBlock ::
  "geth \<Rightarrow> Block \<Rightarrow> bytes list \<Rightarrow> bytes list \<Rightarrow> bytes list \<Rightarrow> bytes \<Rightarrow> bytes list \<Rightarrow>
   u64 \<Rightarrow> u8 \<Rightarrow> bytes res" where
  "ZesuInputSSZFromBlock G block state codes headers balBytes requests chainID fork =
     (let parentBeaconRoot = (case h_ParentBeaconRoot (b_Header block) of None \<Rightarrow> 0 | Some r \<Rightarrow> r)
      in encodeStatelessInputFromBlock G block state codes headers parentBeaconRoot balBytes
           requests chainID fork)"

section \<open>Framing\<close>

text \<open>\<open>copy(dst[off:], src)\<close>, for an offset inside \<open>dst\<close>.\<close>

definition go_copy :: "bytes \<Rightarrow> nat \<Rightarrow> bytes \<Rightarrow> bytes" where
  "go_copy dst off src =
     take off dst @ take (length dst - off) src @ drop (off + length src) dst"

text \<open>\<open>8+(len(ssz)+7)&^7\<close>: in Go \<open>&^\<close> binds tighter than \<open>+\<close>.\<close>

definition ZkvmFrame :: "bytes \<Rightarrow> bytes" where
  "ZkvmFrame ssz =
     (let out = replicate (8 + ((length ssz + 7) - (length ssz + 7) mod 8)) 0
      in go_copy (go_copy out 0 (le_bytes 8 (length ssz))) 8 ssz)"

definition ZesuInputSSZ :: "geth \<Rightarrow> FixtureFile \<Rightarrow> bytes res" where
  "ZesuInputSSZ G f = res_bind (ZesuInputSSZPlain G f) (\<lambda>payload. Inr (ZkvmFrame payload))"

end
