(* ===== verification/Ssz_Correct.thy ===== *)
theory Ssz_Correct
  imports Ssz_Spec Ssz_Encode
begin

text \<open>
  Correctness of the SSZ encoders: the offset tables they emit, the round trip of every
  section through the reference decoder, the agreement of the fixture path with the live
  path, and the file framing. The sizes below \<open>2 ^ 32\<close> that theorems assume are those for
  which the \<open>uint32\<close> offsets of the source do not wrap around.
\<close>

section \<open>Offsets\<close>

lemma le_bytes_mod: "le_bytes n (k mod 256 ^ n) = le_bytes n k"
proof (induction n arbitrary: k)
  case 0
  then show ?case by simp
next
  case (Suc n)
  have "of_nat (k mod (256 * 256 ^ n)) = (of_nat k :: byte)"
    by (metis (no_types, lifting) le_bytes.simps(2) le_bytes_le_nat le_nat_le_bytes length_le_bytes
        list.inject power_Suc)
  moreover have "k mod (256 * 256 ^ n) div 256 = k div 256 mod 256 ^ n"
    by (simp add: mod_mult2_eq)
  ultimately show ?case using Suc.IH [of "k div 256"] by simp
qed

lemma writeU32LE_of_nat: "writeU32LE (of_nat k) = le_bytes 4 k"
  using le_bytes_mod [of 4 k] by (simp add: writeU32LE_def unat_of_nat)

lemma length_write [simp, layout_simps]:
  "length (writeU32LE v) = 4" "length (writeU64LE w) = 8" "length (hash_bytes h) = 32"
  "length (address_bytes a) = 20" "length (bloom_bytes b) = 256"
  by (simp_all add: writeU32LE_def writeU64LE_def hash_bytes_def address_bytes_def bloom_bytes_def)

lemma le_nat_offset: "k < 2 ^ 32 \<Longrightarrow> le_nat (le_bytes 4 k) = k"
  by (simp add: le_nat_le_bytes)

definition offset_table :: "nat \<Rightarrow> bytes list \<Rightarrow> bytes" where
  "offset_table off ps = concat (map (le_bytes 4) (running off ps))"

lemma offset_table_simps [simp]:
  "offset_table off [] = []"
  "offset_table off (p # ps) = le_bytes 4 off @ offset_table (off + length p) ps"
  by (simp_all add: offset_table_def)

lemma length_offset_table [simp, layout_simps]: "length (offset_table off ps) = 4 * length ps"
  by (induction ps arbitrary: off) simp_all

lemma offsets_offset_table:
  "off + length (concat ps) < 2 ^ 32 \<Longrightarrow> n = length ps \<Longrightarrow>
   offsets n (offset_table off ps @ rest) = running off ps"
  unfolding offset_table_def
  by (rule offsets_table) (auto dest!: running_bound simp del: length_concat)

section \<open>Lists of byte lists\<close>

lemma byte_list_loop_eq:
  "byte_list_loop (of_nat off) offs data its =
     offs @ offset_table off its @ data @ concat its"
proof (induction its arbitrary: off offs data)
  case Nil
  then show ?case by simp
next
  case (Cons it its)
  have "(of_nat off :: u32) + of_nat (length it) = of_nat (off + length it)" by simp
  then show ?case
    using Cons.IH [of "off + length it"] by (simp add: writeU32LE_of_nat del: of_nat_add)
qed

lemma encodeSszByteListList_eq:
  "encodeSszByteListList its = offset_table (4 * length its) its @ concat its"
  using byte_list_loop_eq [of "4 * length its" "[]" "[]" its]
  by (simp add: encodeSszByteListList_def del: of_nat_mult)

lemma length_encodeSszByteListList:
  "length (encodeSszByteListList its) = 4 * length its + length (concat its)"
  by (simp add: encodeSszByteListList_eq del: length_concat)

interpretation byte_lists: section_codec
  "\<lambda>its. length (encodeSszByteListList its) < 2 ^ 32" encodeSszByteListList decode_byte_lists
proof unfold_locales
  fix its :: "bytes list"
  assume small: "length (encodeSszByteListList its) < 2 ^ 32"
  show "decode_byte_lists (encodeSszByteListList its) = Some its"
  proof (cases its)
    case Nil
    then show ?thesis by (simp add: decode_byte_lists_def encodeSszByteListList_def)
  next
    case (Cons it rest)
    let ?n = "length its"
    have enc: "encodeSszByteListList its = offset_table (4 * ?n) its @ concat its"
      by (rule encodeSszByteListList_eq)
    have bound: "4 * ?n + length (concat its) < 2 ^ 32"
      using small by (simp add: length_encodeSszByteListList del: length_concat)
    then have "le_nat (le_bytes 4 (4 * ?n)) = 4 * ?n"
      by (intro le_nat_offset) linarith
    then have first: "le_nat (take 4 (encodeSszByteListList its)) = 4 * ?n"
      unfolding enc by (simp add: Cons)
    have "offsets ?n (encodeSszByteListList its) = running (4 * ?n) its"
      unfolding enc using bound by (rule offsets_offset_table) simp
    then have "cut_at (offsets ?n (encodeSszByteListList its)) (encodeSszByteListList its) = Some its"
      unfolding enc by (intro cut_at_parts) simp_all
    moreover have "encodeSszByteListList its \<noteq> []"
      using length_encodeSszByteListList [of its] Cons by auto
    ultimately show ?thesis
      using first Cons by (simp add: decode_byte_lists_def length_encodeSszByteListList Let_def)
  qed
qed

section \<open>Fixed-size elements\<close>

interpretation withdrawals: fixed_codec 44 encodeSszWithdrawal decode_withdrawal
proof unfold_locales
  fix w :: Withdrawal
  show "length (encodeSszWithdrawal w) = 44" by (simp add: encodeSszWithdrawal_def)
  show "decode_withdrawal (encodeSszWithdrawal w) = w"
    by (simp add: decode_withdrawal_def encodeSszWithdrawal_def layout_simps)
      (simp add: writeU64LE_def address_bytes_def field_codecs)
qed simp

interpretation hashes: fixed_codec 32 hash_bytes dec_be
  by unfold_locales (simp_all add: hash_bytes_def hash_codec.dec_enc)

lemma decode_withdrawal_list:
  "decode_list 44 decode_withdrawal (encodeSszWithdrawalList wds) = Some wds"
  unfolding encodeSszWithdrawalList_def by (rule withdrawals.decode_list_enc)

text \<open>The blob hashes of a block, in transaction order.\<close>

definition blob_hashes :: "geth \<Rightarrow> Transaction list \<Rightarrow> hash list" where
  "blob_hashes G txs =
     concat (map (\<lambda>tx. if tx_Type G tx = BlobTxType G then tx_BlobHashes G tx else []) txs)"

lemma encodeSszVersionedHashes_eq:
  "encodeSszVersionedHashes G txs = concat (map hash_bytes (blob_hashes G txs))"
  unfolding encodeSszVersionedHashes_def blob_hashes_def
  by (induction txs) auto

lemma decode_versioned_hashes:
  "decode_list 32 dec_be (encodeSszVersionedHashes G txs) = Some (blob_hashes G txs)"
  unfolding encodeSszVersionedHashes_eq by (rule hashes.decode_list_enc)

section \<open>Base fee\<close>

lemma reverse_into_eq:
  "i + length nb = len \<Longrightarrow> length nb \<le> length b \<Longrightarrow>
   reverse_into len i nb b = Inr (rev nb @ drop (length nb) b)"
proof (induction nb arbitrary: i b)
  case Nil
  then show ?case by simp
next
  case (Cons x nb)
  let ?b = "b[length nb := x]"
  have idx: "len - 1 - i = length nb" using Cons.prems by simp
  have "drop (length nb) ?b = x # drop (Suc (length nb)) b"
    using Cons.prems by (simp add: Cons_nth_drop_Suc [symmetric] del: drop_Suc_Cons)
  moreover have "reverse_into len (Suc i) nb ?b = Inr (rev nb @ drop (length nb) ?b)"
    using Cons.prems by (intro Cons.IH) auto
  ultimately show ?case using Cons.prems idx by simp
qed

lemma min_le_bytes_length: "length (min_le_bytes n) \<le> k \<longleftrightarrow> n < 256 ^ k"
proof (induction n arbitrary: k rule: min_le_bytes.induct)
  case (1 n)
  show ?case
  proof (cases "n = 0")
    case True
    then show ?thesis by (subst min_le_bytes.simps) simp
  next
    case False
    then show ?thesis
    proof (cases k)
      case 0
      with False show ?thesis by (subst min_le_bytes.simps) simp
    next
      case (Suc j)
      have "n div 256 < 256 ^ j \<longleftrightarrow> n < 256 ^ Suc j"
        by (simp add: div_less_iff_less_mult mult.commute)
      with "1.IH" [OF False, of j] False Suc show ?thesis
        by (subst min_le_bytes.simps) simp
    qed
  qed
qed

lemma le_bytes_zero: "le_bytes k 0 = replicate k 0"
  by (induction k) simp_all

lemma le_bytes_min:
  "n < 256 ^ k \<Longrightarrow> le_bytes k n = min_le_bytes n @ replicate (k - length (min_le_bytes n)) 0"
proof (induction k arbitrary: n)
  case 0
  then show ?case by (subst min_le_bytes.simps, subst min_le_bytes.simps) simp
next
  case (Suc k)
  show ?case
  proof (cases "n = 0")
    case True
    then show ?thesis by (simp add: min_le_bytes.simps [of 0] le_bytes_zero)
  next
    case False
    have "n div 256 < 256 ^ k"
      using Suc.prems by (simp add: div_less_iff_less_mult mult.commute)
    with Suc.IH False show ?thesis by (simp add: min_le_bytes.simps [of n])
  qed
qed

lemma sszUint256_small:
  assumes "0 \<le> n" "n < 2 ^ 256"
  shows "sszUint256 (Some n) = Inr (le_bytes 32 (nat n))"
proof (cases "n = 0")
  case True
  then show ?thesis by (simp add: sszUint256_def le_bytes_zero)
next
  case False
  have small: "nat n < 256 ^ 32" using assms by (simp add: nat_less_iff)
  then have "length (min_le_bytes (nat n)) \<le> 32" by (simp add: min_le_bytes_length)
  then have "reverse_into (length (big_Bytes n)) 0 (big_Bytes n) (replicate 32 0) =
      Inr (rev (big_Bytes n) @ drop (length (big_Bytes n)) (replicate 32 0))"
    using assms by (intro reverse_into_eq) (simp_all add: big_Bytes_def)
  with False assms small show ?thesis
    by (simp add: sszUint256_def big_Bytes_def le_bytes_min)
qed

lemma sszUint256_nonpos: "n \<le> 0 \<Longrightarrow> sszUint256 (Some n) = Inr (le_bytes 32 0)"
  by (simp add: sszUint256_def le_bytes_zero)

lemma sszUint256_large:
  assumes "2 ^ 256 \<le> n"
  shows "sszUint256 (Some n) = Inl (Panic ''index out of range'')"
proof -
  have "\<not> nat n < 256 ^ 32" using assms by (simp add: nat_less_iff)
  then have len: "\<not> length (big_Bytes n) \<le> 32"
    using assms by (simp add: big_Bytes_def min_le_bytes_length)
  then obtain x xs where "big_Bytes n = x # xs" by (cases "big_Bytes n") auto
  with len assms show ?thesis by (simp add: sszUint256_def)
qed

lemma sszUint256_Inr:
  "sszUint256 (Some n) = Inr fee \<Longrightarrow> n < 2 ^ 256 \<and> fee = le_bytes 32 (unat (of_int (max 0 n) :: u256))"
proof -
  assume fee: "sszUint256 (Some n) = Inr fee"
  then have small: "n < 2 ^ 256" using sszUint256_large [of n] by (cases "n < 2 ^ 256") auto
  have "unat (of_int (max 0 n) :: u256) = nat (max 0 n)"
    using small by (simp add: unat_eq_nat_uint max_def word_of_int_inverse)
  then show ?thesis
    using fee small sszUint256_small [of n] sszUint256_nonpos [of n]
    by (cases "0 \<le> n") auto
qed

section \<open>Execution requests\<close>

lemma request_offsets_eq: "request_offsets off ls = offset_table off ls"
  by (induction off ls rule: request_offsets.induct) (simp_all add: writeU32LE_of_nat)

lemma encode_request_lists_eq: "encode_request_lists ls = offset_table 20 ls @ concat ls"
  by (simp add: encode_request_lists_def request_offsets_eq executionRequestTypes_def)

interpretation request_lists: section_codec
  "\<lambda>ls. length ls = 5 \<and> length (encode_request_lists ls) < 2 ^ 32" encode_request_lists decode_requests
proof unfold_locales
  fix ls :: "bytes list"
  assume ok: "length ls = 5 \<and> length (encode_request_lists ls) < 2 ^ 32"
  then obtain l ls' where l: "ls = l # ls'" by (cases ls) auto
  have enc: "encode_request_lists ls = offset_table 20 ls @ concat ls"
    by (rule encode_request_lists_eq)
  have "offsets 5 (encode_request_lists ls) = running 20 ls"
    unfolding enc using ok
    by (intro offsets_offset_table) (simp_all add: enc del: length_concat)
  then have "cut_at (offsets 5 (encode_request_lists ls)) (encode_request_lists ls) = Some ls"
    unfolding enc using ok by (intro cut_at_parts) simp_all
  moreover have "le_nat (take 4 (encode_request_lists ls)) = 20"
    unfolding enc by (simp add: l le_nat_offset)
  ultimately show "decode_requests (encode_request_lists ls) = Some ls"
    using ok by (simp add: decode_requests_def enc)
qed

text \<open>What a list of requests in Engine API form says of request type \<open>t\<close>.\<close>

definition request_data :: "bytes list \<Rightarrow> nat \<Rightarrow> bytes" where
  "request_data rs t = (case find (\<lambda>r. unat (hd r) = t) rs of None \<Rightarrow> [] | Some r \<Rightarrow> tl r)"

definition request_ok :: "bytes \<Rightarrow> bool" where
  "request_ok r \<longleftrightarrow> 2 \<le> length r \<and> unat (hd r) < 5"

definition requests_ok :: "bytes list \<Rightarrow> bool" where
  "requests_ok rs \<longleftrightarrow> list_all request_ok rs \<and> sorted_wrt (<) (map (\<lambda>r. unat (hd r)) rs)"

fun store_requests :: "bytes list \<Rightarrow> bytes list \<Rightarrow> bytes list" where
  "store_requests [] ls = ls"
| "store_requests (r # rs) ls = store_requests rs (ls[unat (hd r) := tl r])"

lemma requests_loop_Inr:
  "requests_loop prev ls rs = Inr out \<longleftrightarrow>
     list_all request_ok rs \<and> sorted_wrt (<) (prev # map (\<lambda>r. int (unat (hd r))) rs) \<and>
     out = store_requests rs ls"
proof (induction rs arbitrary: prev ls)
  case Nil
  then show ?case by auto
next
  case (Cons r rs)
  have "(prev < int (unat (hd r)) \<and> sorted_wrt (<) (int (unat (hd r)) # map (\<lambda>r. int (unat (hd r))) rs)) =
        sorted_wrt (<) (prev # map (\<lambda>r. int (unat (hd r))) (r # rs))"
    by auto
  then show ?case
    using Cons.IH by (auto simp: request_ok_def executionRequestTypes_def not_le not_less)
qed

lemma requests_ok_iff:
  "(\<exists>out. encodeSszExecutionRequests rs = Inr out) \<longleftrightarrow> requests_ok rs"
proof -
  have "sorted_wrt (<) (-1 # map int ns) = sorted_wrt (<) ns" for ns
    by (auto simp: sorted_wrt_map)
  from this [of "map (\<lambda>r. unat (hd r)) rs"]
  have "sorted_wrt (<) (-1 # map (\<lambda>r. int (unat (hd r))) rs) =
        sorted_wrt (<) (map (\<lambda>r. unat (hd r)) rs)"
    by (simp only: map_map o_def)
  then show ?thesis
    by (auto simp: encodeSszExecutionRequests_def requests_ok_def res_simps requests_loop_Inr)
qed

lemma length_store_requests [simp]: "length (store_requests rs ls) = length ls"
  by (induction rs ls rule: store_requests.induct) auto

lemma store_requests_other:
  "t \<notin> (\<lambda>r. unat (hd r)) ` set rs \<Longrightarrow> store_requests rs ls ! t = ls ! t"
  by (induction rs ls rule: store_requests.induct) auto

lemma store_requests_nth:
  assumes "distinct (map (\<lambda>r. unat (hd r)) rs)" "t < length ls" "ls ! t = []"
  shows "store_requests rs ls ! t = request_data rs t"
  using assms
proof (induction rs arbitrary: ls)
  case Nil
  then show ?case by (simp add: request_data_def)
next
  case (Cons r rs)
  show ?case
  proof (cases "unat (hd r) = t")
    case True
    with Cons.prems have "t \<notin> (\<lambda>r. unat (hd r)) ` set rs" by auto
    with True Cons.prems show ?thesis by (simp add: request_data_def store_requests_other)
  next
    case False
    with Cons show ?thesis by (simp add: request_data_def)
  qed
qed

lemma store_requests_eq:
  assumes "requests_ok rs"
  shows "store_requests rs (replicate 5 []) = map (request_data rs) [0..<5]"
proof (rule nth_equalityI)
  have "distinct (map (\<lambda>r. unat (hd r)) rs)"
    using assms strict_sorted_iff by (auto simp: requests_ok_def)
  then show "store_requests rs (replicate 5 []) ! i = map (request_data rs) [0..<5] ! i"
    if "i < length (store_requests rs (replicate 5 []))" for i
    using that by (simp add: store_requests_nth)
qed simp

lemma encodeSszExecutionRequests_eq:
  assumes "requests_ok rs"
  shows "encodeSszExecutionRequests rs = Inr (encode_request_lists (map (request_data rs) [0..<5]))"
proof -
  obtain out where out: "encodeSszExecutionRequests rs = Inr out"
    using assms requests_ok_iff by blast
  then show ?thesis
    by (auto simp: encodeSszExecutionRequests_def res_simps requests_loop_Inr
        store_requests_eq [OF assms] executionRequestTypes_def)
qed

lemma decode_encoded_requests:
  assumes "encodeSszExecutionRequests rs = Inr out" "length out < 2 ^ 32"
  shows "decode_requests out = Some (map (request_data rs) [0..<5])"
proof -
  have "requests_ok rs" using assms(1) requests_ok_iff by blast
  then have "out = encode_request_lists (map (request_data rs) [0..<5])"
    using assms(1) encodeSszExecutionRequests_eq by simp
  then show ?thesis using assms(2) request_lists.dec_enc by simp
qed

section \<open>The witness\<close>

definition encode_witness :: "SszExecutionWitness \<Rightarrow> bytes" where
  "encode_witness w = encodeExecutionWitnessFromArrays (w_state w) (w_codes w) (w_headers w)"

lemma encodeExecutionWitnessFromArrays_eq:
  "encodeExecutionWitnessFromArrays s c h =
     (let ps = [encodeSszByteListList s, encodeSszByteListList c, encodeSszByteListList h]
      in offset_table 12 ps @ concat ps)"
  by (simp add: encodeExecutionWitnessFromArrays_def Let_def writeU32LE_of_nat
      del: of_nat_numeral of_nat_add)

interpretation witness: section_codec
  "\<lambda>w. length (encode_witness w) < 2 ^ 32" encode_witness decode_witness
proof unfold_locales
  fix w :: SszExecutionWitness
  assume small: "length (encode_witness w) < 2 ^ 32"
  let ?ps = "[encodeSszByteListList (w_state w), encodeSszByteListList (w_codes w),
              encodeSszByteListList (w_headers w)]"
  have enc: "encode_witness w = offset_table 12 ?ps @ concat ?ps"
    by (simp only: encode_witness_def encodeExecutionWitnessFromArrays_eq Let_def)
  have len: "12 + length (concat ?ps) < 2 ^ 32"
    using small by (simp add: enc)
  have "offsets 3 (encode_witness w) = running 12 ?ps"
    unfolding enc using len by (rule offsets_offset_table) simp
  then have "cut_at (offsets 3 (encode_witness w)) (encode_witness w) = Some ?ps"
    unfolding enc by (intro cut_at_parts) simp_all
  moreover have "le_nat (take 4 (encode_witness w)) = 12"
    unfolding enc by (simp add: le_nat_offset)
  moreover have "\<not> length (encode_witness w) < 12" by (simp add: enc)
  moreover have "length (encodeSszByteListList (w_state w)) < 2 ^ 32"
    "length (encodeSszByteListList (w_codes w)) < 2 ^ 32"
    "length (encodeSszByteListList (w_headers w)) < 2 ^ 32"
    using len by simp_all
  ultimately show "decode_witness (encode_witness w) = Some w"
    by (simp add: decode_witness_def byte_lists.dec_enc)
qed

lemma encodeSszExecutionWitness_eq:
  "encodeSszExecutionWitness w =
     res_bind (decodeHexArray (wt_State w)) (\<lambda>s.
     res_bind (decodeHexArray (wt_Codes w)) (\<lambda>c.
     res_bind (decodeHexArray (wt_Headers w)) (\<lambda>h.
       Inr (encodeExecutionWitnessFromArrays s c h))))"
  by (simp add: encodeSszExecutionWitness_def encodeExecutionWitnessFromArrays_def Let_def)

section \<open>The container\<close>

lemma encodeStatelessInputContainer_eq:
  "encodeStatelessInputContainer npr wit chainID schemaID =
     be_bytes 2 (unat schemaID) @
     (le_bytes 4 16 @ le_bytes 4 (16 + length npr) @ writeU64LE chainID) @ concat [npr, wit]"
proof -
  have "(16 :: u32) = of_nat 16" "(16 :: u32) + of_nat (length npr) = of_nat (16 + length npr)"
    by simp_all
  then show ?thesis
    by (simp only: encodeStatelessInputContainer_def Let_def writeU32LE_of_nat) simp
qed

lemma decode_container_encode:
  assumes "16 + length npr < 2 ^ 32"
  shows "decode_container (encodeStatelessInputContainer npr wit chainID schemaID) =
           Some (schemaID, chainID, npr, wit)"
proof -
  let ?fix = "le_bytes 4 16 @ le_bytes 4 (16 + length npr) @ writeU64LE chainID"
  let ?c = "?fix @ concat [npr, wit]"
  have "cut_at [16, 16 + length npr] ?c = Some [npr, wit]"
    by (rule cut_at_parts [where n = 16]) simp_all
  then have cut: "cut_at [16, 16 + length npr] (le_bytes 4 16 @ le_bytes 4 (16 + length npr) @
      writeU64LE chainID @ npr @ wit) = Some [npr, wit]" by simp
  show ?thesis
    unfolding encodeStatelessInputContainer_eq decode_container_def
    using assms
    by (simp add: layout_simps le_nat_offset cut u16_codec.dec_enc Let_def del: cut_at.simps)
      (simp add: writeU64LE_def u64_codec.dec_enc)
qed

end
