(* ===== verification/Ssz_Paths.thy ===== *)
theory Ssz_Paths
  imports Ssz_Correct
begin

text \<open>
  The stateless input as a whole. \<open>encode_payload\<close>, \<open>encode_request\<close> and \<open>encode_input\<close>
  serialise the abstract values; the encoders of the live path and of the fixture path are
  shown to compute them, so their output decodes to the block they were given, and the two
  paths agree.
\<close>

section \<open>Serialising the abstract values\<close>

definition payload_parts :: "SszExecutionPayload \<Rightarrow> bytes list" where
  "payload_parts p =
     [p_extra_data p, encodeSszByteListList (p_transactions p),
      encodeSszWithdrawalList (p_withdrawals p), p_block_access_list p]"

definition encode_payload :: "SszExecutionPayload \<Rightarrow> bytes" where
  "encode_payload p =
     (let e = length (p_extra_data p);
          t = length (encodeSszByteListList (p_transactions p));
          w = length (encodeSszWithdrawalList (p_withdrawals p))
      in (hash_bytes (p_parent_hash p) @ address_bytes (p_fee_recipient p) @
          hash_bytes (p_state_root p) @ hash_bytes (p_receipts_root p) @
          bloom_bytes (p_logs_bloom p) @ hash_bytes (p_prev_randao p) @
          writeU64LE (p_block_number p) @ writeU64LE (p_gas_limit p) @
          writeU64LE (p_gas_used p) @ writeU64LE (p_timestamp p) @
          le_bytes 4 540 @ le_bytes 32 (unat (p_base_fee_per_gas p)) @
          hash_bytes (p_block_hash p) @ le_bytes 4 (540 + e) @ le_bytes 4 (540 + e + t) @
          writeU64LE (p_blob_gas_used p) @ writeU64LE (p_excess_blob_gas p) @
          le_bytes 4 (540 + e + t + w) @ writeU64LE (p_slot_number p)) @
         concat (payload_parts p))"

definition encode_request :: "SszNewPayloadRequest \<Rightarrow> bytes" where
  "encode_request n =
     (let ep = encode_payload (n_execution_payload n);
          vh = concat (map hash_bytes (n_versioned_hashes n))
      in (le_bytes 4 44 @ le_bytes 4 (44 + length ep) @ hash_bytes (n_parent_beacon_block_root n) @
          le_bytes 4 (44 + length ep + length vh)) @
         concat [ep, vh, encode_request_lists (n_execution_requests n)])"

definition encode_input :: "SszStatelessInput \<Rightarrow> bytes" where
  "encode_input i =
     encodeStatelessInputContainer (encode_request (i_new_payload_request i))
       (encode_witness (i_witness i)) (i_chain_id i) (i_schema_id i)"

section \<open>Round trips\<close>

lemma length_encode_payload:
  "length (encode_payload p) = 540 + length (concat (payload_parts p))"
  by (simp add: encode_payload_def Let_def del: length_concat)

lemma payload_parts_length:
  "length (concat (payload_parts p)) =
     length (p_extra_data p) + length (encodeSszByteListList (p_transactions p)) +
     length (encodeSszWithdrawalList (p_withdrawals p)) + length (p_block_access_list p)"
  by (simp add: payload_parts_def)

lemma payload_hash_slices:
  "go_slice 0 32 (encode_payload p) = hash_bytes (p_parent_hash p)"
  "go_slice 32 52 (encode_payload p) = address_bytes (p_fee_recipient p)"
  "go_slice 52 84 (encode_payload p) = hash_bytes (p_state_root p)"
  "go_slice 84 116 (encode_payload p) = hash_bytes (p_receipts_root p)"
  "go_slice 116 372 (encode_payload p) = bloom_bytes (p_logs_bloom p)"
  "go_slice 372 404 (encode_payload p) = hash_bytes (p_prev_randao p)"
  "go_slice 472 504 (encode_payload p) = hash_bytes (p_block_hash p)"
  by (simp_all add: encode_payload_def Let_def layout_simps del: length_concat)

lemma payload_number_slices:
  "go_slice 404 412 (encode_payload p) = writeU64LE (p_block_number p)"
  "go_slice 412 420 (encode_payload p) = writeU64LE (p_gas_limit p)"
  "go_slice 420 428 (encode_payload p) = writeU64LE (p_gas_used p)"
  "go_slice 428 436 (encode_payload p) = writeU64LE (p_timestamp p)"
  "go_slice 440 472 (encode_payload p) = le_bytes 32 (unat (p_base_fee_per_gas p))"
  "go_slice 512 520 (encode_payload p) = writeU64LE (p_blob_gas_used p)"
  "go_slice 520 528 (encode_payload p) = writeU64LE (p_excess_blob_gas p)"
  "go_slice 532 540 (encode_payload p) = writeU64LE (p_slot_number p)"
  by (simp_all add: encode_payload_def Let_def layout_simps del: length_concat)

lemma payload_offset_slices:
  "go_slice 436 440 (encode_payload p) = le_bytes 4 540"
  "go_slice 504 508 (encode_payload p) = le_bytes 4 (540 + length (p_extra_data p))"
  "go_slice 508 512 (encode_payload p) =
     le_bytes 4 (540 + length (p_extra_data p) + length (encodeSszByteListList (p_transactions p)))"
  "go_slice 528 532 (encode_payload p) =
     le_bytes 4 (540 + length (p_extra_data p) + length (encodeSszByteListList (p_transactions p)) +
                 length (encodeSszWithdrawalList (p_withdrawals p)))"
  by (simp_all add: encode_payload_def Let_def layout_simps del: length_concat)

lemma payload_cut:
  "cut_at [540, 540 + length (p_extra_data p),
           540 + length (p_extra_data p) + length (encodeSszByteListList (p_transactions p)),
           540 + length (p_extra_data p) + length (encodeSszByteListList (p_transactions p)) +
             length (encodeSszWithdrawalList (p_withdrawals p))] (encode_payload p) =
   Some (payload_parts p)"
  unfolding encode_payload_def Let_def
  by (rule cut_at_parts [where n = 540]) (simp_all add: payload_parts_def)

lemmas field_decs =
  hash_bytes_def address_bytes_def bloom_bytes_def writeU64LE_def field_codecs

interpretation payload: section_codec
  "\<lambda>p. length (encode_payload p) < 2 ^ 32" encode_payload decode_payload
proof unfold_locales
  fix p
  assume small: "length (encode_payload p) < 2 ^ 32"
  have big: "\<not> length (encode_payload p) < 540" by (simp add: length_encode_payload)
  have bound: "540 + length (p_extra_data p) + length (encodeSszByteListList (p_transactions p)) +
      length (encodeSszWithdrawalList (p_withdrawals p)) < 2 ^ 32"
    using small by (simp add: length_encode_payload payload_parts_length)
  then have offs:
    "le_nat (go_slice 436 440 (encode_payload p)) = 540"
    "le_nat (go_slice 504 508 (encode_payload p)) = 540 + length (p_extra_data p)"
    "le_nat (go_slice 508 512 (encode_payload p)) =
       540 + length (p_extra_data p) + length (encodeSszByteListList (p_transactions p))"
    "le_nat (go_slice 528 532 (encode_payload p)) =
       540 + length (p_extra_data p) + length (encodeSszByteListList (p_transactions p)) +
       length (encodeSszWithdrawalList (p_withdrawals p))"
    by (simp_all add: payload_offset_slices le_nat_offset)
  have txs: "decode_byte_lists (encodeSszByteListList (p_transactions p)) = Some (p_transactions p)"
    using bound by (intro byte_lists.dec_enc) simp
  show "decode_payload (encode_payload p) = Some p"
    using big
    by (simp add: decode_payload_def Let_def offs payload_cut del: cut_at.simps)
      (simp add: payload_parts_def txs decode_withdrawal_list payload_hash_slices
        payload_number_slices field_decs)
qed

interpretation request: section_codec
  "\<lambda>n. length (encode_request n) < 2 ^ 32 \<and> length (n_execution_requests n) = 5"
  encode_request decode_new_payload_request
proof unfold_locales
  fix n
  assume ok: "length (encode_request n) < 2 ^ 32 \<and> length (n_execution_requests n) = 5"
  let ?ep = "encode_payload (n_execution_payload n)"
  let ?vh = "concat (map hash_bytes (n_versioned_hashes n))"
  let ?er = "encode_request_lists (n_execution_requests n)"
  let ?fix = "le_bytes 4 44 @ le_bytes 4 (44 + length ?ep) @
      hash_bytes (n_parent_beacon_block_root n) @ le_bytes 4 (44 + length ?ep + length ?vh)"
  have enc: "encode_request n = ?fix @ concat [?ep, ?vh, ?er]"
    by (simp add: encode_request_def Let_def)
  have len: "length (encode_request n) = 44 + length ?ep + length ?vh + length ?er"
    by (simp add: enc del: length_concat)
  have cut: "cut_at [44, 44 + length ?ep, 44 + length ?ep + length ?vh] (encode_request n) =
      Some [?ep, ?vh, ?er]"
    unfolding enc by (rule cut_at_parts [where n = 44]) simp_all
  have sl: "go_slice 0 4 (encode_request n) = le_bytes 4 44"
    "go_slice 4 8 (encode_request n) = le_bytes 4 (44 + length ?ep)"
    "go_slice 8 40 (encode_request n) = hash_bytes (n_parent_beacon_block_root n)"
    "go_slice 40 44 (encode_request n) = le_bytes 4 (44 + length ?ep + length ?vh)"
    by (simp_all add: enc layout_simps del: length_concat)
  have offs: "le_nat (le_bytes 4 (44 + length ?ep)) = 44 + length ?ep"
    "le_nat (le_bytes 4 (44 + length ?ep + length ?vh)) = 44 + length ?ep + length ?vh"
    using ok len by (simp_all add: le_nat_offset)
  have "decode_payload ?ep = Some (n_execution_payload n)"
    using ok len by (intro payload.dec_enc) simp
  moreover have "decode_list 32 dec_be ?vh = Some (n_versioned_hashes n)"
    by (rule hashes.decode_list_enc)
  moreover have "decode_requests ?er = Some (n_execution_requests n)"
    using ok len by (intro request_lists.dec_enc) simp
  ultimately show "decode_new_payload_request (encode_request n) = Some n"
    using cut len
    by (simp add: decode_new_payload_request_def Let_def sl offs le_nat_offset del: cut_at.simps length_concat)
      (simp add: hash_bytes_def hash_codec.dec_enc)
qed

interpretation input: section_codec
  "\<lambda>i. length (encode_input i) < 2 ^ 32 \<and> length (n_execution_requests (i_new_payload_request i)) = 5"
  encode_input decode_stateless_input
proof unfold_locales
  fix i
  assume ok: "length (encode_input i) < 2 ^ 32 \<and>
    length (n_execution_requests (i_new_payload_request i)) = 5"
  let ?npr = "encode_request (i_new_payload_request i)" and ?wit = "encode_witness (i_witness i)"
  have len: "length (encode_input i) = 18 + length ?npr + length ?wit"
    by (simp add: encode_input_def encodeStatelessInputContainer_eq)
  have "decode_container (encode_input i) = Some (i_schema_id i, i_chain_id i, ?npr, ?wit)"
    unfolding encode_input_def using ok len by (intro decode_container_encode) simp
  moreover have "decode_new_payload_request ?npr = Some (i_new_payload_request i)"
    using ok len by (intro request.dec_enc) simp
  moreover have "decode_witness ?wit = Some (i_witness i)"
    using ok len by (intro witness.dec_enc) simp
  ultimately show "decode_stateless_input (encode_input i) = Some i"
    by (simp add: decode_stateless_input_def)
qed

section \<open>The live path computes the serialisation of its block\<close>

definition base_fee :: "Header \<Rightarrow> int" where
  "base_fee h = (case h_BaseFee h of None \<Rightarrow> 0 | Some n \<Rightarrow> n)"

definition payload_of_block :: "geth \<Rightarrow> Block \<Rightarrow> bytes \<Rightarrow> bytes list \<Rightarrow> SszExecutionPayload" where
  "payload_of_block G block bal rawTxs =
     (let h = b_Header block
      in \<lparr>p_parent_hash = h_ParentHash h,
          p_fee_recipient = h_Coinbase h,
          p_state_root = h_Root h,
          p_receipts_root = h_ReceiptHash h,
          p_logs_bloom = h_Bloom h,
          p_prev_randao = h_MixDigest h,
          p_block_number = big_Uint64 (h_Number h),
          p_gas_limit = h_GasLimit h,
          p_gas_used = h_GasUsed h,
          p_timestamp = h_Time h,
          p_extra_data = h_Extra h,
          p_base_fee_per_gas = of_int (max 0 (base_fee h)),
          p_block_hash = Block_Hash G block,
          p_transactions = rawTxs,
          p_withdrawals = b_Withdrawals block,
          p_blob_gas_used = or_zero (h_BlobGasUsed h),
          p_excess_blob_gas = or_zero (h_ExcessBlobGas h),
          p_block_access_list = bal,
          p_slot_number = or_zero (h_SlotNumber h)\<rparr>)"

definition input_of_block ::
  "geth \<Rightarrow> Block \<Rightarrow> bytes list \<Rightarrow> bytes list \<Rightarrow> bytes list \<Rightarrow> bytes \<Rightarrow> bytes list \<Rightarrow>
   u64 \<Rightarrow> u8 \<Rightarrow> bytes list \<Rightarrow> SszStatelessInput" where
  "input_of_block G block state codes headers bal requests chainID fork rawTxs =
     \<lparr>i_schema_id = schemaIDFor (if fork = 0 then forkAmsterdam else fork),
      i_new_payload_request =
        \<lparr>n_execution_payload = payload_of_block G block bal rawTxs,
         n_versioned_hashes = blob_hashes G (b_Transactions block),
         n_parent_beacon_block_root =
           (case h_ParentBeaconRoot (b_Header block) of None \<Rightarrow> 0 | Some r \<Rightarrow> r),
         n_execution_requests = map (request_data requests) [0..<5]\<rparr>,
      i_witness = \<lparr>w_state = state, w_codes = codes, w_headers = headers\<rparr>,
      i_chain_id = (if chainID = 0 then 1 else chainID)\<rparr>"

lemma u32_offsets:
  "writeU32LE 540 = le_bytes 4 540"
  "writeU32LE (540 + of_nat a) = le_bytes 4 (540 + a)"
  "writeU32LE (540 + of_nat a + of_nat b) = le_bytes 4 (540 + a + b)"
  "writeU32LE (540 + of_nat a + of_nat b + of_nat c) = le_bytes 4 (540 + a + b + c)"
  using writeU32LE_of_nat [of 540] writeU32LE_of_nat [of "540 + a"]
    writeU32LE_of_nat [of "540 + a + b"] writeU32LE_of_nat [of "540 + a + b + c"]
  by simp_all

lemma encodeExecutionPayloadFromBlock_eq:
  "encodeExecutionPayloadFromBlock G block bal = Inr ep \<longleftrightarrow>
     (\<exists>raw. marshal_all G (b_Transactions block) = Inr raw \<and> base_fee (b_Header block) < 2 ^ 256 \<and>
            ep = encode_payload (payload_of_block G block bal raw))"
proof -
  have fee: "sszUint256 (Some n) = Inr x \<longleftrightarrow>
      n < 2 ^ 256 \<and> x = le_bytes 32 (unat (of_int (max 0 n) :: u256))" for n x
    using sszUint256_Inr [of n x] sszUint256_Inr [of n] sszUint256_small [of n] sszUint256_nonpos [of n]
    by (cases "sszUint256 (Some n)"; cases "0 \<le> n") auto
  show ?thesis
    unfolding encodeExecutionPayloadFromBlock_def Let_def base_fee_def [symmetric] res_simps fee
    by (auto simp: encode_payload_def payload_of_block_def payload_parts_def Let_def u32_offsets)
qed

lemma encodeNewPayloadRequestFromBlock_eq:
  "encodeNewPayloadRequestFromBlock G block root bal requests = Inr npr \<longleftrightarrow>
     (\<exists>raw. marshal_all G (b_Transactions block) = Inr raw \<and> base_fee (b_Header block) < 2 ^ 256 \<and>
            requests_ok requests \<and>
            npr = encode_request
              \<lparr>n_execution_payload = payload_of_block G block bal raw,
               n_versioned_hashes = blob_hashes G (b_Transactions block),
               n_parent_beacon_block_root = root,
               n_execution_requests = map (request_data requests) [0..<5]\<rparr>)"
proof -
  have er: "encodeSszExecutionRequests requests = Inr er \<longleftrightarrow>
      requests_ok requests \<and> er = encode_request_lists (map (request_data requests) [0..<5])" for er
    using requests_ok_iff [of requests] encodeSszExecutionRequests_eq [of requests] by auto
  show ?thesis
    unfolding encodeNewPayloadRequestFromBlock_def Let_def res_simps er
      encodeExecutionPayloadFromBlock_eq encodeSszVersionedHashes_eq writeU32LE_of_nat
    by (auto simp: encode_request_def Let_def)
qed

lemma ZesuInputSSZFromBlock_eq:
  "ZesuInputSSZFromBlock G block state codes headers bal requests chainID fork = Inr out \<longleftrightarrow>
     (\<exists>raw. marshal_all G (b_Transactions block) = Inr raw \<and> base_fee (b_Header block) < 2 ^ 256 \<and>
            requests_ok requests \<and>
            out = encode_input
              (input_of_block G block state codes headers bal requests chainID fork raw))"
  unfolding ZesuInputSSZFromBlock_def encodeStatelessInputFromBlock_def Let_def res_simps
    encodeNewPayloadRequestFromBlock_eq
  by (auto simp: encode_input_def input_of_block_def encode_witness_def)

section \<open>The fixture path\<close>

definition spells32 :: "string \<Rightarrow> bool" where
  "spells32 s = (case hex_DecodeString (TrimPrefix s ''0x'') of
                   (bs, None) \<Rightarrow> length bs = 32 | _ \<Rightarrow> False)"

lemma spells32_bytes:
  assumes "hex_to_hash_law G" "spells32 s"
  shows "mustHexToBytes s = hash_bytes (HexToHash G s)"
proof -
  obtain bs where bs: "hex_DecodeString (TrimPrefix s ''0x'') = (bs, None)" "length bs = 32"
    using assms(2) by (auto simp: spells32_def split: prod.splits option.splits)
  then have "length (TrimPrefix s ''0x'') = 64"
    using hex_DecodeString_length by fastforce
  with bs assms(1) show ?thesis
    by (simp add: mustHexToBytes_def hexStrToBytes_def hash_bytes_def hex_to_hash_law_def)
qed

definition fixture_hashes_ok :: "FixtureHeader \<Rightarrow> bool" where
  "fixture_hashes_ok h \<longleftrightarrow>
     spells32 (fh_ParentHash h) \<and> spells32 (fh_StateRoot h) \<and>
     spells32 (fh_ReceiptsRoot h) \<and> spells32 (fh_MixHash h)"

definition bal_bytes :: "FixtureFile \<Rightarrow> bytes" where
  "bal_bytes f = (case fb_BlockAccessList (bk_Body (si_Block (ff_StatelessInput f))) of
                    None \<Rightarrow> [] | Some s \<Rightarrow> mustHexToBytes s)"

lemma big_Uint64_uint [simp]: "big_Uint64 (uint w) = w"
  by (simp add: big_Uint64_def)

lemma payload_paths_agree:
  assumes laws: "hex_to_hash_law G" "block_hash_law G"
    and hashes: "fixture_hashes_ok (bk_Header (si_Block (ff_StatelessInput f)))"
    and hdr: "fixtureHeader G f = Inr hdr"
  shows "encodeSszExecutionPayload G f txs wds =
     encodeExecutionPayloadFromBlock G
       \<lparr>b_Header = hdr, b_Transactions = txs, b_Withdrawals = wds\<rparr> (bal_bytes f)"
proof -
  let ?h = "bk_Header (si_Block (ff_StatelessInput f))"
  obtain fee where fee: "rawJSONToBigInt (fh_BaseFeePerGas ?h) = Inr fee"
    using hdr by (auto simp: fixtureHeader_def Let_def res_simps)
  have fields:
    "h_ParentHash hdr = HexToHash G (fh_ParentHash ?h)" "h_Root hdr = HexToHash G (fh_StateRoot ?h)"
    "h_ReceiptHash hdr = HexToHash G (fh_ReceiptsRoot ?h)" "h_MixDigest hdr = HexToHash G (fh_MixHash ?h)"
    "h_Coinbase hdr = HexToAddress G (fh_Beneficiary ?h)" "h_Bloom hdr = hexToBloom (fh_LogsBloom ?h)"
    "h_Number hdr = int (unat (fh_Number ?h))" "h_GasLimit hdr = fh_GasLimit ?h"
    "h_GasUsed hdr = fh_GasUsed ?h" "h_Time hdr = fh_Timestamp ?h"
    "h_Extra hdr = mustHexToBytes (fh_ExtraData ?h)" "h_BaseFee hdr = Some fee"
    "h_BlobGasUsed hdr = fh_BlobGasUsed ?h" "h_ExcessBlobGas hdr = fh_ExcessBlobGas ?h"
    "h_SlotNumber hdr = fh_SlotNumber ?h"
    using hdr fee by (auto simp: fixtureHeader_def Let_def res_simps)
  have hash_fields:
    "mustHexToBytes (fh_ParentHash ?h) = hash_bytes (h_ParentHash hdr)"
    "mustHexToBytes (fh_StateRoot ?h) = hash_bytes (h_Root hdr)"
    "mustHexToBytes (fh_ReceiptsRoot ?h) = hash_bytes (h_ReceiptHash hdr)"
    "mustHexToBytes (fh_MixHash ?h) = hash_bytes (h_MixDigest hdr)"
    using hashes by (simp_all add: fixture_hashes_ok_def spells32_bytes [OF laws(1)] fields)
  show ?thesis
    unfolding encodeSszExecutionPayload_def encodeExecutionPayloadFromBlock_def Let_def hdr fee
      hash_fields res_bind.simps
    using laws(2)
    by (simp add: fields bal_bytes_def block_hash_law_def writeAddress_def writeBloom_def)
qed

lemma activeProtocolFork_nonzero: "activeProtocolFork cc ts \<noteq> 0"
proof (cases cc)
  case None
  then show ?thesis by (simp add: activeProtocolFork_def fork_defs)
next
  case (Some c)
  have "set (map snd (known_times (rev (fork_table c)))) \<subseteq> set (map fst (fork_table c))"
    using set_known_times [of "rev (fork_table c)"] by simp
  moreover have "0 \<notin> set (map fst (fork_table c))" by (simp add: fork_table_def fork_defs)
  ultimately show ?thesis
    using Some fixture_forks.active_member [of c ts] by (force simp: forkAmsterdam_def)
qed

definition chain_id_of :: "FixtureChainConfig option \<Rightarrow> u64" where
  "chain_id_of cc = (case cc of None \<Rightarrow> 0 | Some c \<Rightarrow> cc_ChainID c)"

lemma fixture_path_agrees:
  assumes laws: "hex_to_hash_law G" "block_hash_law G"
    and hashes: "fixture_hashes_ok (bk_Header (si_Block (ff_StatelessInput f)))"
    and txs: "buildTransactions G (fb_Transactions (bk_Body (si_Block (ff_StatelessInput f)))) = Inr txs"
    and wds: "buildWithdrawals G (fb_Withdrawals (bk_Body (si_Block (ff_StatelessInput f)))) = Inr wds"
    and hdr: "fixtureHeader G f = Inr hdr"
    and wit: "decodeHexArray (wt_State (si_Witness (ff_StatelessInput f))) = Inr state"
      "decodeHexArray (wt_Codes (si_Witness (ff_StatelessInput f))) = Inr codes"
      "decodeHexArray (wt_Headers (si_Witness (ff_StatelessInput f))) = Inr headers"
  shows "ZesuInputSSZPlain G f =
     ZesuInputSSZFromBlock G \<lparr>b_Header = hdr, b_Transactions = txs, b_Withdrawals = wds\<rparr>
       state codes headers (bal_bytes f) [] (chain_id_of (si_ChainConfig (ff_StatelessInput f)))
       (activeProtocolFork (si_ChainConfig (ff_StatelessInput f))
          (fh_Timestamp (bk_Header (si_Block (ff_StatelessInput f)))))"
proof -
  have root: "h_ParentBeaconRoot hdr =
      map_option (HexToHash G) (fh_ParentBeaconBlockRoot (bk_Header (si_Block (ff_StatelessInput f))))"
    using hdr by (auto simp: fixtureHeader_def Let_def res_simps)
  have root': "(case h_ParentBeaconRoot hdr of None \<Rightarrow> 0 | Some r \<Rightarrow> r) =
      (case fh_ParentBeaconBlockRoot (bk_Header (si_Block (ff_StatelessInput f))) of
         None \<Rightarrow> 0 | Some s \<Rightarrow> HexToHash G s)"
    by (simp add: root split: option.splits)
  have chain: "(if chain_id_of cc = 0 then 1 else chain_id_of cc) =
      (case cc of None \<Rightarrow> 1 | Some c \<Rightarrow> if cc_ChainID c \<noteq> 0 then cc_ChainID c else 1)" for cc
    by (simp add: chain_id_of_def split: option.splits)
  show ?thesis
    unfolding ZesuInputSSZPlain_def ZesuInputSSZFromBlock_def encodeSszStatelessInput_def
      encodeStatelessInputFromBlock_def encodeSszNewPayloadRequest_def
      encodeNewPayloadRequestFromBlock_def encodeSszExecutionWitness_eq
      payload_paths_agree [OF laws hashes hdr] Let_def txs wds wit res_bind.simps chain
    by (simp add: root' activeProtocolFork_nonzero)
qed

section \<open>Framing\<close>

lemma copy_prefix_then_body:
  assumes "length pre = 8" "length ssz \<le> m"
  shows "go_copy (go_copy (replicate (8 + m) z) 0 pre) 8 ssz = pre @ ssz @ replicate (m - length ssz) z"
  using assms by (simp add: go_copy_def min_def)

lemma frame_padding:
  fixes n :: nat
  shows "(n + 7) - (n + 7) mod 8 = n + (8 - n mod 8) mod 8"
proof -
  define q r where "q = n div 8" and "r = n mod 8"
  then have n: "n = r + 8 * q" and "r < 8" by simp_all
  then consider "r = 0" | "r = 1" | "r = 2" | "r = 3" | "r = 4" | "r = 5" | "r = 6" | "r = 7"
    by linarith
  then show ?thesis
    by cases (simp_all add: n ac_simps mod_Suc)
qed

lemma ZkvmFrame_eq:
  "ZkvmFrame ssz = le_bytes 8 (length ssz) @ ssz @ replicate ((8 - length ssz mod 8) mod 8) 0"
  unfolding ZkvmFrame_def Let_def frame_padding
  by (subst copy_prefix_then_body) simp_all

lemma unframe_ZkvmFrame:
  assumes "length ssz < 2 ^ 64"
  shows "take (le_nat (take 8 (ZkvmFrame ssz))) (drop 8 (ZkvmFrame ssz)) = ssz"
  using assms by (simp add: ZkvmFrame_eq le_nat_le_bytes)

lemma length_encode_witness:
  "length (encode_witness w) = 12 + length (encodeSszByteListList (w_state w)) +
     length (encodeSszByteListList (w_codes w)) + length (encodeSszByteListList (w_headers w))"
  by (simp add: encode_witness_def encodeExecutionWitnessFromArrays_eq Let_def)

lemma length_encodeSszWithdrawalList: "length (encodeSszWithdrawalList ws) = 44 * length ws"
  unfolding encodeSszWithdrawalList_def by (rule withdrawals.length_concat_enc)

lemma length_encode_request_lists:
  "length (encode_request_lists rs) = 4 * length rs + length (concat rs)"
proof -
  have "length (request_offsets off ls) = 4 * length ls" for off ls
    by (induction off ls rule: request_offsets.induct) simp_all
  then show ?thesis by (simp add: encode_request_lists_def del: length_concat)
qed

lemma length_encode_input:
  "length (encode_input i) =
     (let n = i_new_payload_request i
      in 62 + length (encode_payload (n_execution_payload n)) + 32 * length (n_versioned_hashes n) +
         length (encode_request_lists (n_execution_requests n)) + length (encode_witness (i_witness i)))"
  by (simp add: encode_input_def encodeStatelessInputContainer_eq encode_request_def Let_def
      hashes.length_concat_enc del: length_concat)

lemmas input_lengths =
  length_encode_input length_encode_payload payload_parts_length length_encode_witness
  length_encodeSszByteListList length_encodeSszWithdrawalList length_encode_request_lists

section \<open>Properties\<close>

definition sample_header :: Header where
  "sample_header =
     \<lparr>h_ParentHash = 7, h_UncleHash = 0, h_Coinbase = 9, h_Root = 11, h_TxHash = 0, h_ReceiptHash = 13,
      h_Bloom = 1, h_Difficulty = 0, h_Number = 5, h_GasLimit = 30, h_GasUsed = 21, h_Time = 99,
      h_Extra = [1, 2, 3], h_MixDigest = 4, h_Nonce = 0, h_BaseFee = Some 1000,
      h_WithdrawalsHash = None, h_BlobGasUsed = Some 6, h_ExcessBlobGas = None,
      h_ParentBeaconRoot = Some 8, h_RequestsHash = None, h_BlockAccessListHash = None,
      h_SlotNumber = Some 77\<rparr>"

definition sample_tx :: Transaction where
  "sample_tx = NewLegacyTx
     \<lparr>lt_Nonce = 1, lt_GasPrice = 2, lt_Gas = 3, lt_To = None, lt_Value = 4, lt_Data = [192, 1],
      lt_V = 27, lt_R = 5, lt_S = 6\<rparr>"

definition sample_block :: Block where
  "sample_block =
     \<lparr>b_Header = sample_header, b_Transactions = [sample_tx],
      b_Withdrawals = [\<lparr>wd_Index = 1, wd_Validator = 2, wd_Address = 3, wd_Amount = 4\<rparr>]\<rparr>"

lemma sample_marshal: "marshal_all sample_geth (b_Transactions sample_block) = Inr [[192, 1]]"
  by (simp add: marshal_all_def sample_block_def sample_tx_def sample_geth_def)

lemmas sample_defs = sample_header_def sample_block_def sample_tx_def

lemma live_path_decodes:
  assumes "ZesuInputSSZFromBlock G block state codes headers bal requests chainID fork = Inr out"
    and "length out < 2 ^ 32"
  shows "\<exists>raw. marshal_all G (b_Transactions block) = Inr raw \<and>
           decode_stateless_input out =
             Some (input_of_block G block state codes headers bal requests chainID fork raw)"
proof -
  obtain raw where raw: "marshal_all G (b_Transactions block) = Inr raw"
    and out: "out = encode_input
      (input_of_block G block state codes headers bal requests chainID fork raw)"
    using assms(1) by (auto simp: ZesuInputSSZFromBlock_eq)
  have "length (n_execution_requests (i_new_payload_request
      (input_of_block G block state codes headers bal requests chainID fork raw))) = 5"
    by (simp add: input_of_block_def)
  with assms(2) out raw show ?thesis by (auto intro: input.dec_enc)
qed

text \<open>
  C1: the live path is lossless. When \<open>ZesuInputSSZFromBlock\<close> returns bytes shorter than 4 GiB
  (the reach of the 32-bit offsets), the reference decoder reads back from them the block's
  payload fields, its raw transactions, withdrawals, block access list, versioned hashes, beacon
  root and execution requests, the witness, the chain id and the schema id.
\<close>

theorem live_path_roundtrip:
  assumes "ZesuInputSSZFromBlock G block state codes headers bal requests chainID fork = Inr out"
    and "length out < 2 ^ 32"
  shows "\<exists>raw. marshal_all G (b_Transactions block) = Inr raw \<and>
           decode_stateless_input out =
             Some (input_of_block G block state codes headers bal requests chainID fork raw)"
  using assms by (rule live_path_decodes)

theorem live_path_roundtrip_witness:
  "\<exists>out. ZesuInputSSZFromBlock sample_geth sample_block [[1, 2]] [[3]] [[4], [5, 6]] [9] [[0, 1], [2, 7]] 0 0 = Inr out \<and>
     decode_stateless_input out =
       Some (input_of_block sample_geth sample_block [[1, 2]] [[3]] [[4], [5, 6]] [9] [[0, 1], [2, 7]] 0 0 [[192, 1]])"
proof -
  let ?in = "input_of_block sample_geth sample_block [[1, 2]] [[3]] [[4], [5, 6]] [9] [[0, 1], [2, 7]] 0 0 [[192, 1]]"
  have ok: "ZesuInputSSZFromBlock sample_geth sample_block [[1, 2]] [[3]] [[4], [5, 6]] [9] [[0, 1], [2, 7]] 0 0 =
      Inr (encode_input ?in)"
    by (simp add: ZesuInputSSZFromBlock_eq sample_marshal)
      (simp add: base_fee_def sample_defs requests_ok_def request_ok_def)
  have "length (encode_input ?in) < 2 ^ 32"
    by (simp add: input_lengths input_of_block_def payload_of_block_def Let_def blob_hashes_def
        request_data_def sample_geth_def sample_defs upt_rec)
  from live_path_roundtrip [OF ok this] show ?thesis
    using ok by (simp add: sample_marshal)
qed

text \<open>
  C11: the live path fails exactly when one of its documented inputs is bad: a transaction that
  does not marshal, a base fee of 2^256 or more (where \<open>FillBytes\<close>-style filling runs out of the
  32-byte array and panics), or execution requests that are too short, of an unknown type, or not
  in strictly ascending order of type.
\<close>

theorem live_path_succeeds_iff:
  "(\<exists>out. ZesuInputSSZFromBlock G block state codes headers bal requests chainID fork = Inr out) \<longleftrightarrow>
     (\<exists>raw. marshal_all G (b_Transactions block) = Inr raw) \<and>
     base_fee (b_Header block) < 2 ^ 256 \<and> requests_ok requests"
  by (auto simp: ZesuInputSSZFromBlock_eq)

definition sample_hash_text :: string where
  "sample_hash_text = ''0x'' @ concat (replicate 32 ''ab'')"

definition sample_fixture :: FixtureFile where
  "sample_fixture =
     \<lparr>ff_Name = ''sample'', ff_Network = ''Amsterdam'',
      ff_StatelessInput =
        \<lparr>si_Block =
           \<lparr>bk_Header =
              \<lparr>fh_ParentHash = sample_hash_text, fh_OmmersHash = [], fh_Beneficiary = ''0x0c'',
               fh_StateRoot = sample_hash_text, fh_TransactionsRoot = [],
               fh_ReceiptsRoot = sample_hash_text, fh_WithdrawalsRoot = None, fh_LogsBloom = [],
               fh_Difficulty = ''0x0'', fh_Number = 3, fh_GasLimit = 4, fh_GasUsed = 5,
               fh_Timestamp = 6, fh_MixHash = sample_hash_text, fh_Nonce = [],
               fh_BaseFeePerGas = Some (JStr ''0x7''), fh_BlobGasUsed = None,
               fh_ExcessBlobGas = None, fh_ParentBeaconBlockRoot = None, fh_RequestsHash = None,
               fh_SlotNumber = None, fh_ExtraData = ''0x0102''\<rparr>,
            bk_Body =
              \<lparr>fb_Transactions =
                 [\<lparr>ft_Signature = \<lparr>fs_R = ''0x5'', fs_S = ''0x6'', fs_YParity = ''0x1'', fs_V = []\<rparr>,
                   ft_Transaction = [(''Legacy'', JObj [(''chain_id'', JNum ''1''), (''input'', JStr ''0xc001'')])]\<rparr>],
               fb_Ommers = [],
               fb_Withdrawals = [\<lparr>fw_Index = ''0x1'', fw_ValidatorIndex = ''0x2'',
                                  fw_Address = ''0x03'', fw_Amount = ''0x4''\<rparr>],
               fb_BlockAccessList = None\<rparr>\<rparr>,
         si_Witness = \<lparr>wt_State = [''0x0a0b''], wt_Codes = [], wt_Keys = [], wt_Headers = [''0x0c'']\<rparr>,
         si_ChainConfig = None\<rparr>,
      ff_Success = True\<rparr>"

text \<open>
  C7: the fixture path and the live path agree. A corpus fixture whose header hashes are spelled
  with 32 bytes, and which \<open>ZesuInputSSZPlain\<close> accepts, yields the same bytes as
  \<open>ZesuInputSSZFromBlock\<close> on the block built from it, with its decoded witness, its block access
  list, no execution requests, its chain id and the fork active at its timestamp.
\<close>

theorem fixture_path_matches_live:
  assumes "hex_to_hash_law G" "block_hash_law G"
    and "fixture_hashes_ok (bk_Header (si_Block (ff_StatelessInput f)))"
    and "ZesuInputSSZPlain G f = Inr out"
  shows "\<exists>hdr txs wds state codes headers.
     fixtureHeader G f = Inr hdr \<and>
     buildTransactions G (fb_Transactions (bk_Body (si_Block (ff_StatelessInput f)))) = Inr txs \<and>
     buildWithdrawals G (fb_Withdrawals (bk_Body (si_Block (ff_StatelessInput f)))) = Inr wds \<and>
     decodeHexArray (wt_State (si_Witness (ff_StatelessInput f))) = Inr state \<and>
     decodeHexArray (wt_Codes (si_Witness (ff_StatelessInput f))) = Inr codes \<and>
     decodeHexArray (wt_Headers (si_Witness (ff_StatelessInput f))) = Inr headers \<and>
     ZesuInputSSZFromBlock G \<lparr>b_Header = hdr, b_Transactions = txs, b_Withdrawals = wds\<rparr>
       state codes headers (bal_bytes f) [] (chain_id_of (si_ChainConfig (ff_StatelessInput f)))
       (activeProtocolFork (si_ChainConfig (ff_StatelessInput f))
          (fh_Timestamp (bk_Header (si_Block (ff_StatelessInput f))))) = Inr out"
proof -
  obtain txs wds hdr state codes headers where parts:
    "buildTransactions G (fb_Transactions (bk_Body (si_Block (ff_StatelessInput f)))) = Inr txs"
    "buildWithdrawals G (fb_Withdrawals (bk_Body (si_Block (ff_StatelessInput f)))) = Inr wds"
    "fixtureHeader G f = Inr hdr"
    "decodeHexArray (wt_State (si_Witness (ff_StatelessInput f))) = Inr state"
    "decodeHexArray (wt_Codes (si_Witness (ff_StatelessInput f))) = Inr codes"
    "decodeHexArray (wt_Headers (si_Witness (ff_StatelessInput f))) = Inr headers"
    using assms(4)
    by (auto simp: ZesuInputSSZPlain_def encodeSszStatelessInput_def encodeSszNewPayloadRequest_def
        encodeSszExecutionPayload_def encodeSszExecutionWitness_def Let_def res_simps)
  with fixture_path_agrees [OF assms(1-3) this] assms(4) show ?thesis by metis
qed

lemma sample_fixture_hashes: "fixture_hashes_ok (bk_Header (si_Block (ff_StatelessInput sample_fixture)))"
proof -
  have "spells32 sample_hash_text" by code_simp
  then show ?thesis by (simp add: fixture_hashes_ok_def sample_fixture_def)
qed

lemma sample_fixture_header:
  "\<exists>hdr. fixtureHeader sample_geth sample_fixture = Inr hdr \<and> base_fee hdr = 7"
proof -
  have "hexToBigInt ''0x0'' = Inr 0" "hexToBigInt ''0x7'' = Inr 7" by code_simp+
  then show ?thesis
    by (simp add: fixtureHeader_def sample_fixture_def rawJSONToBigInt_def Let_def base_fee_def
        json_type_error_def)
qed

lemma sample_fixture_txs:
  "\<exists>t. buildTransactions sample_geth
     (fb_Transactions (bk_Body (si_Block (ff_StatelessInput sample_fixture)))) = Inr [NewLegacyTx t] \<and>
     lt_Data t = [192, 1] \<and> lt_V t = 38"
proof -
  have "rawJSONToUint64 (Some (JNum ''1'')) = Inr 1" "legacyV 1 1 = 38"
    by (simp_all add: rawJSONToUint64_def rawJSONToBigInt_def ParseUint_def digit_val_def
        big_Uint64_def legacyV_def)
  moreover have "hexToUint64 ''0x1'' = Inr 1" "mustHexToBytes ''0xc001'' = [192, 1]"
    "unmarshal_LegacyTxBody [(''chain_id'', JNum ''1''), (''input'', JStr ''0xc001'')] =
       Inr \<lparr>e0_ChainID = Some (JNum ''1''), e0_Nonce = 0, e0_GasPrice = 0, e0_GasLimit = 0,
            e0_To = None, e0_Value = [], e0_Input = ''0xc001''\<rparr>"
    by code_simp+
  ultimately show ?thesis
    by (simp add: buildTransactions_def buildTx_def buildLegacy_def parseSig_def sample_fixture_def)
qed

lemma sample_fixture_rest:
  "decodeHexArray (wt_State (si_Witness (ff_StatelessInput sample_fixture))) = Inr [[10, 11]]"
  "decodeHexArray (wt_Codes (si_Witness (ff_StatelessInput sample_fixture))) = Inr []"
  "decodeHexArray (wt_Headers (si_Witness (ff_StatelessInput sample_fixture))) = Inr [[12]]"
  "buildWithdrawals sample_geth
     (fb_Withdrawals (bk_Body (si_Block (ff_StatelessInput sample_fixture)))) =
   Inr [\<lparr>wd_Index = 1, wd_Validator = 2, wd_Address = 3, wd_Amount = 4\<rparr>]"
  by code_simp+

lemma sample_fixture_config:
  "bal_bytes sample_fixture = []" "si_ChainConfig (ff_StatelessInput sample_fixture) = None"
  "fh_Timestamp (bk_Header (si_Block (ff_StatelessInput sample_fixture))) = 6"
  by (simp_all add: sample_fixture_def bal_bytes_def)

lemma length_singleton: "length [x] = 1"
  by simp

lemma sample_fixture_encodes: "\<exists>out. ZesuInputSSZPlain sample_geth sample_fixture = Inr out"
proof -
  obtain hdr where hdr: "fixtureHeader sample_geth sample_fixture = Inr hdr" "base_fee hdr = 7"
    using sample_fixture_header by blast
  obtain t where txs: "buildTransactions sample_geth
      (fb_Transactions (bk_Body (si_Block (ff_StatelessInput sample_fixture)))) = Inr [NewLegacyTx t]"
    using sample_fixture_txs by blast
  show ?thesis
    unfolding fixture_path_agrees [OF sample_laws(1,2) sample_fixture_hashes txs
        sample_fixture_rest(4) hdr(1) sample_fixture_rest(1-3)] ZesuInputSSZFromBlock_eq
    by (simp add: hdr(2) marshal_all_def sample_geth_def requests_ok_def)
qed

theorem fixture_path_matches_live_witness:
  "\<exists>out hdr txs wds.
     ZesuInputSSZPlain sample_geth sample_fixture = Inr out \<and>
     fixtureHeader sample_geth sample_fixture = Inr hdr \<and> length txs = 1 \<and> length wds = 1 \<and>
     ZesuInputSSZFromBlock sample_geth \<lparr>b_Header = hdr, b_Transactions = txs, b_Withdrawals = wds\<rparr>
       [[10, 11]] [] [[12]] [] [] 0 (activeProtocolFork None 6) = Inr out"
proof -
  obtain hdr where hdr: "fixtureHeader sample_geth sample_fixture = Inr hdr" "base_fee hdr = 7"
    using sample_fixture_header by blast
  obtain t where txs: "buildTransactions sample_geth
      (fb_Transactions (bk_Body (si_Block (ff_StatelessInput sample_fixture)))) = Inr [NewLegacyTx t]"
    using sample_fixture_txs by blast
  obtain out where out: "ZesuInputSSZPlain sample_geth sample_fixture = Inr out"
    using sample_fixture_encodes by blast
  from fixture_path_matches_live [OF sample_laws(1,2) sample_fixture_hashes out]
  have "ZesuInputSSZFromBlock sample_geth
      \<lparr>b_Header = hdr, b_Transactions = [NewLegacyTx t],
       b_Withdrawals = [\<lparr>wd_Index = 1, wd_Validator = 2, wd_Address = 3, wd_Amount = 4\<rparr>]\<rparr>
      [[10, 11]] [] [[12]] [] [] 0 (activeProtocolFork None 6) = Inr out"
    by (simp add: hdr txs sample_fixture_rest sample_fixture_config chain_id_of_def)
  with out hdr(1) show ?thesis by (intro exI conjI) (assumption | rule length_singleton)+
qed

text \<open>
  \<open>ZkvmFrame\<close> is an invertible framing: the output is a multiple of 8 bytes long, with fewer
  than 8 bytes of zero padding; its first 8 bytes are the payload's length, little-endian, and the
  payload follows. An input of less than 2^64 bytes is read back from its frame.
\<close>

lemma zkvm_frame_invertible:
  assumes "length ssz < 2 ^ 64"
  shows "length (ZkvmFrame ssz) mod 8 = 0 \<and> length (ZkvmFrame ssz) < length ssz + 16 \<and>
    le_nat (take 8 (ZkvmFrame ssz)) = length ssz \<and>
    take (le_nat (take 8 (ZkvmFrame ssz))) (drop 8 (ZkvmFrame ssz)) = ssz \<and>
    set (drop (8 + length ssz) (ZkvmFrame ssz)) \<subseteq> {0}"
proof -
  have "(8 - length ssz mod 8) mod 8 < 8" by simp
  moreover have "(8 + (length ssz + (8 - length ssz mod 8) mod 8)) mod 8 = 0"
    unfolding frame_padding [symmetric] by (simp add: minus_mod_eq_mult_div)
  ultimately show ?thesis
    using assms by (auto simp: ZkvmFrame_eq le_nat_le_bytes)
qed

lemma zkvm_frame_invertible_example:
  "length (ZkvmFrame [1, 2, 3]) mod 8 = 0 \<and>
   take (le_nat (take 8 (ZkvmFrame [1, 2, 3]))) (drop 8 (ZkvmFrame [1, 2, 3])) = [1, 2, 3]"
proof -
  have "length [1, 2, 3 :: byte] < 2 ^ 64" by simp
  from zkvm_frame_invertible [OF this] show ?thesis by blast
qed

end
