(* ===== verification/Metrics.thy ===== *)
theory Metrics
  imports Prelude
begin

text \<open>
  \<open>metrics/metrics.go\<close>: the Prometheus series the program exports, as one record. A counter
  vector is a count per label values, a histogram vector the observations per label in the
  order in which they were made, and a gauge the value last set.
\<close>

record Metrics =
  m_BlockVerifiedTotal :: "string \<times> string \<Rightarrow> nat"
  m_VerificationDurationMs :: "string \<Rightarrow> int list"
  m_ELPoolSize :: nat
  m_BlockHeight :: u64

definition zero_Metrics :: Metrics where
  "zero_Metrics =
     \<lparr>m_BlockVerifiedTotal = (\<lambda>_. 0), m_VerificationDurationMs = (\<lambda>_. []),
      m_ELPoolSize = 0, m_BlockHeight = 0\<rparr>"

definition inc_verified :: "string \<Rightarrow> string \<Rightarrow> Metrics \<Rightarrow> Metrics" where
  "inc_verified guest result m =
     m\<lparr>m_BlockVerifiedTotal :=
         (m_BlockVerifiedTotal m)((guest, result) := m_BlockVerifiedTotal m (guest, result) + 1)\<rparr>"

definition observe_duration :: "string \<Rightarrow> int \<Rightarrow> Metrics \<Rightarrow> Metrics" where
  "observe_duration guest ms m =
     m\<lparr>m_VerificationDurationMs :=
         (m_VerificationDurationMs m)(guest := m_VerificationDurationMs m guest @ [ms])\<rparr>"

end
