(* ===== verification/Pool.thy ===== *)
theory Pool
  imports Json Metrics
begin

text \<open>
  \<open>pool/pool.go\<close>: the pool of execution-layer nodes. A JSON-RPC transport is a parameter: it
  says what the response body to a request decodes to as JSON, or the error of the HTTP client
  or of the JSON syntax. The buffered channel \<open>Heads\<close> is the list of numbers waiting in it.
\<close>

section \<open>JSON-RPC calls\<close>

type_synonym transport = "string \<Rightarrow> string \<Rightarrow> json list \<Rightarrow> json res"

record rpcError =
  re_Code :: int
  re_Message :: string

record rpcResponse =
  rr_Result :: raw_message
  rr_Error :: "rpcError option"

definition unmarshal_rpcError :: "members \<Rightarrow> rpcError res" where
  "unmarshal_rpcError ms =
     res_bind (field_int ''code'' ms) (\<lambda>c.
     res_bind (field_string ''message'' ms) (\<lambda>m.
       Inr \<lparr>re_Code = c, re_Message = m\<rparr>))"

definition unmarshal_rpcResponse :: "members \<Rightarrow> rpcResponse res" where
  "unmarshal_rpcResponse ms =
     res_bind (field_with (unmarshal_ptr (unmarshal_struct unmarshal_rpcError)) None ''error'' ms) (\<lambda>e.
       Inr \<lparr>rr_Result = field_raw ''result'' ms, rr_Error = e\<rparr>)"

definition call :: "transport \<Rightarrow> string \<Rightarrow> string \<Rightarrow> json list \<Rightarrow> raw_message res" where
  "call T url method params =
     res_bind (T url method params) (\<lambda>body.
     res_bind (unmarshal_struct unmarshal_rpcResponse body) (\<lambda>rpcResp.
       case rr_Error rpcResp of
         Some e \<Rightarrow> Inl (Errorf (''rpc '' @ method @ '': '' @ re_Message e))
       | None \<Rightarrow> Inr (rr_Result rpcResp)))"

text \<open>\<open>json.Unmarshal\<close> of a raw message: an unset one is the empty text, a syntax error.\<close>

definition unmarshal_raw :: "(json \<Rightarrow> 'a res) \<Rightarrow> raw_message \<Rightarrow> 'a res" where
  "unmarshal_raw conv raw =
     (case raw of None \<Rightarrow> Inl (Errorf ''unexpected end of JSON input'') | Some v \<Rightarrow> conv v)"

definition hexNum :: "u64 \<Rightarrow> string" where
  "hexNum n = ''0x'' @ format_digits 16 (unat n)"

definition blockNumber :: "transport \<Rightarrow> string \<Rightarrow> u64 res" where
  "blockNumber T url =
     res_bind (call T url ''eth_blockNumber'' []) (\<lambda>raw.
     res_bind (unmarshal_raw (unmarshal_string []) raw) (\<lambda>hexStr.
       ParseUint_res (TrimPrefix hexStr ''0x'') 16))"

definition probe :: "transport \<Rightarrow> string \<Rightarrow> bool" where
  "probe T url =
     (case blockNumber T url of
        Inl e \<Rightarrow> False
      | Inr num \<Rightarrow>
          (case call T url ''debug_executionWitness'' [JStr (hexNum num)] of
             Inl e \<Rightarrow> False
           | Inr _ \<Rightarrow> True))"

section \<open>The pool\<close>

definition heads_cap :: nat where
  "heads_cap = 32"

definition probeRetryMax :: nat where
  "probeRetryMax = 60"

record Pool =
  pl_nodes :: "string list"
  pl_robin :: u64
  pl_Heads :: "u64 list"
  pl_seen :: u64

definition new_pool :: "string list \<Rightarrow> Pool" where
  "new_pool nodes = \<lparr>pl_nodes = nodes, pl_robin = 0, pl_Heads = [], pl_seen = 0\<rparr>"

text \<open>
  One attempt probes every URL in its own goroutine, and each healthy URL is appended when its
  probe ends: \<open>order i\<close> is the order in which the probes of attempt \<open>i\<close> end, and \<open>W i\<close> the
  transport as it behaves during that attempt.
\<close>

definition attempt :: "(nat \<Rightarrow> transport) \<Rightarrow> (nat \<Rightarrow> string list \<Rightarrow> string list) \<Rightarrow> nat \<Rightarrow> string list \<Rightarrow> string list"
  where "attempt W order i urls = order i (filter (probe (W i)) urls)"

function New_loop ::
  "(nat \<Rightarrow> transport) \<Rightarrow> (nat \<Rightarrow> string list \<Rightarrow> string list) \<Rightarrow> string list \<Rightarrow> Metrics \<Rightarrow> nat \<Rightarrow>
   (Pool \<times> Metrics) res" where
  "New_loop W order urls m i =
     (if probeRetryMax < i then
        Inl (Errorf (''no EL nodes support debug_executionWitness after '' @ itoa probeRetryMax @ '' attempts''))
      else
        let healthy = attempt W order i urls
        in if 0 < length healthy then Inr (new_pool healthy, m\<lparr>m_ELPoolSize := length healthy\<rparr>)
           else New_loop W order urls m (i + 1))"
  by auto

termination
  by (relation "measure (\<lambda>(_, _, _, _, i). Suc probeRetryMax - i)") auto

declare New_loop.simps [simp del]

definition New ::
  "(nat \<Rightarrow> transport) \<Rightarrow> (nat \<Rightarrow> string list \<Rightarrow> string list) \<Rightarrow> string list \<Rightarrow> Metrics \<Rightarrow>
   (Pool \<times> Metrics) res" where
  "New W order urls m = New_loop W order urls m 1"

text \<open>\<open>robin\<close> is an atomic 64-bit counter that wraps around.\<close>

definition next_node :: "Pool \<Rightarrow> string \<times> Pool" where
  "next_node p =
     (if length (pl_nodes p) = 0 then ([], p)
      else let robin = pl_robin p + 1;
               idx = robin - 1
           in (pl_nodes p ! unat (idx mod of_nat (length (pl_nodes p))), p\<lparr>pl_robin := robin\<rparr>))"

definition Pick :: "Pool \<Rightarrow> string \<times> Pool" where
  "Pick p = next_node p"

definition CallRaw :: "transport \<Rightarrow> string \<Rightarrow> string \<Rightarrow> json list \<Rightarrow> raw_message res" where
  "CallRaw T url method params = call T url method params"

text \<open>A send in a \<open>select\<close> with a \<open>default\<close>: a full channel drops the number.\<close>

definition try_send :: "u64 \<Rightarrow> u64 list \<Rightarrow> u64 list" where
  "try_send num ch = (if length ch < heads_cap then ch @ [num] else ch)"

definition poll :: "transport \<Rightarrow> Pool \<Rightarrow> Pool" where
  "poll T p =
     (let (url, p) = next_node p
      in if url = [] then p
         else (case blockNumber T url of
                 Inl e \<Rightarrow> p
               | Inr num \<Rightarrow>
                   if pl_seen p < num
                   then p\<lparr>pl_seen := num, pl_Heads := try_send num (pl_Heads p)\<rparr>
                   else p))"

section \<open>The contract of a node pool\<close>

text \<open>
  What the fetching code relies on: picking a node leaves the set of nodes as it is and returns
  one of them, or the empty string when there is none. A valid pool has fewer nodes than a
  64-bit counter can count, as any slice has.
\<close>

locale node_pool =
  fixes pick :: "'p \<Rightarrow> string \<times> 'p"
    and members :: "'p \<Rightarrow> string set"
    and valid :: "'p \<Rightarrow> bool"
  assumes pick_valid: "valid p \<Longrightarrow> valid (snd (pick p))"
    and pick_members: "members (snd (pick p)) = members p"
    and pick_in: "valid p \<Longrightarrow> members p \<noteq> {} \<Longrightarrow> fst (pick p) \<in> members p"
    and pick_none: "members p = {} \<Longrightarrow> fst (pick p) = []"
begin

fun picks :: "nat \<Rightarrow> 'p \<Rightarrow> string list \<times> 'p" where
  "picks 0 p = ([], p)"
| "picks (Suc n) p = (let (u, p') = pick p; (us, p'') = picks n p' in (u # us, p''))"

lemma picks_members: "members (snd (picks n p)) = members p"
  by (induction n arbitrary: p) (simp_all add: split_beta pick_members)

lemma picks_subset: "valid p \<Longrightarrow> members p \<noteq> {} \<Longrightarrow> set (fst (picks n p)) \<subseteq> members p"
proof (induction n arbitrary: p)
  case (Suc n)
  from Suc.IH [of "snd (pick p)"] Suc.prems show ?case
    by (simp add: split_beta pick_members pick_in pick_valid)
qed simp

lemma pick_empty_iff:
  assumes "valid p" "[] \<notin> members p"
  shows "fst (pick p) = [] \<longleftrightarrow> members p = {}"
  using assms pick_in [of p] pick_none [of p] by force

end

definition pool_ok :: "Pool \<Rightarrow> bool" where
  "pool_ok p \<longleftrightarrow>
     sorted_wrt (<) (pl_Heads p) \<and> list_all (\<lambda>n. n \<le> pl_seen p) (pl_Heads p) \<and>
     length (pl_Heads p) \<le> heads_cap"

definition nodes_of :: "Pool \<Rightarrow> string set" where
  "nodes_of p = set (pl_nodes p)"

lemma unat_index:
  fixes w :: u64
  assumes "0 < n" "n < 2 ^ 64"
  shows "unat (w mod of_nat n) = unat w mod n"
  using assms by (simp add: unat_mod unat_of_nat)

lemma next_node_eq:
  assumes "pl_nodes p \<noteq> []" "length (pl_nodes p) < 2 ^ 64"
  shows "next_node p =
    (pl_nodes p ! (unat (pl_robin p) mod length (pl_nodes p)), p\<lparr>pl_robin := pl_robin p + 1\<rparr>)"
  using assms unat_index [of "length (pl_nodes p)" "pl_robin p"]
  by (simp add: next_node_def Let_def)

lemma next_node_keeps:
  "pl_nodes (snd (next_node p)) = pl_nodes p" "pl_Heads (snd (next_node p)) = pl_Heads p"
  "pl_seen (snd (next_node p)) = pl_seen p"
  by (simp_all add: next_node_def Let_def)

definition pool_valid :: "Pool \<Rightarrow> bool" where
  "pool_valid p \<longleftrightarrow> length (pl_nodes p) < 2 ^ 64"

interpretation el_pool: node_pool next_node nodes_of pool_valid
proof unfold_locales
  fix p
  show "nodes_of (snd (next_node p)) = nodes_of p"
    by (simp add: nodes_of_def next_node_keeps)
  show "pool_valid (snd (next_node p))" if "pool_valid p"
    using that by (simp add: pool_valid_def next_node_keeps)
  show "fst (next_node p) \<in> nodes_of p" if "pool_valid p" "nodes_of p \<noteq> {}"
    using that by (simp add: nodes_of_def pool_valid_def next_node_eq)
  show "fst (next_node p) = []" if "nodes_of p = {}"
    using that by (simp add: nodes_of_def next_node_def)
qed

section \<open>Round robin\<close>

text \<open>\<open>n\<close> consecutive \<open>Pick\<close> calls.\<close>

fun picks :: "nat \<Rightarrow> Pool \<Rightarrow> string list \<times> Pool" where
  "picks 0 p = ([], p)"
| "picks (Suc n) p = (let (u, p') = Pick p; (us, p'') = picks n p' in (u # us, p''))"

lemma picks_eq:
  assumes "pl_nodes p \<noteq> []" "length (pl_nodes p) < 2 ^ 64" "unat (pl_robin p) + n \<le> 2 ^ 64"
  shows "fst (picks n p) =
    map (\<lambda>i. pl_nodes p ! ((unat (pl_robin p) + i) mod length (pl_nodes p))) [0..<n]"
  using assms
proof (induction n arbitrary: p)
  case (Suc n)
  let ?q = "p\<lparr>pl_robin := pl_robin p + 1\<rparr>"
  have step: "next_node p = (pl_nodes p ! (unat (pl_robin p) mod length (pl_nodes p)), ?q)"
    using Suc.prems by (intro next_node_eq)
  show ?case
  proof (cases n)
    case 0
    then show ?thesis by (simp add: Pick_def step)
  next
    case (Suc k)
    have robin: "unat (pl_robin p + 1) = Suc (unat (pl_robin p))"
      using \<open>unat (pl_robin p) + Suc n \<le> 2 ^ 64\<close> Suc by (simp add: unat_word_ariths)
    have "fst (picks n ?q) =
        map (\<lambda>i. pl_nodes p ! ((unat (pl_robin p) + Suc i) mod length (pl_nodes p))) [0..<n]"
      using Suc.IH [of ?q] Suc.prems by (simp add: robin)
    moreover have "[0..<Suc n] = 0 # map Suc [0..<n]"
      by (simp add: map_Suc_upt upt_conv_Cons del: upt_Suc)
    ultimately show ?thesis
      by (simp add: Pick_def step split_beta del: upt_Suc)
  qed
qed simp

lemma map_nth_rotate:
  assumes "xs \<noteq> []"
  shows "map (\<lambda>i. xs ! ((r + i) mod length xs)) [0..<length xs] = rotate r xs"
  using assms by (intro nth_equalityI) (simp_all add: nth_rotate)

section \<open>Start-up\<close>

lemma New_loop_Inr:
  "New_loop W order urls m i = Inr (p, m') \<Longrightarrow>
     \<exists>k. i \<le> k \<and> k \<le> probeRetryMax \<and> (\<forall>j. i \<le> j \<and> j < k \<longrightarrow> attempt W order j urls = []) \<and>
         attempt W order k urls \<noteq> [] \<and> p = new_pool (attempt W order k urls) \<and>
         m' = m\<lparr>m_ELPoolSize := length (attempt W order k urls)\<rparr>"
proof (induction W order urls m i rule: New_loop.induct)
  case (1 W order urls m i)
  have i: "i \<le> probeRetryMax"
    using "1.prems" by (simp add: New_loop.simps [of _ _ _ _ i] split: if_splits)
  show ?case
  proof (cases "attempt W order i urls = []")
    case True
    with "1.prems" i have "New_loop W order urls m (i + 1) = Inr (p, m')"
      by (simp add: New_loop.simps [of _ _ _ _ i])
    with "1.IH" i True obtain k where k: "i + 1 \<le> k" "k \<le> probeRetryMax"
      "\<forall>j. i + 1 \<le> j \<and> j < k \<longrightarrow> attempt W order j urls = []"
      "attempt W order k urls \<noteq> []" "p = new_pool (attempt W order k urls)"
      "m' = m\<lparr>m_ELPoolSize := length (attempt W order k urls)\<rparr>"
      by (auto simp: not_less)
    then have "attempt W order j urls = []" if "i \<le> j" "j < k" for j
      using that True by (cases "j = i") auto
    with k show ?thesis by (intro exI [of _ k]) auto
  next
    case False
    with "1.prems" i show ?thesis
      by (intro exI [of _ i]) (auto simp: New_loop.simps [of _ _ _ _ i] Let_def)
  qed
qed

lemma New_loop_Inl:
  "(\<exists>e. New_loop W order urls m i = Inl e) \<longleftrightarrow>
     (\<forall>j. i \<le> j \<and> j \<le> probeRetryMax \<longrightarrow> attempt W order j urls = [])"
proof (induction W order urls m i rule: New_loop.induct)
  case (1 W order urls m i)
  have "(\<forall>j. i \<le> j \<and> j \<le> probeRetryMax \<longrightarrow> attempt W order j urls = []) \<longleftrightarrow>
      (i \<le> probeRetryMax \<longrightarrow> attempt W order i urls = []) \<and>
      (\<forall>j. i + 1 \<le> j \<and> j \<le> probeRetryMax \<longrightarrow> attempt W order j urls = [])"
    by (metis Suc_eq_plus1 Suc_leD le_neq_implies_less order.refl less_eq_Suc_le)
  with 1 show ?case
    by (subst New_loop.simps) (auto simp: not_less Let_def)
qed

section \<open>Polling\<close>

lemma sorted_append_max:
  assumes "sorted_wrt (<) xs" "list_all (\<lambda>x. x \<le> (m :: 'a :: linorder)) xs" "m < n"
  shows "sorted_wrt (<) (xs @ [n]) \<and> list_all (\<lambda>x. x \<le> n) (xs @ [n])"
  using assms by (auto simp: sorted_wrt_append list_all_iff)

lemma poll_cases:
  obtains (same) "pl_Heads (poll T p) = pl_Heads p" "pl_seen (poll T p) = pl_seen p"
  | (head) n where "pl_seen p < n" "pl_seen (poll T p) = n"
      "pl_Heads (poll T p) = try_send n (pl_Heads p)"
proof -
  obtain url q where q: "next_node p = (url, q)" by (cases "next_node p")
  then have "pl_Heads q = pl_Heads p" "pl_seen q = pl_seen p"
    using next_node_keeps [of p] by simp_all
  note eqs = this q
  show ?thesis
  proof (cases "url = []")
    case True
    with eqs show ?thesis by (intro same) (simp_all add: poll_def)
  next
    case False
    show ?thesis
    proof (cases "blockNumber T url")
      case (Inl e)
      with False eqs show ?thesis by (intro same) (simp_all add: poll_def)
    next
      case (Inr n)
      show ?thesis
      proof (cases "pl_seen p < n")
        case True
        with False eqs Inr show ?thesis by (intro head [of n]) (simp_all add: poll_def)
      next
        case False
        with \<open>url \<noteq> []\<close> eqs Inr show ?thesis by (intro same) (simp_all add: poll_def)
      qed
    qed
  qed
qed

lemma poll_pool_ok:
  assumes "pool_ok p"
  shows "pool_ok (poll T p)"
proof (cases rule: poll_cases [of T p])
  case same
  with assms show ?thesis by (simp add: pool_ok_def)
next
  case (head n)
  have "sorted_wrt (<) (pl_Heads p @ [n]) \<and> list_all (\<lambda>x. x \<le> n) (pl_Heads p @ [n])"
    using assms head(1) by (intro sorted_append_max) (auto simp: pool_ok_def)
  with assms head show ?thesis
    by (auto simp: pool_ok_def try_send_def)
qed

section \<open>Properties\<close>

text \<open>
  Round robin is fair. As long as the 64-bit counter does not wrap, as many consecutive picks as
  the pool has nodes visit every node once, in the order of the pool, starting where the counter
  stands.
\<close>

lemma pick_round_robin:
  assumes "pl_nodes p \<noteq> []" and "unat (pl_robin p) + length (pl_nodes p) \<le> 2 ^ 64"
    and "length (pl_nodes p) < 2 ^ 64"
  shows "fst (picks (length (pl_nodes p)) p) = rotate (unat (pl_robin p)) (pl_nodes p)"
  using picks_eq [OF assms(1,3,2)] map_nth_rotate [OF assms(1)] by simp

lemma pick_round_robin_example:
  "fst (picks 3 \<lparr>pl_nodes = [''a'', ''b'', ''c''], pl_robin = 7, pl_Heads = [], pl_seen = 0\<rparr>) =
     [''b'', ''c'', ''a'']"
proof -
  let ?p = "\<lparr>pl_nodes = [''a'', ''b'', ''c''], pl_robin = 7, pl_Heads = [], pl_seen = 0\<rparr>"
  have "fst (picks (length (pl_nodes ?p)) ?p) = rotate (unat (pl_robin ?p)) (pl_nodes ?p)"
    by (rule pick_round_robin) simp_all
  moreover have "length (pl_nodes ?p) = 3" by simp
  moreover have "rotate (unat (pl_robin ?p)) (pl_nodes ?p) = [''b'', ''c'', ''a'']" by code_simp
  ultimately show ?thesis by (simp only:)
qed

text \<open>
  C39: start-up. \<open>New\<close> fails exactly when in each of the 60 attempts no URL passes its probe; when it
  succeeds, the pool holds the URLs that passed in the first attempt in which any did, each as
  often as it was configured and in the order in which the probes ended, with an empty channel,
  and the pool-size gauge is their number.
\<close>

theorem pool_New:
  assumes "\<forall>i xs. mset (order i xs) = mset xs"
  shows "((\<exists>e. New W order urls m = Inl e) \<longleftrightarrow>
            (\<forall>i. 1 \<le> i \<and> i \<le> 60 \<longrightarrow> filter (probe (W i)) urls = [])) \<and>
         (\<forall>p m'. New W order urls m = Inr (p, m') \<longrightarrow>
            (\<exists>k. 1 \<le> k \<and> k \<le> 60 \<and> (\<forall>j. 1 \<le> j \<and> j < k \<longrightarrow> filter (probe (W j)) urls = []) \<and>
              pl_nodes p \<noteq> [] \<and> mset (pl_nodes p) = mset (filter (probe (W k)) urls) \<and>
              pl_Heads p = [] \<and> m_ELPoolSize m' = length (pl_nodes p)))"
proof -
  have none: "attempt W order i urls = [] \<longleftrightarrow> filter (probe (W i)) urls = []" for i
    using assms by (metis attempt_def mset_zero_iff)
  have "(\<exists>e. New W order urls m = Inl e) \<longleftrightarrow>
      (\<forall>i. 1 \<le> i \<and> i \<le> 60 \<longrightarrow> filter (probe (W i)) urls = [])"
    using New_loop_Inl [of W order urls m 1] by (simp add: New_def probeRetryMax_def none)
  moreover have "\<exists>k. 1 \<le> k \<and> k \<le> 60 \<and> (\<forall>j. 1 \<le> j \<and> j < k \<longrightarrow> filter (probe (W j)) urls = []) \<and>
      pl_nodes p \<noteq> [] \<and> mset (pl_nodes p) = mset (filter (probe (W k)) urls) \<and>
      pl_Heads p = [] \<and> m_ELPoolSize m' = length (pl_nodes p)"
    if "New W order urls m = Inr (p, m')" for p m'
  proof -
    have loop: "New_loop W order urls m 1 = Inr (p, m')" using that by (simp only: New_def)
    obtain k where "1 \<le> k" "k \<le> 60" "\<forall>j. 1 \<le> j \<and> j < k \<longrightarrow> filter (probe (W j)) urls = []"
      "attempt W order k urls \<noteq> []" "p = new_pool (attempt W order k urls)"
      "m' = m\<lparr>m_ELPoolSize := length (attempt W order k urls)\<rparr>"
      using New_loop_Inr [OF loop] unfolding none probeRetryMax_def by blast
    moreover have "mset (attempt W order k urls) = mset (filter (probe (W k)) urls)"
      using assms by (simp only: attempt_def)
    ultimately show ?thesis by (intro exI [of _ k]) (simp add: new_pool_def)
  qed
  ultimately show ?thesis by blast
qed

definition sample_node :: "u64 \<Rightarrow> transport" where
  "sample_node n url method params = Inr (JObj [(''result'', JStr (hexNum n))])"

lemma result_field: "unmarshal_rpcResponse [(''result'', v)] =
    Inr \<lparr>rr_Result = Some v, rr_Error = None\<rparr>"
  by (simp add: unmarshal_rpcResponse_def field_with_def field_raw_def values_of_def ToLower_def)

lemma TrimPrefix_0x [simp]: "TrimPrefix (''0x'' @ s) ''0x'' = s"
  by (simp add: TrimPrefix_def HasPrefix_def)

lemma blockNumber_answer:
  assumes "T url ''eth_blockNumber'' [] = Inr (JObj [(''result'', JStr (hexNum n))])"
  shows "blockNumber T url = Inr n"
  using assms TrimPrefix_0x [of "format_digits 16 (unat n)"]
  by (simp add: blockNumber_def call_def result_field unmarshal_raw_def hexNum_def
      ParseUint_format del: TrimPrefix_0x)

lemma probe_sample [simp]: "probe (sample_node n) url"
  using blockNumber_answer [of "sample_node n" url n]
  by (simp add: probe_def sample_node_def call_def result_field)

lemma probe_refused [simp]: "\<not> probe (\<lambda>_ _ _. Inl e) url"
  by (simp add: probe_def blockNumber_def call_def)

theorem pool_New_witness:
  "\<exists>p m. New (\<lambda>i. if i < 3 then (\<lambda>_ _ _. Inl (Errorf ''refused'')) else sample_node 5)
       (\<lambda>i. rev) [''u'', ''v''] zero_Metrics = Inr (p, m) \<and>
     mset (pl_nodes p) = mset [''u'', ''v'']"
proof -
  let ?W = "\<lambda>i. if i < (3 :: nat) then (\<lambda>_ _ _. Inl (Errorf ''refused'')) else sample_node 5"
  let ?N = "New ?W (\<lambda>i. rev) [''u'', ''v''] zero_Metrics"
  have "\<forall>i xs. mset ((\<lambda>i. rev) (i :: nat) xs) = mset (xs :: string list)" by simp
  note new = pool_New [where W = ?W, OF this, of "[''u'', ''v'']" zero_Metrics]
  have flt: "filter (probe (?W k)) [''u'', ''v''] = (if k < 3 then [] else [''u'', ''v''])" for k
    by simp
  have "\<not> (\<forall>i. 1 \<le> i \<and> i \<le> 60 \<longrightarrow> (if i < (3 :: nat) then [] else [''u'', ''v'']) = [])"
    by (intro notI, drule spec [of _ 3]) simp
  then have "\<not> (\<exists>e. ?N = Inl e)"
    using new [unfolded flt, THEN conjunct1] by blast
  then obtain p m where N: "?N = Inr (p, m)" by (metis surj_pair sum.exhaust)
  then obtain k where "pl_nodes p \<noteq> []" "mset (pl_nodes p) = mset (if k < (3 :: nat) then [] else [''u'', ''v''])"
    using new [unfolded flt, THEN conjunct2] by blast
  then have "mset (pl_nodes p) = mset [''u'', ''v'']"
    by (cases "k < 3") simp_all
  with N show ?thesis by blast
qed

end
