(* ===== verification/Jwt.thy ===== *)
theory Jwt
  imports Go_Strings
begin

text \<open>
  The token of \<open>fetchBALFromEngine\<close> (\<open>pipeline/pipeline.go\<close>): an HS256 JSON web token with an
  \<open>iat\<close> claim. The parts of Go's standard library the function calls are modelled here:
  \<open>base64.RawURLEncoding\<close>, \<open>crypto/sha256\<close> and \<open>crypto/hmac\<close>.
\<close>

unbundle bit_operations_syntax

section \<open>SHA-256\<close>

definition sha256_K :: "u32 list" where
  "sha256_K =
     [0x428a2f98, 0x71374491, 0xb5c0fbcf, 0xe9b5dba5, 0x3956c25b, 0x59f111f1, 0x923f82a4, 0xab1c5ed5,
      0xd807aa98, 0x12835b01, 0x243185be, 0x550c7dc3, 0x72be5d74, 0x80deb1fe, 0x9bdc06a7, 0xc19bf174,
      0xe49b69c1, 0xefbe4786, 0x0fc19dc6, 0x240ca1cc, 0x2de92c6f, 0x4a7484aa, 0x5cb0a9dc, 0x76f988da,
      0x983e5152, 0xa831c66d, 0xb00327c8, 0xbf597fc7, 0xc6e00bf3, 0xd5a79147, 0x06ca6351, 0x14292967,
      0x27b70a85, 0x2e1b2138, 0x4d2c6dfc, 0x53380d13, 0x650a7354, 0x766a0abb, 0x81c2c92e, 0x92722c85,
      0xa2bfe8a1, 0xa81a664b, 0xc24b8b70, 0xc76c51a3, 0xd192e819, 0xd6990624, 0xf40e3585, 0x106aa070,
      0x19a4c116, 0x1e376c08, 0x2748774c, 0x34b0bcb5, 0x391c0cb3, 0x4ed8aa4a, 0x5b9cca4f, 0x682e6ff3,
      0x748f82ee, 0x78a5636f, 0x84c87814, 0x8cc70208, 0x90befffa, 0xa4506ceb, 0xbef9a3f7, 0xc67178f2]"

definition sha256_H0 :: "u32 list" where
  "sha256_H0 =
     [0x6a09e667, 0xbb67ae85, 0x3c6ef372, 0xa54ff53a, 0x510e527f, 0x9b05688c, 0x1f83d9ab, 0x5be0cd19]"

definition rotr :: "nat \<Rightarrow> u32 \<Rightarrow> u32" where
  "rotr n w = drop_bit n w OR push_bit (32 - n) w"

text \<open>The message schedule; \<open>ws\<close> holds the words so far, the newest first.\<close>

fun sha256_extend :: "nat \<Rightarrow> u32 list \<Rightarrow> u32 list" where
  "sha256_extend 0 ws = rev ws"
| "sha256_extend (Suc n) ws =
     (let a = ws ! 14; b = ws ! 1;
          s0 = rotr 7 a XOR rotr 18 a XOR drop_bit 3 a;
          s1 = rotr 17 b XOR rotr 19 b XOR drop_bit 10 b
      in sha256_extend n ((ws ! 15 + s0 + ws ! 6 + s1) # ws))"

fun sha256_round :: "u32 list \<Rightarrow> u32 \<times> u32 \<Rightarrow> u32 list" where
  "sha256_round [a, b, c, d, e, f, g, h] (k, w) =
     (let s1 = rotr 6 e XOR rotr 11 e XOR rotr 25 e;
          ch = (e AND f) XOR (NOT e AND g);
          t1 = h + s1 + ch + k + w;
          s0 = rotr 2 a XOR rotr 13 a XOR rotr 22 a;
          maj = (a AND b) XOR (a AND c) XOR (b AND c)
      in [t1 + s0 + maj, a, b, c, d + t1, e, f, g])"
| "sha256_round st _ = st"

fun groups :: "nat \<Rightarrow> 'a list \<Rightarrow> nat \<Rightarrow> 'a list list" where
  "groups n xs 0 = []"
| "groups n xs (Suc k) = take n xs # groups n (drop n xs) k"

definition sha256_block :: "u32 list \<Rightarrow> bytes \<Rightarrow> u32 list" where
  "sha256_block st blk =
     (let ws = map (\<lambda>g. of_nat (be_nat g)) (groups 4 blk 16)
      in map2 (+) st (foldl sha256_round st (zip sha256_K (sha256_extend 48 (rev ws)))))"

definition sha256 :: "bytes \<Rightarrow> bytes" where
  "sha256 msg =
     (let n = length msg;
          padded = msg @ [0x80] @ replicate ((119 - n mod 64) mod 64) 0 @ be_bytes 8 (8 * n)
      in concat (map (\<lambda>w. be_bytes 4 (unat w))
           (foldl sha256_block sha256_H0 (groups 64 padded (length padded div 64)))))"

definition hmac_sha256 :: "bytes \<Rightarrow> bytes \<Rightarrow> bytes" where
  "hmac_sha256 key msg =
     (let k0 = (if 64 < length key then sha256 key else key);
          k = k0 @ replicate (64 - length k0) 0
      in sha256 (map (\<lambda>b. b XOR 0x5c) k @ sha256 (map (\<lambda>b. b XOR 0x36) k @ msg)))"

section \<open>Base64\<close>

definition base64url_alphabet :: string where
  "base64url_alphabet =
     ''ABCDEFGHIJKLMNOPQRSTUVWXYZabcdefghijklmnopqrstuvwxyz0123456789-_''"

definition b64_char :: "nat \<Rightarrow> char" where
  "b64_char i = base64url_alphabet ! (i mod 64)"

text \<open>Three bytes become four characters; a rest of one or two bytes becomes two or three.\<close>

fun RawURLEncoding :: "bytes \<Rightarrow> string" where
  "RawURLEncoding [] = []"
| "RawURLEncoding [a] =
     (let v = unat a * 16 in [b64_char (v div 64), b64_char v])"
| "RawURLEncoding [a, b] =
     (let v = (unat a * 256 + unat b) * 4
      in [b64_char (v div 4096), b64_char (v div 64), b64_char v])"
| "RawURLEncoding (a # b # c # bs) =
     (let v = unat a * 65536 + unat b * 256 + unat c
      in [b64_char (v div 262144), b64_char (v div 4096), b64_char (v div 64), b64_char v] @
         RawURLEncoding bs)"

definition str_bytes :: "string \<Rightarrow> bytes" where
  "str_bytes s = map of_char s"

section \<open>The token\<close>

definition jwt_secret :: "string \<Rightarrow> bytes \<times> go_error option" where
  "jwt_secret content = hex_DecodeString (TrimSpace (TrimPrefix content ''0x''))"

definition jwt_token :: "bytes \<Rightarrow> nat \<Rightarrow> string" where
  "jwt_token secret now =
     (let hdr = RawURLEncoding (str_bytes (''{'' @ [CHR 0x22] @ ''alg'' @ [CHR 0x22] @ '':'' @ [CHR 0x22] @
                  ''HS256'' @ [CHR 0x22] @ '','' @ [CHR 0x22] @ ''typ'' @ [CHR 0x22] @ '':'' @ [CHR 0x22] @
                  ''JWT'' @ [CHR 0x22] @ ''}''));
          pay = RawURLEncoding (str_bytes (''{'' @ [CHR 0x22] @ ''iat'' @ [CHR 0x22] @ '':'' @ itoa now @ ''}''));
          mac = hmac_sha256 secret (str_bytes (hdr @ ''.'' @ pay))
      in hdr @ ''.'' @ pay @ ''.'' @ RawURLEncoding mac)"

section \<open>Lemmas\<close>

lemma b64_char_no_dot [simp]: "b64_char i \<noteq> CHR ''.''"
proof -
  have "i mod 64 < length base64url_alphabet" by (simp add: base64url_alphabet_def)
  then have "b64_char i \<in> set base64url_alphabet" unfolding b64_char_def by (rule nth_mem)
  then show ?thesis by (auto simp: base64url_alphabet_def)
qed

lemma RawURLEncoding_no_dot: "CHR ''.'' \<notin> set (RawURLEncoding bs)"
  by (induction bs rule: RawURLEncoding.induct) (simp_all add: Let_def b64_char_no_dot [symmetric])

lemma str_Split_three:
  assumes "c \<notin> set x" "c \<notin> set y" "c \<notin> set z"
  shows "str_Split c (x @ [c] @ y @ [c] @ z) = [x, y, z]"
  using str_Split_Join [of "[x, y, z]" c] assms by auto

section \<open>Properties\<close>

text \<open>
  The engine token is a well-formed HS256 token: split at its dots it has exactly three parts,
  and the third is the encoding of the HMAC, under the secret, of the first two joined by a dot, so
  a verifier that holds the secret accepts it.
\<close>

lemma jwt_token_wellformed:
  "\<exists>hdr pay. str_Split CHR ''.'' (jwt_token secret now) =
     [hdr, pay, RawURLEncoding (hmac_sha256 secret (str_bytes (hdr @ ''.'' @ pay)))] \<and>
     pay = RawURLEncoding (str_bytes (''{'' @ [CHR 0x22] @ ''iat'' @ [CHR 0x22] @ '':'' @ itoa now @ ''}''))"
  unfolding jwt_token_def Let_def
  using str_Split_three [OF RawURLEncoding_no_dot RawURLEncoding_no_dot RawURLEncoding_no_dot]
  by blast

end
