(* ===== verification/Pipeline.thy ===== *)
theory Pipeline
  imports Ssz_Paths Pool Jwt
begin

text \<open>
  \<open>pipeline/pipeline.go\<close>: fetching a block, its witness, its block access list and its execution
  requests from a node, checking them against the header, and encoding the stateless input.
  go-ethereum's RLP and JSON codecs, its block-access-list builder and its hashes are a record of
  functions; the JSON-RPC transport, the engine endpoint, the secret file and the clock are the
  environment of the call.
\<close>

section \<open>Third-party functions and environment\<close>

record 'c node_api =
  rlp_DecodeBlock :: "bytes \<Rightarrow> Block res"
  json_Header :: "json \<Rightarrow> Header res"
  rlp_EncodeHeader :: "Header option \<Rightarrow> bytes res"
  CalcRequestsHash :: "bytes list \<Rightarrow> hash"
  EmptyRequestsHash :: hash
  Hash_Hex :: "hash \<Rightarrow> string"
  Address_Hex :: "address \<Rightarrow> string"
  url_Hostname :: "string \<Rightarrow> string option"
  uint256_FromHex :: "string \<Rightarrow> u256 option"
  NewConstructionBlockAccessList :: 'c
  AccountRead :: "address \<Rightarrow> 'c \<Rightarrow> 'c"
  StorageRead :: "address \<Rightarrow> hash \<Rightarrow> 'c \<Rightarrow> 'c"
  StorageWrite :: "u32 \<Rightarrow> address \<Rightarrow> hash \<Rightarrow> hash \<Rightarrow> 'c \<Rightarrow> 'c"
  BalanceChange :: "u32 \<Rightarrow> address \<Rightarrow> u256 \<Rightarrow> 'c \<Rightarrow> 'c"
  NonceChange :: "address \<Rightarrow> u32 \<Rightarrow> u64 \<Rightarrow> 'c \<Rightarrow> 'c"
  CodeChange :: "address \<Rightarrow> u32 \<Rightarrow> bytes \<Rightarrow> 'c \<Rightarrow> 'c"
  BAL_EncodeRLP :: "'c \<Rightarrow> bytes res"
  BAL_DecodeHash :: "bytes \<Rightarrow> hash res"

text \<open>
  \<open>BAL_DecodeHash\<close> is \<open>rlp.DecodeBytes\<close> into a \<open>bal.BlockAccessList\<close> followed by \<open>Hash\<close>.
  \<open>engine url jwt method params\<close> is the decoded body of the engine's response.
\<close>

record world =
  rpc :: transport
  engine :: "string \<Rightarrow> string \<Rightarrow> string \<Rightarrow> json list \<Rightarrow> json res"
  os_ReadFile :: "string \<Rightarrow> string res"
  unix_now :: nat

section \<open>Decoding helpers\<close>

definition hexToBytes :: "string \<Rightarrow> bytes \<times> go_error option" where
  "hexToBytes s =
     (let t = TrimPrefix s ''0x'';
          u = (if length t mod 2 \<noteq> 0 then CHR ''0'' # t else t)
      in hex_DecodeString u)"

definition decodeHexArray_rpc :: "string list \<Rightarrow> bytes list res" where
  "decodeHexArray_rpc arr =
     res_mapi 0 (\<lambda>i s. res_wrap (''element '' @ itoa i) (pair_res (hexToBytes s))) arr"

definition decodeHexResult :: "raw_message \<Rightarrow> bytes res" where
  "decodeHexResult raw =
     res_bind (unmarshal_raw (unmarshal_string []) raw) (\<lambda>s. pair_res (hexToBytes s))"

definition decodeHeaders :: "'c node_api \<Rightarrow> raw_message \<Rightarrow> bytes list res" where
  "decodeHeaders A raw =
     (case raw of
        None \<Rightarrow> Inr []
      | Some JNull \<Rightarrow> Inr []
      | Some (JArr []) \<Rightarrow> Inr []
      | Some v \<Rightarrow>
          (case unmarshal_strings v of
             Inr hexStrs \<Rightarrow> decodeHexArray_rpc hexStrs
           | Inl _ \<Rightarrow>
               res_bind (res_wrap ''unrecognised headers format''
                          (unmarshal_slice (unmarshal_ptr (json_Header A)) v)) (\<lambda>headers.
                 res_mapi 0 (\<lambda>i h. res_wrap (''RLP-encoding header '' @ itoa i) (rlp_EncodeHeader A h))
                   headers)))"

definition hostname :: "'c node_api \<Rightarrow> string \<Rightarrow> string" where
  "hostname A rawURL = (case url_Hostname A rawURL of None \<Rightarrow> rawURL | Some h \<Rightarrow> h)"

definition decodeBlock :: "'c node_api \<Rightarrow> bytes \<Rightarrow> Block res" where
  "decodeBlock A blockRLP = rlp_DecodeBlock A blockRLP"

record witness_json =
  wj_State :: "string list"
  wj_Codes :: "string list"
  wj_Keys :: "string list"
  wj_Headers :: raw_message

definition unmarshal_witness :: "members \<Rightarrow> witness_json res" where
  "unmarshal_witness ms =
     res_bind (field_strings ''state'' ms) (\<lambda>s.
     res_bind (field_strings ''codes'' ms) (\<lambda>c.
     res_bind (field_strings ''keys'' ms) (\<lambda>k.
       Inr \<lparr>wj_State = s, wj_Codes = c, wj_Keys = k, wj_Headers = field_raw ''headers'' ms\<rparr>)))"

section \<open>The block access list\<close>

record balStorageWriteJSON =
  sw_TxIndex :: int
  sw_NewValue :: string

record balStorageChangeJSON =
  sc_Slot :: string
  sc_Changes :: "balStorageWriteJSON list"

record balBalanceChangeJSON =
  bc_TxIndex :: int
  bc_PostBalance :: string

record balNonceChangeJSON =
  nc_TxIndex :: int
  nc_NewNonce :: u64

record balCodeChangeJSON =
  kc_TxIndex :: int
  kc_NewCode :: string

record balAccountChangeJSON =
  ac_Address :: string
  ac_StorageReads :: "string list"
  ac_StorageChanges :: "balStorageChangeJSON list"
  ac_BalanceChanges :: "balBalanceChangeJSON list"
  ac_NonceChanges :: "balNonceChangeJSON list"
  ac_CodeChange :: "balCodeChangeJSON option"

definition unmarshal_StorageWrite :: "members \<Rightarrow> balStorageWriteJSON res" where
  "unmarshal_StorageWrite ms =
     res_bind (field_int ''txIndex'' ms) (\<lambda>i.
     res_bind (field_string ''newValue'' ms) (\<lambda>v.
       Inr \<lparr>sw_TxIndex = i, sw_NewValue = v\<rparr>))"

definition unmarshal_StorageChange :: "members \<Rightarrow> balStorageChangeJSON res" where
  "unmarshal_StorageChange ms =
     res_bind (field_string ''slot'' ms) (\<lambda>s.
     res_bind (field_with (unmarshal_slice (unmarshal_struct unmarshal_StorageWrite)) [] ''changes'' ms) (\<lambda>c.
       Inr \<lparr>sc_Slot = s, sc_Changes = c\<rparr>))"

definition unmarshal_BalanceChange :: "members \<Rightarrow> balBalanceChangeJSON res" where
  "unmarshal_BalanceChange ms =
     res_bind (field_int ''txIndex'' ms) (\<lambda>i.
     res_bind (field_string ''postBalance'' ms) (\<lambda>v.
       Inr \<lparr>bc_TxIndex = i, bc_PostBalance = v\<rparr>))"

definition unmarshal_NonceChange :: "members \<Rightarrow> balNonceChangeJSON res" where
  "unmarshal_NonceChange ms =
     res_bind (field_int ''txIndex'' ms) (\<lambda>i.
     res_bind (field_uint64 ''newNonce'' ms) (\<lambda>v.
       Inr \<lparr>nc_TxIndex = i, nc_NewNonce = v\<rparr>))"

definition unmarshal_CodeChange :: "members \<Rightarrow> balCodeChangeJSON res" where
  "unmarshal_CodeChange ms =
     res_bind (field_int ''txIndex'' ms) (\<lambda>i.
     res_bind (field_string ''newCode'' ms) (\<lambda>v.
       Inr \<lparr>kc_TxIndex = i, kc_NewCode = v\<rparr>))"

definition unmarshal_AccountChange :: "members \<Rightarrow> balAccountChangeJSON res" where
  "unmarshal_AccountChange ms =
     res_bind (field_string ''address'' ms) (\<lambda>a.
     res_bind (field_strings ''storageReads'' ms) (\<lambda>r.
     res_bind (field_with (unmarshal_slice (unmarshal_struct unmarshal_StorageChange)) [] ''storageChanges'' ms) (\<lambda>s.
     res_bind (field_with (unmarshal_slice (unmarshal_struct unmarshal_BalanceChange)) [] ''balanceChanges'' ms) (\<lambda>b.
     res_bind (field_with (unmarshal_slice (unmarshal_struct unmarshal_NonceChange)) [] ''nonceChanges'' ms) (\<lambda>n.
     res_bind (field_with (unmarshal_ptr (unmarshal_struct unmarshal_CodeChange)) None ''codeChange'' ms) (\<lambda>c.
       Inr \<lparr>ac_Address = a, ac_StorageReads = r, ac_StorageChanges = s, ac_BalanceChanges = b,
            ac_NonceChanges = n, ac_CodeChange = c\<rparr>))))))"

text \<open>The body of the loop over \<open>resp.AccountChanges\<close>; \<open>uint32(n)\<close> keeps the low 32 bits.\<close>

definition apply_account :: "geth \<Rightarrow> 'c node_api \<Rightarrow> balAccountChangeJSON \<Rightarrow> 'c \<Rightarrow> 'c" where
  "apply_account G A ac c0 =
     (let addr = HexToAddress G (ac_Address ac);
          c1 = AccountRead A addr c0;
          c2 = fold (\<lambda>slot. StorageRead A addr (HexToHash G slot)) (ac_StorageReads ac) c1;
          c3 = fold (\<lambda>sw. fold (\<lambda>ch. StorageWrite A (of_int (sw_TxIndex ch)) addr
                                        (HexToHash G (sc_Slot sw)) (HexToHash G (sw_NewValue ch)))
                            (sc_Changes sw)) (ac_StorageChanges ac) c2;
          c4 = fold (\<lambda>bc. BalanceChange A (of_int (bc_TxIndex bc)) addr
                            (case uint256_FromHex A (bc_PostBalance bc) of
                               None \<Rightarrow> uint256_NewInt G 0 | Some n \<Rightarrow> n)) (ac_BalanceChanges ac) c3;
          c5 = fold (\<lambda>nc. NonceChange A addr (of_int (nc_TxIndex nc)) (nc_NewNonce nc))
                 (ac_NonceChanges ac) c4
      in case ac_CodeChange ac of
           None \<Rightarrow> c5
         | Some k \<Rightarrow> CodeChange A addr (of_int (kc_TxIndex k)) (fst (hexToBytes (kc_NewCode k))) c5)"

definition fetchBAL :: "geth \<Rightarrow> 'c node_api \<Rightarrow> transport \<Rightarrow> string \<Rightarrow> string \<Rightarrow> bytes res" where
  "fetchBAL G A T rawURL num =
     res_bind (CallRaw T rawURL ''eth_getBlockAccessList'' [JStr num]) (\<lambda>raw.
     res_bind (res_wrap ''decoding BAL JSON''
                (unmarshal_raw (unmarshal_struct
                   (field_with (unmarshal_slice (unmarshal_struct unmarshal_AccountChange)) []
                      ''accountChanges'')) raw)) (\<lambda>changes.
       res_wrap ''RLP-encoding BAL''
         (BAL_EncodeRLP A (fold (apply_account G A) changes (NewConstructionBlockAccessList A)))))"

text \<open>
  The slice may be nil (\<open>None\<close>) without an error, and on a malformed hex string it is the part that
  was decoded, beside the error.
\<close>

definition unmarshal_engine :: "members \<Rightarrow> (string list \<times> string option) res" where
  "unmarshal_engine ms =
     res_bind (field_with (unmarshal_slice (unmarshal_struct (field_string ''blockAccessList''))) []
                 ''result'' ms) (\<lambda>r.
     res_bind (field_with (unmarshal_ptr (unmarshal_struct (field_string ''Message''))) None
                 ''error'' ms) (\<lambda>e. Inr (r, e)))"

definition fetchBALFromEngine ::
  "'c node_api \<Rightarrow> world \<Rightarrow> string \<Rightarrow> string \<Rightarrow> hash \<Rightarrow> bytes option \<times> go_error option" where
  "fetchBALFromEngine A E engineURL jwtSecretFile blockHash =
     (case os_ReadFile E jwtSecretFile of
        Inl e \<Rightarrow> (None, Some (wrap_error ''reading JWT secret'' e))
      | Inr secretHex \<Rightarrow>
          (case jwt_secret secretHex of
             (_, Some e) \<Rightarrow> (None, Some (wrap_error ''decoding JWT secret'' e))
           | (secret, None) \<Rightarrow>
               (case res_bind (engine E engineURL (jwt_token secret (unix_now E))
                                 ''engine_getPayloadBodiesByHashV2''
                                 [JArr [JStr (Hash_Hex A blockHash)]])
                              (unmarshal_struct unmarshal_engine) of
                  Inl e \<Rightarrow> (None, Some e)
                | Inr (result, Some msg) \<Rightarrow> (None, Some (Errorf (''engine API: '' @ msg)))
                | Inr ([], None) \<Rightarrow> (None, None)
                | Inr (b # _, None) \<Rightarrow>
                    if b = [] then (None, None)
                    else (Some (fst (hexToBytes b)), snd (hexToBytes b)))))"

definition verifyBALHash :: "'c node_api \<Rightarrow> bytes \<Rightarrow> Block \<Rightarrow> go_error option" where
  "verifyBALHash A balBytes block =
     (case h_BlockAccessListHash (b_Header block) of
        None \<Rightarrow> None
      | Some expected \<Rightarrow>
          (case BAL_DecodeHash A balBytes of
             Inl e \<Rightarrow> Some (wrap_error ''BAL decode'' e)
           | Inr got \<Rightarrow>
               if got \<noteq> expected
               then Some (Errorf (''BAL hash '' @ Hash_Hex A got @ '' does not match header '' @
                                  Hash_Hex A expected))
               else None))"

section \<open>Execution requests\<close>

definition fetchRequests :: "'c node_api \<Rightarrow> transport \<Rightarrow> string \<Rightarrow> string \<Rightarrow> Block \<Rightarrow> bytes list res" where
  "fetchRequests A T rawURL num block =
     (case h_RequestsHash (b_Header block) of
        None \<Rightarrow> Inr []
      | Some want \<Rightarrow>
          if want = EmptyRequestsHash A then Inr []
          else
            res_bind (CallRaw T rawURL ''debug_getRawExecutionRequests'' [JStr num]) (\<lambda>raw.
            res_bind (res_wrap ''decoding debug_getRawExecutionRequests''
                       (unmarshal_raw unmarshal_strings raw)) (\<lambda>encoded.
            res_bind (res_mapi 0 (\<lambda>i e. res_wrap (''request '' @ itoa i) (pair_res (hexToBytes e)))
                       encoded) (\<lambda>requests.
              let got = CalcRequestsHash A requests
              in if got \<noteq> want
                 then Inl (Errorf (''requests hash '' @ Hash_Hex A got @ '' does not match header '' @
                                   Hash_Hex A want))
                 else Inr requests))))"

section \<open>Fetch\<close>

record BlockMeta =
  bm_ParentHash :: string
  bm_Coinbase :: string
  bm_StateRoot :: string
  bm_ReceiptsRoot :: string
  bm_PrevRandao :: string
  bm_ExtraData :: string
  bm_TxCount :: int
  bm_WithdrawCount :: int
  bm_GasUsed :: u64
  bm_GasLimit :: u64
  bm_Timestamp :: u64
  bm_BaseFee :: u64
  bm_BlobGasUsed :: u64
  bm_ExcessBlobGas :: u64
  bm_SlotNumber :: u64
  bm_BALBytes :: int
  bm_BALErr :: "go_error option"

definition zero_BlockMeta :: BlockMeta where
  "zero_BlockMeta =
     \<lparr>bm_ParentHash = [], bm_Coinbase = [], bm_StateRoot = [], bm_ReceiptsRoot = [],
      bm_PrevRandao = [], bm_ExtraData = [], bm_TxCount = 0, bm_WithdrawCount = 0, bm_GasUsed = 0,
      bm_GasLimit = 0, bm_Timestamp = 0, bm_BaseFee = 0, bm_BlobGasUsed = 0, bm_ExcessBlobGas = 0,
      bm_SlotNumber = 0, bm_BALBytes = 0, bm_BALErr = None\<rparr>"

definition block_meta :: "'c node_api \<Rightarrow> Block \<Rightarrow> BlockMeta" where
  "block_meta A block =
     (let h = b_Header block
      in zero_BlockMeta
         \<lparr>bm_ParentHash := Hash_Hex A (h_ParentHash h),
          bm_Coinbase := Address_Hex A (h_Coinbase h),
          bm_StateRoot := Hash_Hex A (h_Root h),
          bm_ReceiptsRoot := Hash_Hex A (h_ReceiptHash h),
          bm_PrevRandao := Hash_Hex A (h_MixDigest h),
          bm_ExtraData := ''0x'' @ hex_EncodeToString (h_Extra h),
          bm_TxCount := int (length (b_Transactions block)),
          bm_WithdrawCount := int (length (b_Withdrawals block)),
          bm_GasUsed := h_GasUsed h,
          bm_GasLimit := h_GasLimit h,
          bm_Timestamp := h_Time h,
          bm_BaseFee := (case h_BaseFee h of None \<Rightarrow> 0 | Some n \<Rightarrow> big_Uint64 n),
          bm_BlobGasUsed := or_zero (h_BlobGasUsed h),
          bm_ExcessBlobGas := or_zero (h_ExcessBlobGas h),
          bm_SlotNumber := or_zero (h_SlotNumber h)\<rparr>)"

text \<open>The block access list: the engine first, the node when the engine left the slice nil.\<close>

definition choose_bal ::
  "geth \<Rightarrow> 'c node_api \<Rightarrow> world \<Rightarrow> string \<Rightarrow> string \<Rightarrow> string \<Rightarrow> string \<Rightarrow> Block \<Rightarrow> bytes" where
  "choose_bal G A E rawURL num engineURL jwtSecretFile block =
     (let fromEngine = (if engineURL \<noteq> [] \<and> jwtSecretFile \<noteq> []
                        then fst (fetchBALFromEngine A E engineURL jwtSecretFile (Block_Hash G block))
                        else None)
      in case fromEngine of
           Some bs \<Rightarrow> bs
         | None \<Rightarrow> (case fetchBAL G A (rpc E) rawURL num of Inl _ \<Rightarrow> [] | Inr bs \<Rightarrow> bs))"

definition bal_error :: "'c node_api \<Rightarrow> bytes \<Rightarrow> Block \<Rightarrow> go_error option" where
  "bal_error A balBytes block =
     (if 0 < length balBytes then verifyBALHash A balBytes block
      else if h_BlockAccessListHash (b_Header block) \<noteq> None
      then Some (Errorf ''header commits to a BAL but none was fetched'')
      else None)"

text \<open>
  What \<open>Fetch\<close> returns: the node's host name, the metadata, and the input or the error. A panic of
  the encoder is the error \<open>Panic\<close>.
\<close>

record fetched =
  fe_elNode :: string
  fe_meta :: BlockMeta
  fe_input :: "bytes res"

definition fetch_rest ::
  "geth \<Rightarrow> 'c node_api \<Rightarrow> world \<Rightarrow> string \<Rightarrow> u64 \<Rightarrow> GenesisChainConfig option \<Rightarrow> string \<Rightarrow> string \<Rightarrow>
   Block \<Rightarrow> BlockMeta \<times> bytes res" where
  "fetch_rest G A E rawURL blockNum genesis engineURL jwtSecretFile block =
     (let num = hexNum blockNum;
          meta = block_meta A block
      in case res_bind (res_wrap (''pipeline: debug_executionWitness('' @ itoa (unat blockNum) @ '')'')
                          (CallRaw (rpc E) rawURL ''debug_executionWitness'' [JStr num])) (\<lambda>witnessResult.
              res_bind (res_wrap ''pipeline: decoding witness JSON''
                         (unmarshal_raw (unmarshal_struct unmarshal_witness) witnessResult)) (\<lambda>w.
              res_bind (res_wrap ''pipeline: decoding headers'' (decodeHeaders A (wj_Headers w))) (\<lambda>headers.
              res_bind (res_wrap ''pipeline: decoding witness state''
                         (decodeHexArray_rpc (wj_State w))) (\<lambda>state.
              res_bind (res_wrap ''pipeline: decoding witness codes''
                         (decodeHexArray_rpc (wj_Codes w))) (\<lambda>codes.
                Inr (state, codes, headers)))))) of
           Inl e \<Rightarrow> (meta, Inl e)
         | Inr (state, codes, headers) \<Rightarrow>
             let balBytes = choose_bal G A E rawURL num engineURL jwtSecretFile block;
                 meta = meta\<lparr>bm_BALErr := bal_error A balBytes block,
                             bm_BALBytes := int (length balBytes)\<rparr>
             in case res_wrap (''pipeline: execution requests('' @ itoa (unat blockNum) @ '')'')
                       (fetchRequests A (rpc E) rawURL num block) of
                  Inl e \<Rightarrow> (meta, Inl e)
                | Inr requests \<Rightarrow>
                    let chainID = (case genesis of None \<Rightarrow> 0 | Some g \<Rightarrow> gc_ChainID g);
                        fork = (case genesis of None \<Rightarrow> 0
                                | Some g \<Rightarrow> ActiveProtocolFork g (h_Time (b_Header block)))
                    in (meta, ZesuInputSSZFromBlock G block state codes headers balBytes requests
                                chainID fork))"

definition Fetch ::
  "geth \<Rightarrow> 'c node_api \<Rightarrow> world \<Rightarrow> Pool \<Rightarrow> u64 \<Rightarrow> GenesisChainConfig option \<Rightarrow> string \<Rightarrow> string \<Rightarrow>
   fetched \<times> Pool" where
  "Fetch G A E p blockNum genesis engineURL jwtSecretFile =
     (let (rawURL, p') = Pick p
      in if rawURL = [] then
           (\<lparr>fe_elNode = [], fe_meta = zero_BlockMeta,
             fe_input = Inl (Errorf ''pipeline: no healthy EL node available'')\<rparr>, p')
         else
           let elNode = hostname A rawURL
           in case res_bind (res_wrap (''pipeline: debug_getRawBlock('' @ itoa (unat blockNum) @ '')'')
                               (CallRaw (rpc E) rawURL ''debug_getRawBlock'' [JStr (hexNum blockNum)]))
                     (\<lambda>rawBlockResult.
                        res_bind (res_wrap ''pipeline: decoding block RLP'' (decodeHexResult rawBlockResult))
                          (\<lambda>blockRLP. res_wrap ''pipeline: block RLP decode'' (decodeBlock A blockRLP))) of
                Inl e \<Rightarrow> (\<lparr>fe_elNode = elNode, fe_meta = zero_BlockMeta, fe_input = Inl e\<rparr>, p')
              | Inr block \<Rightarrow>
                  let (meta, input) = fetch_rest G A E rawURL blockNum genesis engineURL jwtSecretFile block
                  in (\<lparr>fe_elNode = elNode, fe_meta = meta, fe_input = input\<rparr>, p'))"

section \<open>What a successful fetch means\<close>

definition served_block :: "'c node_api \<Rightarrow> world \<Rightarrow> string \<Rightarrow> u64 \<Rightarrow> Block \<Rightarrow> bool" where
  "served_block A E url n block \<longleftrightarrow>
     (\<exists>raw blockRLP. CallRaw (rpc E) url ''debug_getRawBlock'' [JStr (hexNum n)] = Inr raw \<and>
        decodeHexResult raw = Inr blockRLP \<and> decodeBlock A blockRLP = Inr block)"

definition served_witness ::
  "'c node_api \<Rightarrow> world \<Rightarrow> string \<Rightarrow> u64 \<Rightarrow> bytes list \<Rightarrow> bytes list \<Rightarrow> bytes list \<Rightarrow> bool" where
  "served_witness A E url n state codes headers \<longleftrightarrow>
     (\<exists>raw w. CallRaw (rpc E) url ''debug_executionWitness'' [JStr (hexNum n)] = Inr raw \<and>
        unmarshal_raw (unmarshal_struct unmarshal_witness) raw = Inr w \<and>
        decodeHexArray (wj_State w) = Inr state \<and> decodeHexArray (wj_Codes w) = Inr codes \<and>
        decodeHeaders A (wj_Headers w) = Inr headers)"

text \<open>The header's commitments to the execution requests and to the block access list.\<close>

definition requests_match :: "'c node_api \<Rightarrow> Header \<Rightarrow> bytes list \<Rightarrow> bool" where
  "requests_match A h requests \<longleftrightarrow>
     (case h_RequestsHash h of
        None \<Rightarrow> requests = []
      | Some want \<Rightarrow> (if want = EmptyRequestsHash A then requests = []
                      else CalcRequestsHash A requests = want))"

definition bal_match :: "'c node_api \<Rightarrow> Header \<Rightarrow> bytes \<Rightarrow> bool" where
  "bal_match A h bal \<longleftrightarrow>
     (case h_BlockAccessListHash h of
        None \<Rightarrow> True
      | Some want \<Rightarrow> bal \<noteq> [] \<and> BAL_DecodeHash A bal = Inr want)"

lemma decodeHexArray_rpc_eq: "decodeHexArray_rpc = decodeHexArray"
  by (rule ext) (simp add: decodeHexArray_rpc_def decodeHexArray_def hexToBytes_def hexStrToBytes_def)

lemma bal_error_None: "bal_error A bal block = None \<longleftrightarrow> bal_match A (b_Header block) bal"
  by (auto simp: bal_error_def bal_match_def verifyBALHash_def split: option.splits sum.splits)

lemma fetchRequests_match:
  "fetchRequests A T url num block = Inr requests \<Longrightarrow> requests_match A (b_Header block) requests"
  by (auto simp: fetchRequests_def requests_match_def Let_def res_simps split: option.splits if_splits)

lemma fetch_rest_Inr:
  assumes "fetch_rest G A E url n genesis engineURL jwt block = (meta, Inr out)"
  obtains state codes headers requests where
    "served_witness A E url n state codes headers"
    "fetchRequests A (rpc E) url (hexNum n) block = Inr requests"
    "bm_BALErr meta = bal_error A (choose_bal G A E url (hexNum n) engineURL jwt block) block"
    "ZesuInputSSZFromBlock G block state codes headers
       (choose_bal G A E url (hexNum n) engineURL jwt block) requests
       (case genesis of None \<Rightarrow> 0 | Some g \<Rightarrow> gc_ChainID g)
       (case genesis of None \<Rightarrow> 0 | Some g \<Rightarrow> ActiveProtocolFork g (h_Time (b_Header block))) = Inr out"
  using assms
  by (auto simp: fetch_rest_def Let_def res_simps served_witness_def decodeHexArray_rpc_eq
      split: sum.splits)

lemma Fetch_Inr:
  assumes "fst (Fetch G A E p n genesis engineURL jwt) = fe" "fe_input fe = Inr out"
  obtains block where "fst (Pick p) \<noteq> []" "served_block A E (fst (Pick p)) n block"
    "fetch_rest G A E (fst (Pick p)) n genesis engineURL jwt block = (fe_meta fe, Inr out)"
    "fe_elNode fe = hostname A (fst (Pick p))"
  using assms
  by (auto simp: Fetch_def Let_def res_simps served_block_def split: sum.splits prod.splits if_splits)

section \<open>Properties\<close>

definition sample_head :: Block where
  "sample_head = sample_block\<lparr>b_Header := sample_header\<lparr>h_RequestsHash := Some 2, h_BlockAccessListHash := Some 1\<rparr>\<rparr>"

definition sample_api :: "nat node_api" where
  "sample_api =
     \<lparr>rlp_DecodeBlock = (\<lambda>bs. if bs = [0xf9] then Inr sample_head else Inl (Errorf ''rlp'')),
      json_Header = (\<lambda>_. Inl (Errorf ''header'')), rlp_EncodeHeader = (\<lambda>_. Inr [0xc0]),
      CalcRequestsHash = (\<lambda>rs. of_nat (length rs)), EmptyRequestsHash = 0,
      Hash_Hex = (\<lambda>h. hex_EncodeToString (be_bytes 32 (unat h))),
      Address_Hex = (\<lambda>a. hex_EncodeToString (be_bytes 20 (unat a))),
      url_Hostname = Some, uint256_FromHex = (\<lambda>_. None), NewConstructionBlockAccessList = 0,
      AccountRead = (\<lambda>_ c. c + 1), StorageRead = (\<lambda>_ _ c. c), StorageWrite = (\<lambda>_ _ _ _ c. c),
      BalanceChange = (\<lambda>_ _ _ c. c), NonceChange = (\<lambda>_ _ _ c. c), CodeChange = (\<lambda>_ _ _ c. c),
      BAL_EncodeRLP = (\<lambda>c. Inr [of_nat c]), BAL_DecodeHash = (\<lambda>bs. Inr (of_nat (length bs)))\<rparr>"

definition sample_rpc :: transport where
  "sample_rpc url method params =
     Inr (JObj [(''result'',
       if method = ''debug_getRawBlock'' then JStr ''0xf9''
       else if method = ''debug_executionWitness''
       then JObj [(''state'', JArr [JStr ''0x0102'']), (''headers'', JArr [JStr ''0x03''])]
       else if method = ''debug_getRawExecutionRequests'' then JArr [JStr ''0x0001'', JStr ''0x0207'']
       else JObj [(''accountChanges'', JArr [JObj []])])])"

definition sample_world :: world where
  "sample_world = \<lparr>rpc = sample_rpc, engine = (\<lambda>_ _ _ _. Inl (Errorf ''off'')),
                   os_ReadFile = (\<lambda>_. Inl (Errorf ''none'')), unix_now = 0\<rparr>"

lemma fetched_input:
  assumes "pool_valid p" "nodes_of p \<noteq> {}"
    and "fe = fst (Fetch G A E p n genesis engineURL jwt)" "fe_input fe = Inr out"
    and "length out < 2 ^ 32"
  shows "\<exists>url block state codes headers bal requests raw.
     url \<in> nodes_of p \<and> fe_elNode fe = hostname A url \<and> served_block A E url n block \<and>
     served_witness A E url n state codes headers \<and> requests_match A (b_Header block) requests \<and>
     (bm_BALErr (fe_meta fe) = None \<longrightarrow> bal_match A (b_Header block) bal) \<and>
     marshal_all G (b_Transactions block) = Inr raw \<and>
     decode_stateless_input out =
       Some (input_of_block G block state codes headers bal requests
               (case genesis of None \<Rightarrow> 0 | Some g \<Rightarrow> gc_ChainID g)
               (case genesis of None \<Rightarrow> 0 | Some g \<Rightarrow> ActiveProtocolFork g (h_Time (b_Header block)))
               raw)"
proof -
  obtain block where block: "served_block A E (fst (Pick p)) n block"
    and rest: "fetch_rest G A E (fst (Pick p)) n genesis engineURL jwt block = (fe_meta fe, Inr out)"
    and host: "fe_elNode fe = hostname A (fst (Pick p))"
    using Fetch_Inr [OF assms(3) [symmetric] assms(4)] by blast
  have "fst (Pick p) \<in> nodes_of p"
    using el_pool.pick_in assms(1,2) by (simp add: Pick_def)
  moreover note block host
  moreover obtain state codes headers requests where wit:
    "served_witness A E (fst (Pick p)) n state codes headers"
    "fetchRequests A (rpc E) (fst (Pick p)) (hexNum n) block = Inr requests"
    "bm_BALErr (fe_meta fe) =
       bal_error A (choose_bal G A E (fst (Pick p)) (hexNum n) engineURL jwt block) block"
    "ZesuInputSSZFromBlock G block state codes headers
       (choose_bal G A E (fst (Pick p)) (hexNum n) engineURL jwt block) requests
       (case genesis of None \<Rightarrow> 0 | Some g \<Rightarrow> gc_ChainID g)
       (case genesis of None \<Rightarrow> 0 | Some g \<Rightarrow> ActiveProtocolFork g (h_Time (b_Header block))) = Inr out"
    using rest by (rule fetch_rest_Inr)
  moreover note fetchRequests_match [OF wit(2)] live_path_decodes [OF wit(4) assms(5)]
  ultimately show ?thesis by (metis bal_error_None)
qed

text \<open>
  C2: a fetched input is what the node served and what the header commits to. When \<open>Fetch\<close> returns an
  input, it came from one node of the pool: there are a block and a witness that node served, and
  execution requests that hash to the header's requests hash, such that the input, if shorter than
  4 GiB, decodes to exactly that block, witness and requests, with the genesis chain id (1 when
  there is none) and the schema id of the fork active at the block's time. If the metadata carries no
  block-access-list error, the list in the input hashes to the header's commitment, where there is
  one.
\<close>

theorem fetch_sound:
  assumes "pool_valid p" "nodes_of p \<noteq> {}"
    and "fe = fst (Fetch G A E p n genesis engineURL jwt)" "fe_input fe = Inr out"
    and "length out < 2 ^ 32"
  shows "\<exists>url block state codes headers bal requests raw.
     url \<in> nodes_of p \<and> fe_elNode fe = hostname A url \<and> served_block A E url n block \<and>
     served_witness A E url n state codes headers \<and> requests_match A (b_Header block) requests \<and>
     (bm_BALErr (fe_meta fe) = None \<longrightarrow> bal_match A (b_Header block) bal) \<and>
     marshal_all G (b_Transactions block) = Inr raw \<and>
     decode_stateless_input out =
       Some (input_of_block G block state codes headers bal requests
               (case genesis of None \<Rightarrow> 0 | Some g \<Rightarrow> gc_ChainID g)
               (case genesis of None \<Rightarrow> 0 | Some g \<Rightarrow> ActiveProtocolFork g (h_Time (b_Header block)))
               raw)"
  using assms by (rule fetched_input)

lemma sample_call:
  "sample_rpc url method params = Inr (JObj [(''result'', v)]) \<Longrightarrow>
     CallRaw sample_rpc url method params = Inr (Some v)"
  by (simp add: CallRaw_def call_def result_field)

lemma sample_calls:
  "CallRaw sample_rpc url ''debug_getRawBlock'' ps = Inr (Some (JStr ''0xf9''))"
  "CallRaw sample_rpc url ''debug_executionWitness'' ps =
     Inr (Some (JObj [(''state'', JArr [JStr ''0x0102'']), (''headers'', JArr [JStr ''0x03''])]))"
  "CallRaw sample_rpc url ''debug_getRawExecutionRequests'' ps =
     Inr (Some (JArr [JStr ''0x0001'', JStr ''0x0207'']))"
  "CallRaw sample_rpc url ''eth_getBlockAccessList'' ps =
     Inr (Some (JObj [(''accountChanges'', JArr [JObj []])]))"
  by (rule sample_call, simp add: sample_rpc_def)+

lemma sample_decodes:
  "decodeHexResult (Some (JStr ''0xf9'')) = Inr [0xf9]"
  "unmarshal_witness [(''state'', JArr [JStr ''0x0102'']), (''headers'', JArr [JStr ''0x03''])] =
     Inr \<lparr>wj_State = [''0x0102''], wj_Codes = [], wj_Keys = [], wj_Headers = Some (JArr [JStr ''0x03''])\<rparr>"
  "decodeHexArray_rpc [''0x0102''] = Inr [[1, 2]]" "decodeHexArray_rpc [] = Inr []"
  "decodeHeaders sample_api (Some (JArr [JStr ''0x03''])) = Inr [[3]]"
  "fetchBAL sample_geth sample_api sample_rpc url num = Inr [1]"
proof -
  show "decodeHexResult (Some (JStr ''0xf9'')) = Inr [0xf9]"
    "unmarshal_witness [(''state'', JArr [JStr ''0x0102'']), (''headers'', JArr [JStr ''0x03''])] =
     Inr \<lparr>wj_State = [''0x0102''], wj_Codes = [], wj_Keys = [], wj_Headers = Some (JArr [JStr ''0x03''])\<rparr>"
    "decodeHexArray_rpc [''0x0102''] = Inr [[1, 2]]" "decodeHexArray_rpc [] = Inr []"
    by code_simp+
  have "decodeHexArray_rpc [''0x03''] = Inr [[3]]" by code_simp
  then show "decodeHeaders sample_api (Some (JArr [JStr ''0x03''])) = Inr [[3]]"
    by (simp add: decodeHeaders_def)
  have "field_with (unmarshal_slice (unmarshal_struct unmarshal_AccountChange)) []
      ''accountChanges'' [(''accountChanges'', JArr [JObj []])] =
      Inr [\<lparr>ac_Address = [], ac_StorageReads = [], ac_StorageChanges = [], ac_BalanceChanges = [],
            ac_NonceChanges = [], ac_CodeChange = None\<rparr>]"
    by code_simp
  then show "fetchBAL sample_geth sample_api sample_rpc url num = Inr [1]"
    by (simp add: fetchBAL_def sample_calls unmarshal_raw_def apply_account_def sample_api_def)
qed

lemma sample_requests:
  "fetchRequests sample_api sample_rpc url num sample_head = Inr [[0, 1], [2, 7]]"
proof -
  have "pair_res (hexToBytes ''0x0001'') = Inr [0, 1]" "pair_res (hexToBytes ''0x0207'') = Inr [2, 7]"
    by code_simp+
  then show ?thesis
    by (simp add: fetchRequests_def sample_calls unmarshal_raw_def sample_head_def sample_api_def)
qed

lemma sample_fetch:
  assumes "fst (Pick p) \<noteq> []"
  shows "fe_input (fst (Fetch sample_geth sample_api sample_world p n genesis [] [])) =
     Inr (encode_input (input_of_block sample_geth sample_head [[1, 2]] [] [[3]] [1] [[0, 1], [2, 7]]
       (case genesis of None \<Rightarrow> 0 | Some g \<Rightarrow> gc_ChainID g)
       (case genesis of None \<Rightarrow> 0 | Some g \<Rightarrow> ActiveProtocolFork g (h_Time (b_Header sample_head)))
       [[192, 1]]))"
    "bm_BALErr (fe_meta (fst (Fetch sample_geth sample_api sample_world p n genesis [] []))) = None"
proof -
  have enc: "ZesuInputSSZFromBlock sample_geth sample_head [[1, 2]] [] [[3]] [1] [[0, 1], [2, 7]] c f =
      Inr (encode_input (input_of_block sample_geth sample_head [[1, 2]] [] [[3]] [1] [[0, 1], [2, 7]] c f [[192, 1]]))"
    for c f
    using sample_marshal
    by (simp add: ZesuInputSSZFromBlock_eq sample_head_def)
      (simp add: base_fee_def sample_defs requests_ok_def request_ok_def)
  have block: "rlp_DecodeBlock sample_api [0xf9] = Inr sample_head"
    by (simp add: sample_api_def)
  have bal: "bal_error sample_api [1] sample_head = None"
    unfolding bal_error_None by (simp add: bal_match_def sample_head_def sample_api_def)
  note eqs = sample_calls sample_decodes sample_requests decodeBlock_def sample_world_def
    choose_bal_def unmarshal_raw_def Let_def split_beta
  show "fe_input (fst (Fetch sample_geth sample_api sample_world p n genesis [] [])) =
     Inr (encode_input (input_of_block sample_geth sample_head [[1, 2]] [] [[3]] [1] [[0, 1], [2, 7]]
       (case genesis of None \<Rightarrow> 0 | Some g \<Rightarrow> gc_ChainID g)
       (case genesis of None \<Rightarrow> 0 | Some g \<Rightarrow> ActiveProtocolFork g (h_Time (b_Header sample_head)))
       [[192, 1]]))"
    "bm_BALErr (fe_meta (fst (Fetch sample_geth sample_api sample_world p n genesis [] []))) = None"
    using assms by (simp_all add: Fetch_def fetch_rest_def eqs enc block bal)
qed

lemma sample_input_small:
  "length (encode_input (input_of_block sample_geth sample_head [[1, 2]] [] [[3]] [1] [[0, 1], [2, 7]]
     c f [[192, 1]])) < 1000"
  by (simp add: input_lengths input_of_block_def payload_of_block_def Let_def blob_hashes_def
      request_data_def sample_geth_def sample_head_def sample_defs upt_rec)

theorem fetch_sound_witness:
  "\<exists>out url block. fe_input (fst (Fetch sample_geth sample_api sample_world (new_pool [''n1'']) 5 None [] [])) = Inr out \<and>
     url \<in> nodes_of (new_pool [''n1'']) \<and> served_block sample_api sample_world url 5 block \<and>
     decode_stateless_input out \<noteq> None"
proof -
  let ?p = "new_pool [''n1'']"
  let ?fe = "fst (Fetch sample_geth sample_api sample_world ?p 5 None [] [])"
  let ?in = "input_of_block sample_geth sample_head [[1, 2]] [] [[3]] [1] [[0, 1], [2, 7]] 0 0 [[192, 1]]"
  have "fst (Pick ?p) \<noteq> []" by (simp add: Pick_def next_node_def new_pool_def)
  from sample_fetch(1) [OF this, of 5 None]
  have fetch: "fe_input ?fe = Inr (encode_input ?in)" by simp
  have "length (encode_input ?in) < 2 ^ 32" using sample_input_small [of 0 0] by simp
  moreover have "pool_valid ?p" "nodes_of ?p \<noteq> {}"
    by (simp_all add: pool_valid_def nodes_of_def new_pool_def)
  ultimately show ?thesis
    using fetch_sound [OF _ _ refl fetch] fetch by (metis option.distinct(1))
qed

end
