(* ===== verification/Ring_Buffer.thy ===== *)
theory Ring_Buffer
  imports Json
begin

text \<open>
  \<open>store/store.go\<close>: the ring buffer of verification results behind \<open>GET /results\<close>. The
  array, the index arithmetic on Go's signed \<open>int\<close> and the two loops are as in the source; an
  index outside the array is a panic. The contract of the component is the locale
  \<open>bounded_log\<close>: a log that keeps the last \<open>limit\<close> entries, oldest first.
\<close>

section \<open>Data\<close>

record Result =
  rs_Block :: u64
  rs_Guest :: string
  rs_WitnessFrom :: string
  rs_Valid :: bool
  rs_Error :: string
  rs_Log :: string
  rs_TxCount :: int
  rs_GasUsed :: u64
  rs_DurationMs :: int

definition zero_Result :: Result where
  "zero_Result =
     \<lparr>rs_Block = 0, rs_Guest = [], rs_WitnessFrom = [], rs_Valid = False, rs_Error = [],
      rs_Log = [], rs_TxCount = 0, rs_GasUsed = 0, rs_DurationMs = 0\<rparr>"

definition capacity :: int where
  "capacity = 1000"

record RingBuffer =
  rb_items :: "Result list"
  rb_head :: int
  rb_count :: int

text \<open>\<open>&store.RingBuffer{}\<close>\<close>

definition empty_RingBuffer :: RingBuffer where
  "empty_RingBuffer = \<lparr>rb_items = replicate (nat capacity) zero_Result, rb_head = 0, rb_count = 0\<rparr>"

section \<open>Operations\<close>

text \<open>Go's \<open>%\<close> has the sign of the dividend.\<close>

definition go_rem :: "int \<Rightarrow> int \<Rightarrow> int" where
  "go_rem a b = sgn a * (\<bar>a\<bar> mod \<bar>b\<bar>)"

definition go_index :: "'a list \<Rightarrow> int \<Rightarrow> 'a res" where
  "go_index xs i =
     (if 0 \<le> i \<and> i < int (length xs) then Inr (xs ! nat i) else Inl (Panic ''index out of range''))"

definition go_store :: "'a list \<Rightarrow> int \<Rightarrow> 'a \<Rightarrow> 'a list res" where
  "go_store xs i x =
     (if 0 \<le> i \<and> i < int (length xs) then Inr (xs[nat i := x])
      else Inl (Panic ''index out of range''))"

definition Add :: "Result \<Rightarrow> RingBuffer \<Rightarrow> RingBuffer res" where
  "Add res r =
     res_bind (go_store (rb_items r) (rb_head r) res) (\<lambda>items.
       Inr \<lparr>rb_items = items,
            rb_head = go_rem (rb_head r + 1) capacity,
            rb_count = (if rb_count r < capacity then rb_count r + 1 else rb_count r)\<rparr>)"

definition All_results :: "RingBuffer \<Rightarrow> Result list res" where
  "All_results r =
     res_mapi 0 (\<lambda>_ i.
         let idx = go_rem (rb_head r - rb_count r + int i + capacity) capacity
         in go_index (rb_items r) idx)
       [0..<nat (rb_count r)]"

text \<open>
  The JSON object of a result, field by field in declaration order; \<open>error\<close> and \<open>log\<close> are
  \<open>omitempty\<close>. \<open>Handler\<close> is the value the handler of \<open>GET /results\<close> encodes.
\<close>

definition int_literal :: "int \<Rightarrow> string" where
  "int_literal n = (if n < 0 then CHR ''-'' # itoa (nat (- n)) else itoa (nat n))"

definition omitempty :: "string \<Rightarrow> string \<Rightarrow> members" where
  "omitempty k v = (if v = [] then [] else [(k, JStr v)])"

definition Result_json :: "Result \<Rightarrow> json" where
  "Result_json r =
     JObj ([(''block'', JNum (itoa (unat (rs_Block r)))),
            (''guest'', JStr (rs_Guest r)),
            (''witness_from'', JStr (rs_WitnessFrom r)),
            (''valid'', JBool (rs_Valid r))] @
           omitempty ''error'' (rs_Error r) @
           omitempty ''log'' (rs_Log r) @
           [(''tx_count'', JNum (int_literal (rs_TxCount r))),
            (''gas_used'', JNum (itoa (unat (rs_GasUsed r)))),
            (''duration_ms'', JNum (int_literal (rs_DurationMs r)))])"

definition Handler :: "RingBuffer \<Rightarrow> json res" where
  "Handler r = res_bind (All_results r) (\<lambda>rs. Inr (JArr (map Result_json rs)))"

text \<open>A sequence of \<open>Add\<close> calls, in the order in which they take the lock.\<close>

fun add_all :: "Result list \<Rightarrow> RingBuffer \<Rightarrow> RingBuffer res" where
  "add_all [] r = Inr r"
| "add_all (x # xs) r = res_bind (Add x r) (add_all xs)"

section \<open>The contract of a bounded log\<close>

definition keep_last :: "nat \<Rightarrow> 'a list \<Rightarrow> 'a list" where
  "keep_last n xs = drop (length xs - n) xs"

lemma length_keep_last [simp]: "length (keep_last n xs) = min n (length xs)"
  by (simp add: keep_last_def)

lemma keep_last_all [simp]: "length xs \<le> n \<Longrightarrow> keep_last n xs = xs"
  by (simp add: keep_last_def)

lemma keep_last_append: "keep_last n (keep_last n xs @ ys) = keep_last n (xs @ ys)"
  by (cases "n \<le> length xs") (simp_all add: keep_last_def add.commute)

lemma keep_last_suffix: "\<exists>ys. xs = ys @ keep_last n xs"
  by (metis append_take_drop_id keep_last_def)

lemma keep_last_full:
  assumes "length xs = n" "0 < n"
  shows "keep_last n (xs @ [x]) = tl xs @ [x]"
  using assms by (cases xs) (simp_all add: keep_last_def)

locale bounded_log =
  fixes limit :: nat
    and start :: 'b
    and put :: "'r \<Rightarrow> 'b \<Rightarrow> 'b res"
    and contents :: "'b \<Rightarrow> 'r list res"
    and inv :: "'b \<Rightarrow> bool"
  assumes inv_start: "inv start"
    and contents_start: "contents start = Inr []"
    and contents_ok: "inv b \<Longrightarrow> \<exists>xs. contents b = Inr xs"
    and put_ok: "inv b \<Longrightarrow> contents b = Inr xs \<Longrightarrow>
      \<exists>b'. put x b = Inr b' \<and> inv b' \<and> contents b' = Inr (keep_last limit (xs @ [x]))"
begin

fun put_all :: "'r list \<Rightarrow> 'b \<Rightarrow> 'b res" where
  "put_all [] b = Inr b"
| "put_all (x # xs) b = res_bind (put x b) (put_all xs)"

lemma put_all_from:
  assumes "inv b" "contents b = Inr ys" "length ys \<le> limit"
  shows "\<exists>b'. put_all xs b = Inr b' \<and> inv b' \<and> contents b' = Inr (keep_last limit (ys @ xs))"
  using assms
proof (induction xs arbitrary: b ys)
  case Nil
  then show ?case by simp
next
  case (Cons x xs)
  obtain b1 where b1: "put x b = Inr b1" "inv b1" "contents b1 = Inr (keep_last limit (ys @ [x]))"
    using put_ok [OF Cons.prems(1,2)] by blast
  from Cons.IH [OF b1(2,3)] show ?case
    using keep_last_append [of limit "ys @ [x]" xs] by (simp add: b1(1))
qed

lemma put_all_keeps_last:
  "\<exists>b. put_all xs start = Inr b \<and> inv b \<and> contents b = Inr (keep_last limit xs)"
  using put_all_from [OF inv_start contents_start, of xs] by simp

end

section \<open>The ring buffer is a bounded log\<close>

definition rb_ok :: "RingBuffer \<Rightarrow> bool" where
  "rb_ok r \<longleftrightarrow>
     length (rb_items r) = nat capacity \<and> 0 \<le> rb_head r \<and> rb_head r < capacity \<and>
     0 \<le> rb_count r \<and> rb_count r \<le> capacity \<and> (rb_count r < capacity \<longrightarrow> rb_head r = rb_count r)"

definition ring :: "RingBuffer \<Rightarrow> Result list" where
  "ring r = (if rb_count r < capacity then take (nat (rb_count r)) (rb_items r)
             else rotate (nat (rb_head r)) (rb_items r))"

lemma go_rem_nonneg: "0 \<le> a \<Longrightarrow> 0 < b \<Longrightarrow> go_rem a b = a mod b"
  by (cases "a = 0") (simp_all add: go_rem_def)

lemma All_results_ok:
  assumes "rb_ok r"
  shows "All_results r = Inr (ring r)"
proof -
  let ?h = "rb_head r" and ?c = "rb_count r"
  have bounds: "length (rb_items r) = 1000" "0 \<le> ?h" "?h < 1000" "0 \<le> ?c" "?c \<le> 1000"
    "?c < 1000 \<longrightarrow> ?h = ?c"
    using assms by (simp_all add: rb_ok_def capacity_def)
  have len: "length (ring r) = nat ?c"
    using bounds by (simp add: ring_def capacity_def)
  have "go_index (rb_items r) (go_rem (?h - ?c + int k + capacity) capacity) = Inr (ring r ! k)"
    if k: "k < nat ?c" for k
  proof (cases "?c < 1000")
    case True
    with bounds k show ?thesis
      by (simp add: go_rem_nonneg go_index_def capacity_def ring_def)
  next
    case False
    with bounds have c: "?c = 1000" by simp
    have "nat ((?h + int k) mod 1000) = (nat ?h + k) mod 1000"
      using bounds by (simp add: nat_mod_distrib nat_add_distrib)
    with c bounds k show ?thesis
      by (simp add: go_rem_nonneg go_index_def capacity_def ring_def nth_rotate)
  qed
  with len show ?thesis
    unfolding All_results_def by (subst res_mapi_eq_Inr) (simp add: Let_def)
qed

lemma rotate_update_last:
  assumes "h < length xs"
  shows "rotate (Suc h) (xs[h := x]) = tl (rotate h xs) @ [x]"
proof -
  obtain as a bs where xs: "xs = as @ a # bs" and h: "length as = h"
    using id_take_nth_drop [OF assms] assms by (metis length_take min.absorb4)
  have "rotate (length (as @ [x])) ((as @ [x]) @ bs) = bs @ (as @ [x])"
    by (rule rotate_append)
  moreover have "rotate (length as) (as @ a # bs) = (a # bs) @ as"
    by (rule rotate_append)
  moreover have "xs[h := x] = (as @ [x]) @ bs" by (simp add: xs flip: h)
  ultimately show ?thesis by (simp add: xs del: rotate_Suc flip: h)
qed

lemma Add_ok:
  assumes "rb_ok r"
  shows "\<exists>r'. Add x r = Inr r' \<and> rb_ok r' \<and> ring r' = keep_last (nat capacity) (ring r @ [x])"
proof -
  let ?h = "rb_head r" and ?c = "rb_count r" and ?xs = "rb_items r"
  have bounds: "length ?xs = 1000" "0 \<le> ?h" "?h < 1000" "0 \<le> ?c" "?c \<le> 1000"
    "?c < 1000 \<longrightarrow> ?h = ?c"
    using assms by (simp_all add: rb_ok_def capacity_def)
  let ?r = "\<lparr>rb_items = ?xs[nat ?h := x], rb_head = (?h + 1) mod 1000,
              rb_count = (if ?c < 1000 then ?c + 1 else ?c)\<rparr>"
  have add: "Add x r = Inr ?r"
    using bounds by (simp add: Add_def go_store_def capacity_def go_rem_nonneg)
  have head: "(?h + 1) mod 1000 = (if ?h = 999 then 0 else ?h + 1)"
    using bounds by auto
  have ok: "rb_ok ?r"
    using bounds by (auto simp: rb_ok_def capacity_def head)
  have "ring ?r = keep_last (nat capacity) (ring r @ [x])"
  proof (cases "?c < 1000")
    case True
    have "nat (?c + 1) = Suc (nat ?c)" "nat ?c < length ?xs" using True bounds by simp_all
    then have grown: "take (nat (?c + 1)) (?xs[nat ?c := x]) = take (nat ?c) ?xs @ [x]"
      by (simp add: take_Suc_conv_app_nth)
    show ?thesis
    proof (cases "?c = 999")
      case True
      with grown bounds show ?thesis by (simp add: ring_def capacity_def)
    next
      case False
      with True grown bounds show ?thesis by (simp add: ring_def capacity_def)
    qed
  next
    case False
    have "rotate (nat ((?h + 1) mod 1000)) ys = rotate (Suc (nat ?h)) ys" if "length ys = 1000" for ys :: "Result list"
      using bounds that by (auto simp: head nat_add_distrib rotate_conv_mod [of 1000 ys] simp del: rotate_Suc)
    with False bounds show ?thesis
      by (simp add: ring_def capacity_def rotate_update_last keep_last_full del: rotate_Suc)
  qed
  with add ok show ?thesis by blast
qed

interpretation results: bounded_log "nat capacity" empty_RingBuffer Add All_results rb_ok
proof unfold_locales
  show ok: "rb_ok empty_RingBuffer"
    by (simp add: rb_ok_def empty_RingBuffer_def capacity_def)
  show "All_results empty_RingBuffer = Inr []"
    by (simp add: All_results_ok [OF ok]) (simp add: ring_def empty_RingBuffer_def capacity_def)
  show "\<exists>xs. All_results b = Inr xs" if "rb_ok b" for b
    using that by (simp add: All_results_ok)
  show "\<exists>b'. Add x b = Inr b' \<and> rb_ok b' \<and> All_results b' = Inr (keep_last (nat capacity) (xs @ [x]))"
    if "rb_ok b" "All_results b = Inr xs" for b xs x
    using that Add_ok [of b x] by (auto simp: All_results_ok)
qed

lemma add_all_put_all: "add_all xs r = results.put_all xs r"
proof (induction xs arbitrary: r)
  case (Cons x xs)
  then have "add_all xs = results.put_all xs" by blast
  then show ?case by simp
qed simp

section \<open>Properties\<close>

text \<open>
  C12: the ring buffer never indexes out of range, and after any sequence of \<open>Add\<close> calls on a new
  buffer \<open>All\<close> returns exactly the last 1000 results, oldest first, which is what \<open>Handler\<close> serves.
\<close>

theorem ring_buffer_keeps_last_1000:
  "\<exists>r. add_all xs empty_RingBuffer = Inr r \<and> All_results r = Inr (keep_last 1000 xs) \<and>
       Handler r = Inr (JArr (map Result_json (keep_last 1000 xs)))"
  using results.put_all_keeps_last [of xs]
  by (auto simp: add_all_put_all Handler_def capacity_def)

end
