(* ===== verification/Runner.thy ===== *)
theory Runner
  imports Ring_Buffer Metrics
begin

text \<open>
  \<open>runner/runner.go\<close>: the list of guests and the execution of one guest on one input. Starting
  a process is a parameter: \<open>exec path input\<close> is what the command left behind. The contract
  between the runner and a guest is the 43-byte \<open>SszStatelessValidationResult\<close>.
\<close>

section \<open>Guest list\<close>

record GuestSpec =
  gs_Name :: string
  gs_Path :: string

fun parse_entries :: "string list \<Rightarrow> GuestSpec list \<Rightarrow> GuestSpec list res" where
  "parse_entries [] specs = Inr specs"
| "parse_entries (e # es) specs =
     (let entry = TrimSpace e
      in if entry = [] then parse_entries es specs
         else (case str_Index entry '':'' of
                 None \<Rightarrow>
                   Inl (Errorf (''invalid GUEST_BINARIES entry '' @ go_quote entry @
                                '': expected name:/path''))
               | Some idx \<Rightarrow>
                   parse_entries es
                     (specs @ [\<lparr>gs_Name = take idx entry, gs_Path = drop (idx + 1) entry\<rparr>])))"

definition ParseGuestSpecs :: "string \<Rightarrow> GuestSpec list res" where
  "ParseGuestSpecs s =
     res_bind (parse_entries (str_Split CHR '','' s) []) (\<lambda>specs.
       if length specs = 0 then Inl (Errorf ''GUEST_BINARIES is empty'') else Inr specs)"

section \<open>Running a guest\<close>

record ExecOutcome =
  ex_err :: "go_error option"
  ex_stdout :: bytes
  ex_stderr :: string
  ex_durationMs :: int

definition statelessOutputSize :: nat where
  "statelessOutputSize = 43"

text \<open>The result, the error if there is one, and the metrics after the call.\<close>

definition Run ::
  "(string \<Rightarrow> bytes \<Rightarrow> ExecOutcome) \<Rightarrow> GuestSpec \<Rightarrow> bytes \<Rightarrow> u64 \<Rightarrow> Metrics \<Rightarrow>
   (Result \<times> go_error option) \<times> Metrics" where
  "Run exec spec input blockNum m =
     (let x = exec (gs_Path spec) input;
          durationMs = ex_durationMs x;
          logOutput = TrimSpace (ex_stderr x)
      in case ex_err x of
           Some e \<Rightarrow>
             ((zero_Result\<lparr>rs_Log := logOutput\<rparr>,
               Some (wrap_error (''runner ['' @ gs_Name spec @ '']'') e)),
              observe_duration (gs_Name spec) durationMs (inc_verified (gs_Name spec) ''error'' m))
         | None \<Rightarrow>
             let out = ex_stdout x
             in if length out < statelessOutputSize then
                  ((zero_Result\<lparr>rs_Log := logOutput\<rparr>,
                    Some (Errorf (''runner ['' @ gs_Name spec @ '']: output too short ('' @
                                  itoa (length out) @ '' bytes)''))),
                   observe_duration (gs_Name spec) durationMs (inc_verified (gs_Name spec) ''error'' m))
                else
                  let valid = (out ! 32 = 1);
                      result = (if \<not> valid then ''fail'' else ''ok'')
                  in ((zero_Result\<lparr>rs_Block := blockNum, rs_Guest := gs_Name spec, rs_Valid := valid,
                                   rs_Log := logOutput, rs_DurationMs := durationMs\<rparr>, None),
                      observe_duration (gs_Name spec) durationMs
                        (inc_verified (gs_Name spec) result m)))"

section \<open>The guest's answer\<close>

text \<open>The output format of the guest contract, as the package comment lays it out.\<close>

record ValidationResult =
  vr_root :: hash
  vr_success :: bool
  vr_chain_id :: u64
  vr_schema_id :: u16

definition encode_result :: "ValidationResult \<Rightarrow> bytes" where
  "encode_result v =
     be_bytes 32 (unat (vr_root v)) @ [if vr_success v then 1 else 0] @
     le_bytes 8 (unat (vr_chain_id v)) @ le_bytes 2 (unat (vr_schema_id v))"

lemma length_encode_result [simp]: "length (encode_result v) = 43"
  by (simp add: encode_result_def)

lemma encode_result_flag: "encode_result v ! 32 = (if vr_success v then 1 else 0)"
  by (simp add: encode_result_def nth_append)

definition outcome_label :: "ExecOutcome \<Rightarrow> string" where
  "outcome_label x =
     (if ex_err x \<noteq> None \<or> length (ex_stdout x) < 43 then ''error''
      else if ex_stdout x ! 32 = 1 then ''ok'' else ''fail'')"

lemma Run_metrics:
  "snd (Run exec spec input n m) =
     observe_duration (gs_Name spec) (ex_durationMs (exec (gs_Path spec) input))
       (inc_verified (gs_Name spec) (outcome_label (exec (gs_Path spec) input)) m)"
  by (simp add: Run_def outcome_label_def Let_def statelessOutputSize_def split: option.splits)

lemma Run_result:
  "fst (Run exec spec input n m) = (r, e) \<Longrightarrow>
     (e = None \<longleftrightarrow> outcome_label (exec (gs_Path spec) input) \<noteq> ''error'') \<and>
     (rs_Valid r \<longleftrightarrow> outcome_label (exec (gs_Path spec) input) = ''ok'') \<and>
     rs_Log r = TrimSpace (ex_stderr (exec (gs_Path spec) input)) \<and>
     (e = None \<longrightarrow> rs_Block r = n \<and> rs_Guest r = gs_Name spec)"
  by (auto simp: Run_def outcome_label_def Let_def statelessOutputSize_def zero_Result_def
      split: option.splits if_splits)

section \<open>Guest list round trip\<close>

definition show_spec :: "GuestSpec \<Rightarrow> string" where
  "show_spec g = gs_Name g @ '':'' @ gs_Path g"

definition spec_ok :: "GuestSpec \<Rightarrow> bool" where
  "spec_ok g \<longleftrightarrow>
     CHR '':'' \<notin> set (gs_Name g) \<and> CHR '','' \<notin> set (show_spec g) \<and> TrimSpace (show_spec g) = show_spec g"

lemma str_Index_char:
  "c \<notin> set xs \<Longrightarrow> str_Index (xs @ c # ys) [c] = Some (length xs)"
  by (induction xs) (auto simp: HasPrefix_def)

lemma str_Index_char_None: "str_Index s [c] = None \<longleftrightarrow> c \<notin> set s"
  by (induction s) (auto simp: HasPrefix_def)

lemma parse_entries_show:
  "list_all spec_ok gs \<Longrightarrow> parse_entries (map show_spec gs) acc = Inr (acc @ gs)"
proof (induction gs arbitrary: acc)
  case (Cons g gs)
  have "str_Index (show_spec g) '':'' = Some (length (gs_Name g))"
    using Cons.prems str_Index_char [of "CHR '':''" "gs_Name g" "gs_Path g"]
    by (simp add: spec_ok_def show_spec_def)
  with Cons show ?case
    by (simp add: spec_ok_def Let_def) (simp add: show_spec_def)
qed simp

section \<open>Properties\<close>

text \<open>
  Parsing \<open>GUEST_BINARIES\<close> inverts writing it. A non-empty list of guests whose entries have no
  comma, no surrounding space and no colon in the name, joined by commas as \<open>name:path\<close>, parses to
  that list, in order.
\<close>

lemma guest_specs_roundtrip:
  assumes "gs \<noteq> []" and "list_all spec_ok gs"
  shows "ParseGuestSpecs (str_Join '','' (map show_spec gs)) = Inr gs"
proof -
  have "str_Split CHR '','' (str_Join '','' (map show_spec gs)) = map show_spec gs"
    using assms by (intro str_Split_Join) (auto simp: list_all_iff spec_ok_def)
  with assms show ?thesis
    by (simp add: ParseGuestSpecs_def parse_entries_show)
qed

lemma guest_specs_roundtrip_example:
  "ParseGuestSpecs (str_Join '','' (map show_spec
     [\<lparr>gs_Name = ''zesu'', gs_Path = ''/bin/z''\<rparr>, \<lparr>gs_Name = ''g'', gs_Path = ''C:/g''\<rparr>])) =
   Inr [\<lparr>gs_Name = ''zesu'', gs_Path = ''/bin/z''\<rparr>, \<lparr>gs_Name = ''g'', gs_Path = ''C:/g''\<rparr>]"
proof (rule guest_specs_roundtrip)
  show "list_all spec_ok
     [\<lparr>gs_Name = ''zesu'', gs_Path = ''/bin/z''\<rparr>, \<lparr>gs_Name = ''g'', gs_Path = ''C:/g''\<rparr>]"
    by code_simp
qed simp

text \<open>
  C15: the verdict and the counters agree. Whatever the guest process does, \<open>Run\<close> reports a valid
  block only when the process ended without an error and wrote at least 43 bytes with byte 32 equal to
  1; it returns an error exactly when the process failed or wrote too little; it adds one to exactly
  one of the counters ok, fail and error of this guest, the one of its verdict, and observes one
  duration.
\<close>

theorem run_verdict_and_metrics:
  "let x = exec (gs_Path spec) input;
       rem = Run exec spec input n m;
       r = fst (fst rem); e = snd (fst rem); m' = snd rem
   in (rs_Valid r \<longleftrightarrow> ex_err x = None \<and> 43 \<le> length (ex_stdout x) \<and> ex_stdout x ! 32 = 1) \<and>
      (e = None \<longleftrightarrow> ex_err x = None \<and> 43 \<le> length (ex_stdout x)) \<and>
      m_BlockVerifiedTotal m' =
        (m_BlockVerifiedTotal m)
          ((gs_Name spec, if e \<noteq> None then ''error'' else if rs_Valid r then ''ok'' else ''fail'') :=
             m_BlockVerifiedTotal m
               (gs_Name spec, if e \<noteq> None then ''error'' else if rs_Valid r then ''ok'' else ''fail'') + 1) \<and>
      m_VerificationDurationMs m' (gs_Name spec) =
        m_VerificationDurationMs m (gs_Name spec) @ [ex_durationMs x]"
  by (cases "ex_err (exec (gs_Path spec) input)";
      cases "length (ex_stdout (exec (gs_Path spec) input)) < 43")
    (simp_all add: Run_def Let_def statelessOutputSize_def zero_Result_def inc_verified_def
      observe_duration_def)

text \<open>
  The runner reads the guest's answer as the guest meant it: a process that ends normally and
  writes the serialised validation result, with or without trailing bytes, yields a result without
  error whose verdict is the success flag.
\<close>

lemma run_reads_validation_result:
  assumes "exec (gs_Path spec) input =
      \<lparr>ex_err = None, ex_stdout = encode_result v @ rest, ex_stderr = l, ex_durationMs = d\<rparr>"
  shows "fst (Run exec spec input n m) =
    (zero_Result\<lparr>rs_Block := n, rs_Guest := gs_Name spec, rs_Valid := vr_success v,
                 rs_Log := TrimSpace l, rs_DurationMs := d\<rparr>, None)"
  using assms encode_result_flag [of v]
  by (simp add: Run_def Let_def statelessOutputSize_def nth_append)

lemma run_reads_validation_result_example:
  "rs_Valid (fst (fst (Run (\<lambda>_ _. \<lparr>ex_err = None,
       ex_stdout = encode_result \<lparr>vr_root = 5, vr_success = True, vr_chain_id = 1, vr_schema_id = 2\<rparr> @ [],
       ex_stderr = [], ex_durationMs = 12\<rparr>) \<lparr>gs_Name = ''g'', gs_Path = ''p''\<rparr> [] 7 zero_Metrics)))"
proof -
  let ?v = "\<lparr>vr_root = 5, vr_success = True, vr_chain_id = 1, vr_schema_id = 2\<rparr>"
  let ?x = "\<lparr>ex_err = None, ex_stdout = encode_result ?v @ [], ex_stderr = [], ex_durationMs = 12\<rparr>"
  let ?g = "\<lparr>gs_Name = ''g'', gs_Path = ''p''\<rparr>"
  from run_reads_validation_result [of "\<lambda>_ _. ?x" ?g "[]" ?v "[]" "[]" 12 7 zero_Metrics]
  show ?thesis by simp
qed

end
