(* ===== verification/Go_Path.thy ===== *)
theory Go_Path
  imports Go_Strings
begin

text \<open>
  The functions of Go's \<open>path/filepath\<close> that the source calls, for slash-separated paths.
\<close>

text \<open>One path element at a time; \<open>out\<close> holds the elements kept so far, the last one first.\<close>

fun clean_elems :: "bool \<Rightarrow> string list \<Rightarrow> string list \<Rightarrow> string list" where
  "clean_elems rooted out [] = rev out"
| "clean_elems rooted out (e # es) =
     (if e = [] \<or> e = ''.'' then clean_elems rooted out es
      else if e = ''..'' then
        (if out \<noteq> [] \<and> hd out \<noteq> ''..'' then clean_elems rooted (tl out) es
         else if rooted then clean_elems rooted out es
         else clean_elems rooted (e # out) es)
      else clean_elems rooted (e # out) es)"

definition path_Clean :: "string \<Rightarrow> string" where
  "path_Clean p =
     (let rooted = HasPrefix p ''/'';
          body = str_Join ''/'' (clean_elems rooted [] (str_Split CHR ''/'' p))
      in if rooted then ''/'' @ body else if body = [] then ''.'' else body)"

definition path_Join :: "string list \<Rightarrow> string" where
  "path_Join elems =
     (let es = filter (\<lambda>e. e \<noteq> []) elems
      in if es = [] then [] else path_Clean (str_Join ''/'' es))"

text \<open>\<open>filepath.Base\<close> and \<open>filepath.Dir\<close>: what follows and what precedes the last slash.\<close>

definition path_Base :: "string \<Rightarrow> string" where
  "path_Base p =
     (if p = [] then ''.''
      else let q = rev (dropWhile (\<lambda>c. c = CHR ''/'') (rev p))
           in if q = [] then ''/'' else rev (takeWhile (\<lambda>c. c \<noteq> CHR ''/'') (rev q)))"

definition path_Dir :: "string \<Rightarrow> string" where
  "path_Dir p = path_Clean (rev (dropWhile (\<lambda>c. c \<noteq> CHR ''/'') (rev p)))"

lemma clean_elems_plain:
  "(\<And>e. e \<in> set es \<Longrightarrow> e \<noteq> [] \<and> e \<noteq> ''.'' \<and> e \<noteq> ''..'') \<Longrightarrow>
     clean_elems rooted out es = rev out @ es"
  by (induction es arbitrary: out) auto

text \<open>A file name is kept as it is behind the cleaned directory.\<close>

definition plain_name :: "string \<Rightarrow> bool" where
  "plain_name n \<longleftrightarrow> CHR ''/'' \<notin> set n \<and> n \<noteq> [] \<and> n \<noteq> ''.'' \<and> n \<noteq> ''..''"

lemma clean_elems_snoc:
  "plain_name n \<Longrightarrow> clean_elems rooted out (es @ [n]) = clean_elems rooted out es @ [n]"
  by (induction rooted out es rule: clean_elems.induct) (auto simp: plain_name_def)

definition join_prefix :: "string \<Rightarrow> string" where
  "join_prefix dir =
     (if dir = [] then []
      else let rooted = HasPrefix dir ''/''; es = clean_elems rooted [] (str_Split CHR ''/'' dir)
           in (if rooted then ''/'' else []) @ (if es = [] then [] else str_Join ''/'' es @ ''/''))"

lemma path_Join_name:
  assumes "plain_name n"
  shows "path_Join [dir, n] = join_prefix dir @ n"
proof (cases "dir = []")
  case True
  have "\<not> HasPrefix n ''/''" using assms by (cases n) (auto simp: plain_name_def HasPrefix_def)
  with assms True show ?thesis
    by (simp add: path_Join_def path_Clean_def join_prefix_def str_Split_plain plain_name_def)
next
  case False
  let ?es = "\<lambda>rooted. clean_elems rooted [] (str_Split CHR ''/'' dir)"
  have "HasPrefix (dir @ CHR ''/'' # n) ''/'' = HasPrefix dir ''/''"
    using False by (cases dir) (simp_all add: HasPrefix_def)
  moreover have "str_Split CHR ''/'' n = [n]" "n \<noteq> []" using assms by (simp_all add: str_Split_plain plain_name_def)
  moreover from this have "clean_elems rooted [] (str_Split CHR ''/'' (dir @ CHR ''/'' # n)) = ?es rooted @ [n]" for rooted
    using assms by (simp add: str_Split_sep clean_elems_snoc)
  ultimately show ?thesis
    using False by (simp add: path_Join_def path_Clean_def join_prefix_def Let_def str_Join_snoc)
qed

lemma path_Join_examples:
  "path_Join [''/dumps'', ''7.bin''] = ''/dumps/7.bin''"
  "path_Join [''out/'', ''../x'', ''7.bin''] = ''x/7.bin''"
  "path_Base ''/a/b.json/'' = ''b.json''" "path_Dir ''/a/b.json'' = ''/a''" "path_Dir ''b'' = ''.''"
  by code_simp+

end
