(* ===== verification/Transition.thy ===== *)
theory Transition
  imports Main
begin

text \<open>
  What the step relations of the development share: reachability from a given state, invariants,
  simulation of one system by another, and runs that are driven by a list of events.
\<close>

section \<open>Reachable states\<close>

text \<open>\<open>reach s0 s\<close>: the state \<open>s\<close> can be reached from \<open>s0\<close>.\<close>

locale transition_system =
  fixes step :: "'s \<Rightarrow> 's \<Rightarrow> bool" and reach :: "'s \<Rightarrow> 's \<Rightarrow> bool"
  assumes start: "reach s s"
    and extend: "reach s0 s \<Longrightarrow> step s s' \<Longrightarrow> reach s0 s'"
    and least: "reach s0 s \<Longrightarrow> P s0 \<Longrightarrow> (\<And>s s'. reach s0 s \<Longrightarrow> P s \<Longrightarrow> step s s' \<Longrightarrow> P s') \<Longrightarrow> P s"
begin

lemma single: "step s s' \<Longrightarrow> reach s s'"
  by (rule extend [OF start])

lemma trans: "reach s1 s2 \<Longrightarrow> reach s0 s1 \<Longrightarrow> reach s0 s2"
  by (rule least [of s1 s2 "reach s0"]) (auto intro: extend)

lemma invariant:
  assumes "reach s0 s" "I s0" "\<And>s s'. step s s' \<Longrightarrow> I s \<Longrightarrow> I s'"
  shows "I s"
  using assms(1,2) by (rule least) (rule assms(3))

lemma is_closure: "reach = step\<^sup>*\<^sup>*"
proof (intro ext iffI)
  show "step\<^sup>*\<^sup>* s s'" if "reach s s'" for s s'
    using that by (rule least) (auto intro: rtranclp.rtrancl_into_rtrancl)
  show "reach s s'" if "step\<^sup>*\<^sup>* s s'" for s s'
    using that by induction (auto intro: start extend)
qed

end

section \<open>Simulation\<close>

text \<open>
  Every step the detailed system takes from a state with the invariant is a step of the abstract system
  or leaves the abstract state as it is.
\<close>

locale simulation = detailed: transition_system step reach + abstract: transition_system astep areach
  for step :: "'s \<Rightarrow> 's \<Rightarrow> bool" and reach and astep :: "'a \<Rightarrow> 'a \<Rightarrow> bool" and areach +
  fixes abst :: "'s \<Rightarrow> 'a" and inv :: "'s \<Rightarrow> bool"
  assumes inv_step: "step s s' \<Longrightarrow> inv s \<Longrightarrow> inv s'"
    and simulates: "step s s' \<Longrightarrow> inv s \<Longrightarrow> abst s' = abst s \<or> astep (abst s) (abst s')"
begin

lemma inv_reach: "reach s0 s \<Longrightarrow> inv s0 \<Longrightarrow> inv s"
  by (rule detailed.invariant) (auto intro: inv_step)

lemma refines:
  assumes "reach s0 s" "inv s0"
  shows "areach (abst s0) (abst s)"
  using assms(1)
proof (rule detailed.least)
  show "areach (abst s0) (abst s0)" by (rule abstract.start)
  fix s s' assume "reach s0 s" "areach (abst s0) (abst s)" "step s s'"
  then show "areach (abst s0) (abst s')"
    using simulates inv_reach [OF _ assms(2)] abstract.extend by metis
qed

text \<open>An invariant of the abstract system holds of every abstract state of the detailed one.\<close>

lemma abstract_invariant:
  assumes "reach s0 s" "inv s0" "I (abst s0)" "\<And>a a'. astep a a' \<Longrightarrow> I a \<Longrightarrow> I a'"
  shows "I (abst s)"
  using refines [OF assms(1,2)] assms(3,4) by (rule abstract.invariant)

end

section \<open>Runs driven by events\<close>

text \<open>\<open>None\<close> when an event cannot happen in the state that was reached.\<close>

fun run_events :: "('e \<Rightarrow> 's \<Rightarrow> 's option) \<Rightarrow> 'e list \<Rightarrow> 's \<Rightarrow> 's option" where
  "run_events act [] s = Some s"
| "run_events act (e # es) s = Option.bind (act e s) (run_events act es)"

lemma run_events_append:
  "run_events act (es @ fs) s = Option.bind (run_events act es s) (run_events act fs)"
proof (induction es arbitrary: s)
  case (Cons e es)
  then show ?case by (cases "act e s") simp_all
qed simp

text \<open>An invariant may speak of the events so far.\<close>

lemma run_events_history:
  assumes "run_events act es s0 = Some s" "I [] s0"
    and "\<And>es e s s'. I es s \<Longrightarrow> act e s = Some s' \<Longrightarrow> I (es @ [e]) s'"
  shows "I es s"
  using assms(1)
proof (induction es arbitrary: s rule: rev_induct)
  case (snoc e es)
  then obtain s1 where "run_events act es s0 = Some s1" "act e s1 = Some s"
    by (auto simp: run_events_append Option.bind_eq_Some_conv split: option.splits)
  with snoc.IH assms(3) show ?case by blast
qed (use assms(2) in simp)

locale event_system = transition_system step reach for step :: "'s \<Rightarrow> 's \<Rightarrow> bool" and reach +
  fixes act :: "'e \<Rightarrow> 's \<Rightarrow> 's option"
  assumes act_step: "step s s' \<longleftrightarrow> (\<exists>e. act e s = Some s')"
begin

lemma reach_run: "reach s0 s \<longleftrightarrow> (\<exists>es. run_events act es s0 = Some s)"
proof
  assume "reach s0 s"
  then show "\<exists>es. run_events act es s0 = Some s"
  proof (rule least)
    show "\<exists>es. run_events act es s0 = Some s0" by (rule exI [of _ "[]"]) simp
    fix s s' assume "\<exists>es. run_events act es s0 = Some s" "step s s'"
    then obtain es e where "run_events act es s0 = Some s" "act e s = Some s'" using act_step by blast
    then have "run_events act (es @ [e]) s0 = Some s'" by (simp add: run_events_append)
    then show "\<exists>es. run_events act es s0 = Some s'" by blast
  qed
next
  assume "\<exists>es. run_events act es s0 = Some s"
  then obtain es where "run_events act es s0 = Some s" by blast
  then show "reach s0 s"
    by (rule run_events_history [where I = "\<lambda>_. reach s0"]) (use act_step in \<open>auto intro: start extend\<close>)
qed

end

end
