(* ===== verification/Live.thy ===== *)
theory Live
  imports Pipeline Runner Go_Path Transition
begin

text \<open>
  \<open>main.go\<close>: the configuration, the one-shot modes \<open>runBlock\<close> and \<open>dumpBlock\<close>, and the live mode
  as a transition system. The live loop and the pool's polling goroutine share the pool; the guests
  of one block run concurrently and each adds its result to the ring buffer when it ends. The steps
  are the points at which these goroutines touch shared state.
\<close>

section \<open>Configuration\<close>

definition splitEnv :: "(string \<Rightarrow> string) \<Rightarrow> string \<Rightarrow> string list" where
  "splitEnv getenv key =
     (let val = getenv key
      in if val = [] then []
         else filter (\<lambda>s. s \<noteq> []) (map TrimSpace (str_Split CHR '','' val)))"

definition envOr :: "(string \<Rightarrow> string) \<Rightarrow> string \<Rightarrow> string \<Rightarrow> string" where
  "envOr getenv key def = (if getenv key \<noteq> [] then getenv key else def)"

record config =
  cf_genesis :: GenesisChainConfig
  cf_guests :: "GuestSpec list"
  cf_engineURL :: string
  cf_jwtSecretFile :: string
  cf_listenAddr :: string

datatype mode =
    Dump u64 string
  | Once u64
  | LiveMode

text \<open>
  The straight-line part of \<open>main\<close> up to the choice of the mode. \<open>Inl\<close> is \<open>log.Fatal\<close> with its
  text; \<open>readFile\<close> and \<open>syntax\<close> serve the genesis file, \<open>newPool\<close> is \<open>pool.New\<close> in the environment
  of the run.
\<close>

definition main_start ::
  "(string \<Rightarrow> string) \<Rightarrow> (string \<Rightarrow> string res) \<Rightarrow> (string \<Rightarrow> json res) \<Rightarrow>
   (string list \<Rightarrow> (Pool \<times> Metrics) res) \<Rightarrow> (config \<times> Pool \<times> Metrics \<times> mode) res" where
  "main_start getenv readFile syntax newPool =
     (let elURLs = splitEnv getenv ''EL_RPC_URLS'';
          listenAddr = envOr getenv ''LISTEN_ADDR'' '':8080''
      in if length elURLs = 0
         then Inl (Errorf ''EL_RPC_URLS is required (comma-separated list of RPC endpoints)'')
         else
           res_bind (let path = getenv ''GENESIS_FILE''
                     in if path \<noteq> []
                        then res_wrap ''GENESIS_FILE'' (ParseGenesisFile syntax path (readFile path))
                        else Inr DefaultMainnetChainConfig) (\<lambda>genesis.
           res_bind (res_wrap ''GUEST_BINARIES'' (ParseGuestSpecs (getenv ''GUEST_BINARIES''))) (\<lambda>guests.
           res_bind (res_wrap ''pool init'' (newPool elURLs)) (\<lambda>(p, m).
           let cfg = \<lparr>cf_genesis = genesis, cf_guests = guests, cf_engineURL = getenv ''ENGINE_RPC_URL'',
                      cf_jwtSecretFile = getenv ''JWT_SECRET_FILE'', cf_listenAddr = listenAddr\<rparr>;
               blockStr = getenv ''BLOCK_NUMBER'';
               dir = getenv ''DUMP_DIR''
           in if blockStr \<noteq> [] then
                res_bind (res_wrap ''BLOCK_NUMBER'' (ParseUint_res blockStr 10)) (\<lambda>blockNum.
                  Inr (cfg, p, m, if dir \<noteq> [] then Dump blockNum dir else Once blockNum))
              else if dir \<noteq> [] then Inl (Errorf ''DUMP_DIR requires BLOCK_NUMBER'')
              else Inr (cfg, p, m, LiveMode)))))"

section \<open>One-shot modes\<close>

text \<open>\<open>pipeline.Fetch\<close> with the settings of the run.\<close>

definition fetch_block ::
  "geth \<Rightarrow> 'c node_api \<Rightarrow> world \<Rightarrow> config \<Rightarrow> Pool \<Rightarrow> u64 \<Rightarrow> fetched \<times> Pool" where
  "fetch_block G A E cfg p n =
     Fetch G A E p n (Some (cf_genesis cfg)) (cf_engineURL cfg) (cf_jwtSecretFile cfg)"

text \<open>
  The goroutines of \<open>runBlock\<close> in the order in which they end; each only ever sets \<open>exitCode\<close> to 1.
  An exit code is \<open>Inr\<close>; a panic of the encoder ends the process instead.
\<close>

fun run_guests ::
  "(string \<Rightarrow> bytes \<Rightarrow> ExecOutcome) \<Rightarrow> bytes \<Rightarrow> u64 \<Rightarrow> GuestSpec list \<Rightarrow> int \<Rightarrow> Metrics \<Rightarrow> int \<times> Metrics" where
  "run_guests exec input blockNum [] exitCode m = (exitCode, m)"
| "run_guests exec input blockNum (spec # specs) exitCode m =
     (let ((result, err), m') = Run exec spec input blockNum m
      in run_guests exec input blockNum specs
           (if err \<noteq> None then 1 else if rs_Valid result then exitCode else 1) m')"

definition runBlock ::
  "geth \<Rightarrow> 'c node_api \<Rightarrow> world \<Rightarrow> (string \<Rightarrow> bytes \<Rightarrow> ExecOutcome) \<Rightarrow> config \<Rightarrow> GuestSpec list \<Rightarrow>
   Pool \<Rightarrow> u64 \<Rightarrow> Metrics \<Rightarrow> (int \<times> Metrics) res" where
  "runBlock G A E exec cfg order p blockNum m =
     (case fe_input (fst (fetch_block G A E cfg p blockNum)) of
        Inl e \<Rightarrow> if is_panic e then Inl e else Inr (1, m)
      | Inr input \<Rightarrow> Inr (run_guests exec input blockNum order 0 m))"

text \<open>
  The files of the run as a map; \<open>os.MkdirAll\<close> and \<open>os.WriteFile\<close> are parameters that return an
  error or nil and the files afterwards.
\<close>

type_synonym files = "string \<Rightarrow> bytes option"

record file_ops =
  os_MkdirAll :: "string \<Rightarrow> go_error option"
  os_WriteFile :: "string \<Rightarrow> bytes \<Rightarrow> files \<Rightarrow> go_error option \<times> files"

definition write_file_law :: "file_ops \<Rightarrow> bool" where
  "write_file_law F \<longleftrightarrow>
     (\<forall>path data fs fs'. os_WriteFile F path data fs = (None, fs') \<longrightarrow> fs' = fs(path \<mapsto> data))"

definition dump_path :: "string \<Rightarrow> u64 \<Rightarrow> string" where
  "dump_path dir blockNum = path_Join [dir, itoa (unat blockNum) @ ''.bin'']"

definition dumpBlock ::
  "geth \<Rightarrow> 'c node_api \<Rightarrow> world \<Rightarrow> file_ops \<Rightarrow> config \<Rightarrow> Pool \<Rightarrow> u64 \<Rightarrow> string \<Rightarrow> files \<Rightarrow> (int \<times> files) res" where
  "dumpBlock G A E F cfg p blockNum dir fs =
     (let fe = fst (fetch_block G A E cfg p blockNum)
      in case fe_input fe of
           Inl e \<Rightarrow> if is_panic e then Inl e else Inr (1, fs)
         | Inr input \<Rightarrow>
             if bm_BALErr (fe_meta fe) \<noteq> None then Inr (1, fs)
             else if os_MkdirAll F dir \<noteq> None then Inr (1, fs)
             else (case os_WriteFile F (dump_path dir blockNum) (ZkvmFrame input) fs of
                     (Some _, fs') \<Rightarrow> Inr (1, fs')
                   | (None, fs') \<Rightarrow> Inr (0, fs')))"

section \<open>Live mode\<close>

text \<open>The goroutine of one guest, up to \<open>buf.Add\<close>.\<close>

definition verify_guest ::
  "(string \<Rightarrow> bytes \<Rightarrow> ExecOutcome) \<Rightarrow> bytes \<Rightarrow> string \<Rightarrow> BlockMeta \<Rightarrow> u64 \<Rightarrow> GuestSpec \<Rightarrow> Metrics \<Rightarrow>
   Result \<times> Metrics" where
  "verify_guest exec input elNode meta blockNum spec m =
     (let ((result, err), m') = Run exec spec input blockNum m;
          result = result\<lparr>rs_WitnessFrom := elNode, rs_TxCount := bm_TxCount meta,
                          rs_GasUsed := bm_GasUsed meta\<rparr>;
          result = (case err of
                      None \<Rightarrow> result
                    | Some e \<Rightarrow> result\<lparr>rs_Block := blockNum, rs_Guest := gs_Name spec,
                                       rs_Error := error_text e\<rparr>)
      in (result, m'))"

text \<open>
  \<open>Waiting\<close>: the loop is in its \<open>select\<close>. \<open>Verifying n node meta input gs\<close>: block \<open>n\<close> was fetched
  and the guests \<open>gs\<close> have not added their results yet. \<open>Crashed\<close>: the encoder panicked.
  \<open>ls_received\<close>, \<open>ls_fetched\<close> and \<open>ls_log\<close> record the heads received, the heads whose fetch
  succeeded, and the results added, all in order; the program does not keep them.
\<close>

datatype phase =
    Waiting
  | Verifying u64 string BlockMeta bytes "GuestSpec list"
  | Crashed

record live_state =
  ls_pool :: Pool
  ls_buf :: RingBuffer
  ls_metrics :: Metrics
  ls_phase :: phase
  ls_received :: "u64 list"
  ls_fetched :: "u64 list"
  ls_log :: "Result list"

definition live_init :: "Pool \<Rightarrow> Metrics \<Rightarrow> live_state" where
  "live_init p m =
     \<lparr>ls_pool = p, ls_buf = empty_RingBuffer, ls_metrics = m, ls_phase = Waiting,
      ls_received = [], ls_fetched = [], ls_log = []\<rparr>"

text \<open>\<open>blockNum := <-p.Heads\<close>, the block-height gauge, and \<open>Fetch\<close>.\<close>

definition receive ::
  "geth \<Rightarrow> 'c node_api \<Rightarrow> world \<Rightarrow> config \<Rightarrow> live_state \<Rightarrow> live_state" where
  "receive G A E cfg s =
     (case pl_Heads (ls_pool s) of
        [] \<Rightarrow> s
      | n # hs \<Rightarrow>
          let (fe, p) = fetch_block G A E cfg ((ls_pool s)\<lparr>pl_Heads := hs\<rparr>) n;
              s' = s\<lparr>ls_pool := p, ls_metrics := (ls_metrics s)\<lparr>m_BlockHeight := n\<rparr>,
                     ls_received := ls_received s @ [n]\<rparr>
          in case fe_input fe of
               Inl e \<Rightarrow> if is_panic e then s'\<lparr>ls_phase := Crashed\<rparr> else s'
             | Inr input \<Rightarrow>
                 s'\<lparr>ls_phase := Verifying n (fe_elNode fe) (fe_meta fe) input (cf_guests cfg),
                    ls_fetched := ls_fetched s @ [n]\<rparr>)"

text \<open>The guest at position \<open>i\<close> of those still running ends and adds its result.\<close>

definition finish_guest ::
  "(string \<Rightarrow> bytes \<Rightarrow> ExecOutcome) \<Rightarrow> nat \<Rightarrow> live_state \<Rightarrow> live_state res" where
  "finish_guest exec i s =
     (case ls_phase s of
        Verifying n node meta input gs \<Rightarrow>
          let (result, m) = verify_guest exec input node meta n (gs ! i) (ls_metrics s)
          in res_bind (Add result (ls_buf s)) (\<lambda>buf.
               Inr (s\<lparr>ls_buf := buf, ls_metrics := m,
                      ls_phase := Verifying n node meta input (take i gs @ drop (Suc i) gs),
                      ls_log := ls_log s @ [result]\<rparr>))
      | _ \<Rightarrow> Inr s)"

inductive live_step :: "geth \<Rightarrow> 'c node_api \<Rightarrow> config \<Rightarrow> live_state \<Rightarrow> live_state \<Rightarrow> bool"
  for G A cfg where
  Poll: "ls_phase s \<noteq> Crashed \<Longrightarrow>
    live_step G A cfg s (s\<lparr>ls_pool := poll T (ls_pool s)\<rparr>)"
| Receive: "ls_phase s = Waiting \<Longrightarrow> pl_Heads (ls_pool s) \<noteq> [] \<Longrightarrow>
    live_step G A cfg s (receive G A E cfg s)"
| Finish: "ls_phase s = Verifying n node meta input gs \<Longrightarrow> i < length gs \<Longrightarrow>
    finish_guest exec i s = Inr s' \<Longrightarrow> live_step G A cfg s s'"
| Wait: "ls_phase s = Verifying n node meta input [] \<Longrightarrow>
    live_step G A cfg s (s\<lparr>ls_phase := Waiting\<rparr>)"

inductive_cases live_stepE: "live_step G A cfg s s'"

inductive live_reach :: "geth \<Rightarrow> 'c node_api \<Rightarrow> config \<Rightarrow> live_state \<Rightarrow> live_state \<Rightarrow> bool"
  for G A cfg s0 where
  Start: "live_reach G A cfg s0 s0"
| Step: "live_reach G A cfg s0 s \<Longrightarrow> live_step G A cfg s s' \<Longrightarrow> live_reach G A cfg s0 s'"

interpretation live_sys: transition_system "live_step G A cfg" "live_reach G A cfg" for G A cfg
proof unfold_locales
  fix s0 s and P :: "live_state \<Rightarrow> bool"
  assume "live_reach G A cfg s0 s" "P s0"
    "\<And>s s'. live_reach G A cfg s0 s \<Longrightarrow> P s \<Longrightarrow> live_step G A cfg s s' \<Longrightarrow> P s'"
  then show "P s" by (rule live_reach.induct)
qed (auto intro: live_reach.intros)

section \<open>Invariants of the live mode\<close>

definition heads_ok :: "Pool \<Rightarrow> u64 list \<Rightarrow> bool" where
  "heads_ok p received \<longleftrightarrow>
     sorted_wrt (<) (received @ pl_Heads p) \<and>
     list_all (\<lambda>n. n \<le> pl_seen p) (received @ pl_Heads p) \<and> length (pl_Heads p) \<le> heads_cap"

definition result_key :: "Result \<Rightarrow> u64 \<times> string" where
  "result_key r = (rs_Block r, rs_Guest r)"

definition guest_keys :: "u64 \<Rightarrow> GuestSpec list \<Rightarrow> (u64 \<times> string) list" where
  "guest_keys n gs = map (\<lambda>g. (n, gs_Name g)) gs"

fun pending :: "phase \<Rightarrow> (u64 \<times> string) list" where
  "pending (Verifying n node meta input gs) = guest_keys n gs"
| "pending _ = []"

definition log_ok :: "config \<Rightarrow> live_state \<Rightarrow> bool" where
  "log_ok cfg s \<longleftrightarrow>
     mset (map result_key (ls_log s)) + mset (pending (ls_phase s)) =
       mset (concat (map (\<lambda>n. guest_keys n (cf_guests cfg)) (ls_fetched s))) \<and>
     sorted (map rs_Block (ls_log s)) \<and>
     (\<forall>n node meta input gs. ls_phase s = Verifying n node meta input gs \<longrightarrow>
        (\<exists>ns. ls_fetched s = ns @ [n]))"

definition live_inv :: "config \<Rightarrow> live_state \<Rightarrow> bool" where
  "live_inv cfg s \<longleftrightarrow>
     heads_ok (ls_pool s) (ls_received s) \<and>
     sorted_wrt (<) (ls_fetched s) \<and> set (ls_fetched s) \<subseteq> set (ls_received s) \<and>
     rb_ok (ls_buf s) \<and> All_results (ls_buf s) = Inr (keep_last 1000 (ls_log s)) \<and> log_ok cfg s"

lemma heads_ok_poll: "heads_ok p rs \<Longrightarrow> heads_ok (poll T p) rs"
proof (cases rule: poll_cases [of T p])
  case same
  then show "heads_ok p rs \<Longrightarrow> ?thesis" by (simp add: heads_ok_def)
next
  case (head n)
  assume ok: "heads_ok p rs"
  then have "sorted_wrt (<) ((rs @ pl_Heads p) @ [n]) \<and> list_all (\<lambda>x. x \<le> n) ((rs @ pl_Heads p) @ [n])"
    using head(1) by (intro sorted_append_max) (auto simp: heads_ok_def)
  with ok show ?thesis by (simp add: heads_ok_def head try_send_def)
qed

lemma heads_ok_receive:
  assumes "heads_ok p rs" "pl_Heads p = n # hs" "pl_Heads q = hs" "pl_seen q = pl_seen p"
  shows "heads_ok q (rs @ [n])" "list_all (\<lambda>r. r < n) rs"
  using assms by (auto simp: heads_ok_def sorted_wrt_append list_all_iff)

lemma Fetch_pool: "snd (Fetch G A E p n genesis eng jwt) = snd (Pick p)"
  by (simp add: Fetch_def Let_def split: prod.splits sum.splits)

lemma verify_guest_key:
  "result_key (fst (verify_guest exec input node meta n g m)) = (n, gs_Name g)"
proof -
  obtain r e m' where run: "Run exec g input n m = ((r, e), m')"
    by (metis surj_pair)
  then show ?thesis
    using Run_result [of exec g input n m r e]
    by (cases e) (auto simp: verify_guest_def result_key_def)
qed

lemma live_inv_init:
  assumes "pl_Heads p = []"
  shows "live_inv cfg (live_init p m)"
  using assms results.inv_start results.contents_start
  by (simp add: live_inv_def live_init_def heads_ok_def log_ok_def keep_last_def)

lemma log_ok_fetched:
  assumes "log_ok cfg s" "r \<in> set (ls_log s)"
  shows "rs_Block r \<in> set (ls_fetched s)"
proof -
  have "result_key r \<in># mset (map result_key (ls_log s)) + mset (pending (ls_phase s))"
    using assms(2) by simp
  then have "result_key r \<in># mset (concat (map (\<lambda>n. guest_keys n (cf_guests cfg)) (ls_fetched s)))"
    using assms(1) by (simp only: log_ok_def)
  then show ?thesis by (auto simp: guest_keys_def result_key_def)
qed

lemma live_inv_receive:
  assumes inv: "live_inv cfg s" and wait: "ls_phase s = Waiting" and heads: "pl_Heads (ls_pool s) = n # hs"
  shows "live_inv cfg (receive G A E cfg s)"
proof -
  obtain fe p where f: "fetch_block G A E cfg ((ls_pool s)\<lparr>pl_Heads := hs\<rparr>) n = (fe, p)"
    by (metis surj_pair)
  then have p: "pl_Heads p = hs" "pl_seen p = pl_seen (ls_pool s)"
    using Fetch_pool [of G A E "(ls_pool s)\<lparr>pl_Heads := hs\<rparr>" n "Some (cf_genesis cfg)"
        "cf_engineURL cfg" "cf_jwtSecretFile cfg"]
      next_node_keeps [of "(ls_pool s)\<lparr>pl_Heads := hs\<rparr>"]
    by (simp_all add: fetch_block_def Pick_def)
  have ok: "heads_ok p (ls_received s @ [n])" "list_all (\<lambda>r. r < n) (ls_received s)"
    using heads_ok_receive [OF _ heads p] inv by (simp_all add: live_inv_def)
  have fetched: "sorted_wrt (<) (ls_fetched s @ [n])"
    using inv ok(2) by (auto simp: live_inv_def sorted_wrt_append list_all_iff)
  show ?thesis
    using inv wait ok(1) fetched
    by (cases "fe_input fe")
      (auto simp: receive_def heads f live_inv_def log_ok_def Let_def)
qed

lemma mset_remove_nth:
  "i < length xs \<Longrightarrow> mset xs = add_mset (xs ! i) (mset (take i xs @ drop (Suc i) xs))"
  by (subst id_take_nth_drop [of i xs]) auto

lemma live_inv_finish:
  assumes inv: "live_inv cfg s" and phase: "ls_phase s = Verifying n node meta input gs"
    and i: "i < length gs" and fin: "finish_guest exec i s = Inr s'"
  shows "live_inv cfg s'"
proof -
  obtain r m where v: "verify_guest exec input node meta n (gs ! i) (ls_metrics s) = (r, m)"
    by (metis surj_pair)
  then have key: "result_key r = (n, gs_Name (gs ! i))"
    using verify_guest_key [of exec input node meta n "gs ! i" "ls_metrics s"] by simp
  have buf: "rb_ok (ls_buf s)" "All_results (ls_buf s) = Inr (keep_last 1000 (ls_log s))"
    using inv by (simp_all add: live_inv_def)
  obtain b where b: "Add r (ls_buf s) = Inr b" "rb_ok b"
    "All_results b = Inr (keep_last 1000 (ls_log s @ [r]))"
    using results.put_ok [OF buf, of r] keep_last_append [of 1000 "ls_log s" "[r]"]
    by (auto simp: capacity_def)
  let ?gs = "take i gs @ drop (Suc i) gs"
  have s': "s' = s\<lparr>ls_buf := b, ls_metrics := m, ls_phase := Verifying n node meta input ?gs,
      ls_log := ls_log s @ [r]\<rparr>"
    using fin by (simp add: finish_guest_def phase v b)
  have log: "log_ok cfg s" and sorted: "sorted_wrt (<) (ls_fetched s)"
    using inv by (simp_all add: live_inv_def)
  obtain ns where ns: "ls_fetched s = ns @ [n]"
    using log phase by (auto simp: log_ok_def)
  have "rs_Block x \<le> n" if "x \<in> set (ls_log s)" for x
    using log_ok_fetched [OF log that] sorted ns by (auto simp: sorted_wrt_append)
  then have "sorted (map rs_Block (ls_log s @ [r]))"
    using log key by (auto simp: log_ok_def sorted_append result_key_def)
  moreover have "mset (guest_keys n gs) = add_mset (result_key r) (mset (guest_keys n ?gs))"
    using mset_remove_nth [of i "guest_keys n gs"] i key
    by (simp add: guest_keys_def take_map drop_map)
  ultimately have "log_ok cfg s'"
    using log phase ns by (simp add: log_ok_def s')
  with inv b show ?thesis by (simp add: live_inv_def s')
qed

lemma live_inv_step:
  assumes "live_step G A cfg s s'" "live_inv cfg s"
  shows "live_inv cfg s'"
  using assms
proof (cases rule: live_step.cases)
  case (Poll T)
  with assms(2) show ?thesis by (simp add: live_inv_def log_ok_def heads_ok_poll)
next
  case (Receive E)
  then obtain n hs where "pl_Heads (ls_pool s) = n # hs" by (cases "pl_Heads (ls_pool s)") auto
  with Receive assms(2) show ?thesis by (simp add: live_inv_receive)
next
  case (Finish n node meta input gs i exec)
  with assms(2) show ?thesis by (blast intro: live_inv_finish)
next
  case (Wait n node meta input)
  with assms(2) show ?thesis by (simp add: live_inv_def log_ok_def guest_keys_def)
qed

lemma live_inv_reach: "live_reach G A cfg s0 s \<Longrightarrow> live_inv cfg s0 \<Longrightarrow> live_inv cfg s"
  by (rule live_sys.invariant) (auto intro: live_inv_step)

section \<open>Progress\<close>

lemma verifying_finishes:
  assumes "live_inv cfg s" "ls_phase s = Verifying n node meta input gs"
  shows "\<exists>s'. live_reach G A cfg s s' \<and> ls_phase s' = Waiting \<and>
           length (ls_log s') = length (ls_log s) + length gs \<and> ls_received s' = ls_received s \<and>
           ls_fetched s' = ls_fetched s"
  using assms
proof (induction gs arbitrary: s)
  case Nil
  from live_step.Wait [OF Nil.prems(2), of G A cfg] show ?case
    by (intro exI [of _ "s\<lparr>ls_phase := Waiting\<rparr>"]) (simp add: live_sys.single)
next
  case (Cons g gs)
  obtain r m where v: "verify_guest exec input node meta n g (ls_metrics s) = (r, m)"
    by (metis surj_pair)
  obtain b where b: "Add r (ls_buf s) = Inr b"
    using Cons.prems(1) results.put_ok [of "ls_buf s" _ r] by (auto simp: live_inv_def)
  let ?s = "s\<lparr>ls_buf := b, ls_metrics := m, ls_phase := Verifying n node meta input gs,
      ls_log := ls_log s @ [r]\<rparr>"
  have "finish_guest exec 0 s = Inr ?s"
    using Cons.prems by (simp add: finish_guest_def v b)
  with Cons.prems have step: "live_step G A cfg s ?s"
    by (intro live_step.Finish [where i = 0]) auto
  then have "live_inv cfg ?s" using Cons.prems(1) by (rule live_inv_step)
  from Cons.IH [OF this] obtain s' where "live_reach G A cfg ?s s'" "ls_phase s' = Waiting"
    "length (ls_log s') = length (ls_log ?s) + length gs" "ls_received s' = ls_received ?s"
    "ls_fetched s' = ls_fetched ?s"
    by auto
  with live_sys.trans [OF _ live_sys.single [OF step]] show ?case
    by (intro exI [of _ s']) auto
qed

section \<open>One-shot modes: lemmas\<close>

lemma run_guests_code:
  "fst (run_guests exec input n gs c m) =
     (if list_all (\<lambda>g. outcome_label (exec (gs_Path g) input) = ''ok'') gs then c else 1)"
proof (induction gs arbitrary: c m)
  case (Cons g gs)
  obtain r e m' where run: "Run exec g input n m = ((r, e), m')"
    by (metis surj_pair)
  then have "e = None \<longleftrightarrow> outcome_label (exec (gs_Path g) input) \<noteq> ''error''"
    "rs_Valid r \<longleftrightarrow> outcome_label (exec (gs_Path g) input) = ''ok''"
    using Run_result [of exec g input n m r e] by simp_all
  with run Cons.IH show ?case by (cases e) auto
qed simp

lemma dumpBlock_zero:
  assumes "dumpBlock G A E F cfg p n dir fs = Inr (0, fs')" "write_file_law F"
  obtains input where "fe_input (fst (fetch_block G A E cfg p n)) = Inr input"
    "bm_BALErr (fe_meta (fst (fetch_block G A E cfg p n))) = None"
    "fs' = fs(dump_path dir n \<mapsto> ZkvmFrame input)"
  using assms
  by (auto simp: dumpBlock_def Let_def write_file_law_def split: sum.splits if_splits option.splits prod.splits)

lemma ParseGuestSpecs_empty: "ParseGuestSpecs [] = Inl (Errorf ''GUEST_BINARIES is empty'')"
  by code_simp

section \<open>A sample run\<close>

definition sample_config :: config where
  "sample_config =
     \<lparr>cf_genesis = DefaultMainnetChainConfig,
      cf_guests = [\<lparr>gs_Name = ''g1'', gs_Path = ''/g1''\<rparr>, \<lparr>gs_Name = ''g2'', gs_Path = ''/g2''\<rparr>],
      cf_engineURL = [], cf_jwtSecretFile = [], cf_listenAddr = '':8080''\<rparr>"

lemma poll_sample:
  "poll (sample_node n) (new_pool [''n'']) =
     (if 0 < n then \<lparr>pl_nodes = [''n''], pl_robin = 1, pl_Heads = [n], pl_seen = n\<rparr>
      else (new_pool [''n''])\<lparr>pl_robin := 1\<rparr>)"
proof -
  have "blockNumber (sample_node n) ''n'' = Inr n"
    by (rule blockNumber_answer) (simp add: sample_node_def)
  then show ?thesis
    by (simp add: poll_def next_node_def new_pool_def try_send_def heads_cap_def)
qed

text \<open>The metadata of a block counts its transactions and gas, whether or not the fetch goes on to succeed.\<close>

lemma fetch_rest_meta:
  "bm_TxCount (fst (fetch_rest G A E url n genesis engineURL jwt block)) = int (length (b_Transactions block))"
  "bm_GasUsed (fst (fetch_rest G A E url n genesis engineURL jwt block)) = h_GasUsed (b_Header block)"
  by (simp_all add: fetch_rest_def Let_def block_meta_def split: sum.split)

lemma sample_fetch_meta:
  assumes "fst (Pick p) \<noteq> []"
  shows "bm_TxCount (fe_meta (fst (Fetch sample_geth sample_api sample_world p n genesis [] []))) = 1"
proof -
  have "rlp_DecodeBlock sample_api [0xf9] = Inr sample_head" by (simp add: sample_api_def)
  moreover have "length (b_Transactions sample_head) = 1" by (simp add: sample_head_def sample_defs)
  ultimately show ?thesis
    using assms by (simp add: Fetch_def split_beta sample_calls sample_decodes decodeBlock_def sample_world_def fetch_rest_meta)
qed

lemma sample_run:
  "\<exists>s node meta input. live_reach sample_geth sample_api sample_config
      (live_init (new_pool [''n'']) m) s \<and>
      ls_phase s = Verifying 5 node meta input (cf_guests sample_config) \<and> ls_fetched s = [5] \<and>
      ls_log s = [] \<and> bm_TxCount meta = 1"
  "\<exists>s. live_reach sample_geth sample_api sample_config (live_init (new_pool [''n'']) m) s \<and>
      ls_phase s = Waiting \<and> ls_fetched s = [5]"
proof -
  let ?s0 = "live_init (new_pool [''n'']) m"
  let ?s1 = "?s0\<lparr>ls_pool := poll (sample_node 5) (ls_pool ?s0)\<rparr>"
  let ?s2 = "receive sample_geth sample_api sample_world sample_config ?s1"
  have pool: "ls_pool ?s1 = \<lparr>pl_nodes = [''n''], pl_robin = 1, pl_Heads = [5], pl_seen = 5\<rparr>"
    using poll_sample [of 5] by (simp add: live_init_def)
  have "live_step sample_geth sample_api sample_config ?s0 ?s1"
    by (rule live_step.Poll) (simp add: live_init_def)
  moreover have "live_step sample_geth sample_api sample_config ?s1 ?s2"
    by (rule live_step.Receive) (simp add: live_init_def, simp only: pool, simp)
  ultimately have reach: "live_reach sample_geth sample_api sample_config ?s0 ?s2"
    by (blast intro: live_reach.intros)
  let ?p = "\<lparr>pl_nodes = [''n''], pl_robin = 1, pl_Heads = [], pl_seen = 5\<rparr>"
  obtain fe p' where fe: "Fetch sample_geth sample_api sample_world ?p 5 (Some DefaultMainnetChainConfig) [] [] = (fe, p')"
    by (metis surj_pair)
  have "fst (Pick ?p) \<noteq> []" by (simp add: Pick_def next_node_def)
  from sample_fetch(1) [OF this, of 5 "Some DefaultMainnetChainConfig"]
    sample_fetch_meta [OF this, of 5 "Some DefaultMainnetChainConfig"] fe
  have input: "\<exists>input. fe_input fe = Inr input" "bm_TxCount (fe_meta fe) = 1" by simp_all
  have phase: "\<exists>node meta input. ls_phase ?s2 = Verifying 5 node meta input (cf_guests sample_config) \<and> bm_TxCount meta = 1"
    and fetched: "ls_fetched ?s2 = [5]" "ls_log ?s2 = []"
    using input fe pool
    by (auto simp: receive_def fetch_block_def sample_config_def live_init_def)
  from reach phase fetched show "\<exists>s node meta input. live_reach sample_geth sample_api sample_config ?s0 s \<and>
      ls_phase s = Verifying 5 node meta input (cf_guests sample_config) \<and> ls_fetched s = [5] \<and>
      ls_log s = [] \<and> bm_TxCount meta = 1" by blast
  have "live_inv sample_config ?s2"
    using reach by (rule live_inv_reach) (simp add: live_inv_init new_pool_def)
  with phase verifying_finishes [of sample_config ?s2] fetched
  obtain s where "live_reach sample_geth sample_api sample_config ?s2 s" "ls_phase s = Waiting" "ls_fetched s = [5]"
    by metis
  with live_sys.trans [OF _ reach] show "\<exists>s. live_reach sample_geth sample_api sample_config ?s0 s \<and>
      ls_phase s = Waiting \<and> ls_fetched s = [5]" by blast
qed

lemma sample_fetch_block:
  "\<exists>input. fe_input (fst (fetch_block sample_geth sample_api sample_world sample_config (new_pool [''n'']) 5)) = Inr input \<and>
     bm_BALErr (fe_meta (fst (fetch_block sample_geth sample_api sample_world sample_config (new_pool [''n'']) 5))) = None \<and>
     length input < 1000"
proof -
  have "fst (Pick (new_pool [''n''])) \<noteq> []" by (simp add: Pick_def next_node_def new_pool_def)
  from sample_fetch [OF this, of 5 "Some DefaultMainnetChainConfig"] show ?thesis
    by (simp add: fetch_block_def sample_config_def sample_input_small)
qed

definition sample_files :: file_ops where
  "sample_files = \<lparr>os_MkdirAll = (\<lambda>_. None), os_WriteFile = (\<lambda>path data fs. (None, fs(path \<mapsto> data)))\<rparr>"

section \<open>Properties\<close>

text \<open>
  C8: the live mode takes new heads only. However polling, fetching and guests interleave, the block
  numbers the loop receives, followed by those waiting in the channel, are strictly increasing, so
  no block is handled twice or out of order, and at most 32 numbers wait.
\<close>

theorem live_heads_increasing:
  assumes "pl_Heads p = []" "live_reach G A cfg (live_init p m) s"
  shows "sorted_wrt (<) (ls_received s @ pl_Heads (ls_pool s)) \<and> length (pl_Heads (ls_pool s)) \<le> 32"
  using live_inv_reach [OF assms(2) live_inv_init [OF assms(1)]]
  by (simp add: live_inv_def heads_ok_def heads_cap_def)

theorem live_heads_increasing_witness:
  "\<exists>s. live_reach sample_geth sample_api sample_config (live_init (new_pool [''n'']) zero_Metrics) s \<and>
     pl_Heads (ls_pool s) = [9] \<and> sorted_wrt (<) (ls_received s @ pl_Heads (ls_pool s))"
proof -
  let ?s = "live_init (new_pool [''n'']) zero_Metrics"
  let ?t = "?s\<lparr>ls_pool := poll (sample_node 9) (ls_pool ?s)\<rparr>"
  have "ls_phase ?s \<noteq> Crashed" by (simp add: live_init_def)
  then have reach: "live_reach sample_geth sample_api sample_config ?s ?t"
    by (blast intro: live_sys.single live_step.Poll)
  moreover have "pl_Heads (ls_pool ?t) = [9]" "pl_Heads (new_pool [''n'']) = []"
    using poll_sample [of 9] by (simp_all add: live_init_def new_pool_def)
  ultimately show ?thesis
    using live_heads_increasing [OF _ reach] by blast
qed

text \<open>
  C3: every fetched block is verified exactly once by every guest, and the results are kept in block
  order. In every reachable state \<open>All\<close> returns the last 1000 results that were added, ordered by
  block number, and when the loop waits for a head the results added are, as a multiset of block and
  guest, those of every fetched block paired with every configured guest. Results of failed runs are
  included.
\<close>

theorem live_results_complete:
  assumes "pl_Heads p = []" "live_reach G A cfg (live_init p m) s"
  shows "All_results (ls_buf s) = Inr (keep_last 1000 (ls_log s)) \<and>
    sorted (map rs_Block (ls_log s)) \<and>
    (ls_phase s = Waiting \<longrightarrow>
       mset (map result_key (ls_log s)) =
         mset (concat (map (\<lambda>n. map (\<lambda>g. (n, gs_Name g)) (cf_guests cfg)) (ls_fetched s)))) \<and>
    sorted_wrt (<) (ls_fetched s) \<and> set (ls_fetched s) \<subseteq> set (ls_received s)"
  using live_inv_reach [OF assms(2) live_inv_init [OF assms(1)]]
  by (auto simp: live_inv_def log_ok_def guest_keys_def)

theorem live_results_complete_witness:
  "\<exists>s. live_reach sample_geth sample_api sample_config (live_init (new_pool [''n'']) zero_Metrics) s \<and>
     ls_fetched s = [5] \<and> mset (map result_key (ls_log s)) = mset [(5, ''g1''), (5, ''g2'')]"
proof -
  obtain s where reach: "live_reach sample_geth sample_api sample_config
      (live_init (new_pool [''n'']) zero_Metrics) s" and "ls_phase s = Waiting" "ls_fetched s = [5]"
    using sample_run(2) by blast
  then show ?thesis
    using live_results_complete [OF _ reach]
    by (intro exI [of _ s]) (simp add: new_pool_def sample_config_def)
qed

text \<open>
  The live loop cannot get stuck on a block. From every reachable state in which guests are
  still running, whatever each of them does, the loop can get back to waiting for heads, with one
  more result in the log for every guest that was running.
\<close>

lemma live_block_finishes:
  assumes "pl_Heads p = []" "live_reach G A cfg (live_init p m) s"
    and "ls_phase s = Verifying n node meta input gs"
  shows "\<exists>s'. live_reach G A cfg s s' \<and> ls_phase s' = Waiting \<and>
           length (ls_log s') = length (ls_log s) + length gs \<and> ls_received s' = ls_received s \<and>
           ls_fetched s' = ls_fetched s"
  using live_inv_reach [OF assms(2) live_inv_init [OF assms(1)]] assms(3)
  by (rule verifying_finishes)

lemma live_block_finishes_example:
  "\<exists>s s'. live_reach sample_geth sample_api sample_config (live_init (new_pool [''n'']) zero_Metrics) s \<and>
     live_reach sample_geth sample_api sample_config s s' \<and> ls_phase s' = Waiting \<and>
     length (ls_log s') = length (ls_log s) + 2"
proof -
  obtain s node meta input where reach: "live_reach sample_geth sample_api sample_config
      (live_init (new_pool [''n'']) zero_Metrics) s"
    and phase: "ls_phase s = Verifying 5 node meta input (cf_guests sample_config)"
    using sample_run(1) by blast
  have "pl_Heads (new_pool [''n'']) = []" "length (cf_guests sample_config) = 2"
    by (simp_all add: new_pool_def sample_config_def)
  then show ?thesis
    using live_block_finishes [OF _ reach phase] reach by metis
qed

text \<open>
  The exit code of the one-shot mode. \<open>runBlock\<close> returns 0 exactly when the block was fetched and
  every guest ended normally with a valid verdict, in whatever order the guests end; otherwise 1.
\<close>

lemma runBlock_exit_code:
  assumes "mset order = mset (cf_guests cfg)"
    and "runBlock G A E exec cfg order p n m = Inr (code, m')"
  shows "code = (if \<exists>input. fe_input (fst (fetch_block G A E cfg p n)) = Inr input \<and>
                       (\<forall>g \<in> set (cf_guests cfg).
                          let x = exec (gs_Path g) input
                          in ex_err x = None \<and> 43 \<le> length (ex_stdout x) \<and> ex_stdout x ! 32 = 1)
                 then 0 else 1)"
proof -
  have "set order = set (cf_guests cfg)" using assms(1) by (rule mset_eq_setD)
  moreover have "outcome_label x = ''ok'' \<longleftrightarrow>
      ex_err x = None \<and> 43 \<le> length (ex_stdout x) \<and> ex_stdout x ! 32 = 1" for x
    by (auto simp: outcome_label_def)
  ultimately show ?thesis
    using assms(2) run_guests_code [of exec _ n order 0 m]
    by (cases "fe_input (fst (fetch_block G A E cfg p n))")
      (auto simp: runBlock_def list_all_iff Let_def split: if_splits dest!: arg_cong [of _ _ fst])
qed

lemma runBlock_exit_code_example:
  "\<exists>m'. runBlock sample_geth sample_api sample_world
     (\<lambda>path input. \<lparr>ex_err = None,
        ex_stdout = replicate 32 0 @ [if path = ''/g2'' then 0 else 1] @ replicate 10 0,
        ex_stderr = [], ex_durationMs = 1\<rparr>)
     sample_config (rev (cf_guests sample_config)) (new_pool [''n'']) 5 zero_Metrics = Inr (1, m')"
proof -
  let ?exec = "\<lambda>path (input :: bytes). \<lparr>ex_err = None :: go_error option,
      ex_stdout = replicate 32 0 @ [if path = ''/g2'' then 0 else 1] @ replicate 10 (0 :: byte),
      ex_stderr = [], ex_durationMs = 1\<rparr>"
  let ?run = "runBlock sample_geth sample_api sample_world ?exec sample_config
      (rev (cf_guests sample_config)) (new_pool [''n'']) 5 zero_Metrics"
  obtain input where "fe_input (fst (fetch_block sample_geth sample_api sample_world sample_config (new_pool [''n'']) 5)) = Inr input"
    using sample_fetch_block by blast
  then obtain code m' where run: "?run = Inr (code, m')"
    by (cases "run_guests ?exec input 5 (rev (cf_guests sample_config)) 0 zero_Metrics")
      (simp add: runBlock_def)
  have "mset (rev (cf_guests sample_config)) = mset (cf_guests sample_config)" by simp
  from runBlock_exit_code [OF this run] have "code = 1"
    by (simp add: sample_config_def nth_append)
  with run show ?thesis by blast
qed

text \<open>
  A dump is only written for an input that meets the header's commitments. When \<open>dumpBlock\<close>
  returns 0, the one file it wrote is \<open>dir/<block>.bin\<close>, and unframing it (reading the 8-byte length
  and that many bytes) gives an input that decodes to a block and a witness a node of the pool
  served, with execution requests and a block access list that match the header.
\<close>

lemma dumpBlock_sound:
  assumes "write_file_law F" "pool_valid p" "nodes_of p \<noteq> {}"
    and "dumpBlock G A E F cfg p n dir fs = Inr (0, fs')"
  shows "\<exists>data. fs' = fs(dump_path dir n \<mapsto> data) \<and>
    (length data < 2 ^ 32 \<longrightarrow>
      (\<exists>url block state codes headers bal requests raw.
         url \<in> nodes_of p \<and> served_block A E url n block \<and>
         served_witness A E url n state codes headers \<and> requests_match A (b_Header block) requests \<and>
         bal_match A (b_Header block) bal \<and>
         decode_stateless_input (take (le_nat (take 8 data)) (drop 8 data)) =
           Some (input_of_block G block state codes headers bal requests (gc_ChainID (cf_genesis cfg))
                   (ActiveProtocolFork (cf_genesis cfg) (h_Time (b_Header block))) raw)))"
proof -
  let ?fe = "fst (fetch_block G A E cfg p n)"
  obtain input where input: "fe_input ?fe = Inr input" and bal: "bm_BALErr (fe_meta ?fe) = None"
    and fs': "fs' = fs(dump_path dir n \<mapsto> ZkvmFrame input)"
    using dumpBlock_zero [OF assms(4,1)] by blast
  have "length input \<le> length (ZkvmFrame input)" by (simp add: ZkvmFrame_eq)
  then show ?thesis
    using fetched_input [OF assms(2,3) _ input, of G A E n "Some (cf_genesis cfg)" "cf_engineURL cfg"
        "cf_jwtSecretFile cfg"] bal unframe_ZkvmFrame [of input]
    by (intro exI [of _ "ZkvmFrame input"] conjI impI fs') (force simp: fetch_block_def)
qed

lemma dumpBlock_sound_example:
  "\<exists>fs' data block. dumpBlock sample_geth sample_api sample_world sample_files sample_config
       (new_pool [''n'']) 5 ''/out'' (\<lambda>_. None) = Inr (0, fs') \<and>
     fs' = [''/out/5.bin'' \<mapsto> data] \<and> served_block sample_api sample_world ''n'' 5 block"
proof -
  let ?dump = "dumpBlock sample_geth sample_api sample_world sample_files sample_config
       (new_pool [''n'']) 5 ''/out'' (\<lambda>_. None)"
  obtain input where fetch:
    "fe_input (fst (fetch_block sample_geth sample_api sample_world sample_config (new_pool [''n'']) 5)) = Inr input"
    "bm_BALErr (fe_meta (fst (fetch_block sample_geth sample_api sample_world sample_config (new_pool [''n'']) 5))) = None"
    "length input < 1000"
    using sample_fetch_block by blast
  have path: "dump_path ''/out'' 5 = ''/out/5.bin''" by code_simp
  have law: "write_file_law sample_files"
    by (simp add: write_file_law_def sample_files_def)
  have pool: "pool_valid (new_pool [''n''])" "nodes_of (new_pool [''n'']) \<noteq> {}"
    by (simp_all add: pool_valid_def nodes_of_def new_pool_def)
  have dump: "?dump = Inr (0, [''/out/5.bin'' \<mapsto> ZkvmFrame input])"
    using fetch by (simp add: dumpBlock_def sample_files_def path)
  have "length (ZkvmFrame input) < 2 ^ 32"
    using fetch(3) by (simp add: ZkvmFrame_eq)
  moreover obtain data where "[''/out/5.bin'' \<mapsto> ZkvmFrame input] = [''/out/5.bin'' \<mapsto> data]"
    "length data < 2 ^ 32 \<longrightarrow> (\<exists>url \<in> nodes_of (new_pool [''n'']). \<exists>block.
       served_block sample_api sample_world url 5 block)"
    using dumpBlock_sound [OF law pool dump] path by auto
  ultimately show ?thesis
    using dump by (auto simp: nodes_of_def new_pool_def dest: map_upd_eqD1)
qed

text \<open>
  Without guests there is no run. With \<open>GUEST_BINARIES\<close> unset, \<open>main\<close> ends with a fatal error
  in every mode, \<open>DUMP_DIR\<close> included, although dumping a block runs no guest.
\<close>

lemma main_needs_guests:
  assumes "getenv ''GUEST_BINARIES'' = []"
  shows "\<exists>e. main_start getenv readFile syntax newPool = Inl e"
proof (cases "main_start getenv readFile syntax newPool")
  case (Inr x)
  then show ?thesis
    using assms by (auto simp: main_start_def Let_def res_simps ParseGuestSpecs_empty split: if_splits)
qed simp

lemma main_needs_guests_example:
  "\<exists>e. main_start (\<lambda>k. if k = ''GUEST_BINARIES'' then [] else ''7'')
     (\<lambda>_. Inl (Errorf ''no file'')) (\<lambda>_. Inr JNull) (\<lambda>us. Inr (new_pool us, zero_Metrics)) = Inl e"
  by (rule main_needs_guests) simp

end
