(* ===== verification/Json_Text.thy ===== *)
theory Json_Text
  imports Json
begin

text \<open>
  The text that Go's \<open>encoding/json\<close> writes for a value, with HTML escaping as \<open>json.Marshal\<close> and
  \<open>json.NewEncoder\<close> have it, and a reader for such text. Strings are bytes; bytes that are not UTF-8
  are written as the replacement character.
\<close>

section \<open>UTF-8\<close>

abbreviation byte_of :: "char \<Rightarrow> nat" where
  "byte_of c \<equiv> of_char c"

definition in_range :: "nat \<Rightarrow> nat \<Rightarrow> char \<Rightarrow> bool" where
  "in_range lo hi c \<longleftrightarrow> lo \<le> byte_of c \<and> byte_of c \<le> hi"

text \<open>
  The length of the sequence of bytes above 127 that the text starts with, as \<open>utf8.DecodeRune\<close> decodes
  it, or \<open>None\<close> for an invalid one.
\<close>

definition utf8_len :: "string \<Rightarrow> nat option" where
  "utf8_len s =
     (case s of
        a # b # rest \<Rightarrow>
          if in_range 0xC2 0xDF a then if in_range 0x80 0xBF b then Some 2 else None
          else (case rest of
                  [] \<Rightarrow> None
                | c # rest \<Rightarrow>
                    if in_range 0xE0 0xEF a then
                      if in_range (if byte_of a = 0xE0 then 0xA0 else 0x80)
                           (if byte_of a = 0xED then 0x9F else 0xBF) b \<and> in_range 0x80 0xBF c
                      then Some 3 else None
                    else (case rest of
                            [] \<Rightarrow> None
                          | d # _ \<Rightarrow>
                              if in_range 0xF0 0xF4 a \<and>
                                 in_range (if byte_of a = 0xF0 then 0x90 else 0x80)
                                   (if byte_of a = 0xF4 then 0x8F else 0xBF) b \<and>
                                 in_range 0x80 0xBF c \<and> in_range 0x80 0xBF d
                              then Some 4 else None))
      | _ \<Rightarrow> None)"

lemma utf8_len_bounds: "utf8_len s = Some n \<Longrightarrow> 2 \<le> n \<and> n \<le> length s"
  by (auto simp: utf8_len_def split: list.splits if_splits)

text \<open>The UTF-8 encoding of a code point below 2^16.\<close>

definition utf8_encode :: "nat \<Rightarrow> string" where
  "utf8_encode n =
     (if n < 0x80 then [char_of n]
      else if n < 0x800 then [char_of (0xC0 + n div 64), char_of (0x80 + n mod 64)]
      else [char_of (0xE0 + n div 4096), char_of (0x80 + n div 64 mod 64), char_of (0x80 + n mod 64)])"

section \<open>Writing\<close>

abbreviation backslash :: char where
  "backslash \<equiv> CHR 0x5C"

definition json_ascii :: "char \<Rightarrow> string" where
  "json_ascii c =
     (if c = CHR 0x22 \<or> c = backslash then [backslash, c]
      else if c = CHR 8 then [backslash, CHR ''b'']
      else if c = CHR 12 then [backslash, CHR ''f'']
      else if c = CHR 10 then [backslash, CHR ''n'']
      else if c = CHR 13 then [backslash, CHR ''r'']
      else if c = CHR 9 then [backslash, CHR ''t'']
      else if byte_of c < 32 \<or> c = CHR ''<'' \<or> c = CHR ''>'' \<or> c = CHR ''&''
      then [backslash] @ ''u00'' @ lower_hex2 (byte_of c)
      else [c])"

definition line_separator :: "string \<Rightarrow> bool" where
  "line_separator s \<longleftrightarrow> s \<in> {[CHR 0xE2, CHR 0x80, CHR 0xA8], [CHR 0xE2, CHR 0x80, CHR 0xA9]}"

definition json_rune :: "string \<Rightarrow> string" where
  "json_rune r =
     (if line_separator r then [backslash] @ ''u202'' @ [digit_char (byte_of (r ! 2) mod 16)] else r)"

function json_chars :: "string \<Rightarrow> string" where
  "json_chars [] = []"
| "json_chars (c # cs) =
     (if byte_of c < 0x80 then json_ascii c @ json_chars cs
      else (case utf8_len (c # cs) of
              None \<Rightarrow> [backslash] @ ''ufffd'' @ json_chars cs
            | Some n \<Rightarrow> json_rune (take n (c # cs)) @ json_chars (drop (n - 1) cs)))"
  by pat_completeness auto

termination
  by (relation "measure length") auto

definition json_string :: "string \<Rightarrow> string" where
  "json_string s = [CHR 0x22] @ json_chars s @ [CHR 0x22]"

fun json_text :: "json \<Rightarrow> string" where
  "json_text JNull = ''null''"
| "json_text (JBool b) = (if b then ''true'' else ''false'')"
| "json_text (JNum lit) = lit"
| "json_text (JStr s) = json_string s"
| "json_text (JArr vs) = ''['' @ str_Join '','' (map json_text vs) @ '']''"
| "json_text (JObj ms) =
     ''{'' @ str_Join '','' (map (\<lambda>(k, v). json_string k @ '':'' @ json_text v) ms) @ ''}''"

text \<open>\<open>Encoder.Encode\<close> ends the value with a line break.\<close>

definition json_Encode :: "json \<Rightarrow> string" where
  "json_Encode v = json_text v @ [CHR 10]"

section \<open>Reading\<close>

definition hex4 :: "string \<Rightarrow> nat option" where
  "hex4 h =
     (case map hex_val h of
        [Some a, Some b, Some c, Some d] \<Rightarrow> Some (((a * 16 + b) * 16 + c) * 16 + d)
      | _ \<Rightarrow> None)"

definition unescape :: "char \<Rightarrow> char option" where
  "unescape c =
     (if c \<in> {CHR 0x22, backslash, CHR ''/''} then Some c
      else if c = CHR ''b'' then Some (CHR 8)
      else if c = CHR ''f'' then Some (CHR 12)
      else if c = CHR ''n'' then Some (CHR 10)
      else if c = CHR ''r'' then Some (CHR 13)
      else if c = CHR ''t'' then Some (CHR 9) else None)"

text \<open>The string whose opening quote was read, and what follows it. Surrogate pairs are not written.\<close>

function read_chars :: "string \<Rightarrow> (string \<times> string) option" where
  "read_chars [] = None"
| "read_chars (c # cs) =
     (if c = CHR 0x22 then Some ([], cs)
      else if c = backslash then
        (case cs of
           [] \<Rightarrow> None
         | e # es \<Rightarrow>
             if e = CHR ''u'' then
               (case hex4 (take 4 es) of
                  None \<Rightarrow> None
                | Some n \<Rightarrow> map_option (\<lambda>(s, r). (utf8_encode n @ s, r)) (read_chars (drop 4 es)))
             else (case unescape e of
                     None \<Rightarrow> None
                   | Some d \<Rightarrow> map_option (\<lambda>(s, r). (d # s, r)) (read_chars es)))
      else if byte_of c < 32 then None
      else map_option (\<lambda>(s, r). (c # s, r)) (read_chars cs))"
  by pat_completeness auto

termination
  by (relation "measure length") auto

definition num_char :: "char \<Rightarrow> bool" where
  "num_char c \<longleftrightarrow> c \<in> set ''0123456789+-.eE''"

text \<open>
  The value at the start of the text, and what follows it. The number bounds the nesting and the length
  of arrays and objects; the length of the text is always enough.
\<close>

fun json_read :: "nat \<Rightarrow> string \<Rightarrow> (json \<times> string) option"
  and read_elems :: "nat \<Rightarrow> string \<Rightarrow> (json list \<times> string) option"
  and read_members :: "nat \<Rightarrow> string \<Rightarrow> (members \<times> string) option" where
  "json_read 0 s = None"
| "json_read (Suc n) s =
     (case s of
        [] \<Rightarrow> None
      | c # cs \<Rightarrow>
          if HasPrefix s ''null'' then Some (JNull, drop 4 s)
          else if HasPrefix s ''true'' then Some (JBool True, drop 4 s)
          else if HasPrefix s ''false'' then Some (JBool False, drop 5 s)
          else if c = CHR 0x22 then map_option (\<lambda>(t, r). (JStr t, r)) (read_chars cs)
          else if c = CHR ''['' then
            if HasPrefix cs '']'' then Some (JArr [], drop 1 cs)
            else map_option (\<lambda>(vs, r). (JArr vs, r)) (read_elems n cs)
          else if c = CHR ''{'' then
            if HasPrefix cs ''}'' then Some (JObj [], drop 1 cs)
            else map_option (\<lambda>(ms, r). (JObj ms, r)) (read_members n cs)
          else if num_char c then Some (JNum (takeWhile num_char s), dropWhile num_char s)
          else None)"
| "read_elems 0 s = None"
| "read_elems (Suc n) s =
     (case json_read n s of
        None \<Rightarrow> None
      | Some (v, r) \<Rightarrow>
          (case r of
             [] \<Rightarrow> None
           | c # cs \<Rightarrow>
               if c = CHR '']'' then Some ([v], cs)
               else if c = CHR '','' then map_option (\<lambda>(vs, q). (v # vs, q)) (read_elems n cs)
               else None))"
| "read_members 0 s = None"
| "read_members (Suc n) s =
     (if HasPrefix s [CHR 0x22] then
        (case read_chars (drop 1 s) of
           None \<Rightarrow> None
         | Some (k, r) \<Rightarrow>
             if HasPrefix r '':'' then
               (case json_read n (drop 1 r) of
                  None \<Rightarrow> None
                | Some (v, q) \<Rightarrow>
                    (case q of
                       [] \<Rightarrow> None
                     | c # cs \<Rightarrow>
                         if c = CHR ''}'' then Some ([(k, v)], cs)
                         else if c = CHR '','' then map_option (\<lambda>(ms, z). ((k, v) # ms, z)) (read_members n cs)
                         else None))
             else None)
      else None)"

definition json_Decode :: "string \<Rightarrow> json option" where
  "json_Decode s = map_option fst (json_read (length s) s)"

section \<open>Reading back\<close>

text \<open>What is left of a string: bytes that are not UTF-8 become the replacement character.\<close>

function utf8_clean :: "string \<Rightarrow> string" where
  "utf8_clean [] = []"
| "utf8_clean (c # cs) =
     (if byte_of c < 0x80 then c # utf8_clean cs
      else (case utf8_len (c # cs) of
              None \<Rightarrow> utf8_encode 0xFFFD @ utf8_clean cs
            | Some n \<Rightarrow> take n (c # cs) @ utf8_clean (drop (n - 1) cs)))"
  by pat_completeness auto

termination
  by (relation "measure length") auto

function utf8_valid :: "string \<Rightarrow> bool" where
  "utf8_valid [] = True"
| "utf8_valid (c # cs) =
     (if byte_of c < 0x80 then utf8_valid cs
      else (case utf8_len (c # cs) of None \<Rightarrow> False | Some n \<Rightarrow> utf8_valid (drop (n - 1) cs)))"
  by pat_completeness auto

termination
  by (relation "measure length") auto

fun json_clean :: "json \<Rightarrow> json" where
  "json_clean (JStr s) = JStr (utf8_clean s)"
| "json_clean (JArr vs) = JArr (map json_clean vs)"
| "json_clean (JObj ms) = JObj (map (\<lambda>(k, v). (utf8_clean k, json_clean v)) ms)"
| "json_clean v = v"

text \<open>Numbers are literals; the rest of a value can be anything.\<close>

fun json_ok :: "json \<Rightarrow> bool" where
  "json_ok (JNum lit) = (lit \<noteq> [] \<and> list_all num_char lit)"
| "json_ok (JArr vs) = list_all json_ok vs"
| "json_ok (JObj ms) = list_all (\<lambda>(k, v). json_ok v) ms"
| "json_ok _ = True"

fun json_valid :: "json \<Rightarrow> bool" where
  "json_valid (JStr s) = utf8_valid s"
| "json_valid (JArr vs) = list_all json_valid vs"
| "json_valid (JObj ms) = list_all (\<lambda>(k, v). utf8_valid k \<and> json_valid v) ms"
| "json_valid _ = True"

declare read_chars.simps [simp del] json_chars.simps [simp del] utf8_valid.simps [simp del]
  utf8_clean.simps [simp del]

lemma rune_split: "utf8_len (c # cs) = Some n \<Longrightarrow> take n (c # cs) @ drop (n - 1) cs = c # cs"
  using utf8_len_bounds [of "c # cs" n] by (cases n) simp_all

lemma utf8_clean_valid: "utf8_valid s \<Longrightarrow> utf8_clean s = s"
proof (induction s rule: utf8_clean.induct)
  case (2 c cs)
  then show ?case
    using rune_split [of c cs] by (auto simp: utf8_clean.simps utf8_valid.simps split: if_splits option.splits)
qed (simp add: utf8_clean.simps)

lemma json_clean_valid: "json_valid v \<Longrightarrow> json_clean v = v"
proof (induction v)
  case (JObj ms)
  then show ?case by (auto simp: list_all_iff utf8_clean_valid intro!: map_idI)
qed (auto simp: utf8_clean_valid list_all_iff map_idI)

abbreviation prepend :: "string \<Rightarrow> (string \<times> string) option \<Rightarrow> (string \<times> string) option" where
  "prepend w \<equiv> map_option (\<lambda>(s, r). (w @ s, r))"

lemma read_quote: "read_chars (CHR 0x22 # r) = Some ([], r)"
  by (simp add: read_chars.simps)

lemma read_escape: "unescape e = Some d \<Longrightarrow> e \<noteq> CHR ''u'' \<Longrightarrow> read_chars (backslash # e # r) = prepend [d] (read_chars r)"
  by (simp add: read_chars.simps(2))

lemma read_unicode:
  "length h = 4 \<Longrightarrow> hex4 h = Some n \<Longrightarrow> read_chars (backslash # CHR ''u'' # h @ r) = prepend (utf8_encode n) (read_chars r)"
  by (simp add: read_chars.simps(2))

lemma read_plain_char:
  "32 \<le> byte_of c \<Longrightarrow> c \<noteq> CHR 0x22 \<Longrightarrow> c \<noteq> backslash \<Longrightarrow> read_chars (c # r) = prepend [c] (read_chars r)"
  by (simp add: read_chars.simps(2))

lemma hex4_ascii: "n < 128 \<Longrightarrow> hex4 (''00'' @ lower_hex2 n) = Some n"
proof -
  have "hex_val CHR ''0'' = Some 0" by code_simp
  moreover assume "n < 128"
  then have "n div 16 < 16" by linarith
  ultimately show ?thesis by (simp add: hex4_def lower_hex2_def)
qed

lemma read_ascii:
  assumes "byte_of c < 0x80"
  shows "read_chars (json_ascii c @ r) = prepend [c] (read_chars r)"
proof -
  have "read_chars ([backslash] @ ''u00'' @ lower_hex2 (byte_of c) @ r) = prepend [c] (read_chars r)"
    using read_unicode [OF _ hex4_ascii [OF assms[simplified]], of r] assms
    by (simp add: utf8_encode_def lower_hex2_def)
  moreover have "unescape CHR ''b'' = Some (CHR 8)" "unescape CHR ''f'' = Some (CHR 12)" "unescape CHR ''n'' = Some (CHR 10)"
    "unescape CHR ''r'' = Some (CHR 13)" "unescape CHR ''t'' = Some (CHR 9)" "unescape (CHR 0x22) = Some (CHR 0x22)"
    "unescape backslash = Some backslash"
    by (simp_all add: unescape_def)
  ultimately show ?thesis
    unfolding json_ascii_def by (auto simp: read_escape read_plain_char)
qed

lemma read_high:
  "list_all (\<lambda>c. 0x80 \<le> byte_of c) w \<Longrightarrow> read_chars (w @ r) = prepend w (read_chars r)"
proof (induction w)
  case Nil
  then show ?case by (cases "read_chars r") auto
next
  case (Cons c w)
  have "c \<noteq> CHR 0x22" "c \<noteq> backslash" using Cons.prems by auto
  with Cons show ?case by (auto simp: read_plain_char option.map_comp comp_def case_prod_unfold)
qed

lemma utf8_len_high:
  assumes "utf8_len s = Some n"
  shows "list_all (\<lambda>c. 0x80 \<le> byte_of c) (take n s)"
  using assms by (auto simp: utf8_len_def in_range_def split: list.splits if_splits)

lemma read_rune:
  assumes "utf8_len s = Some n"
  shows "read_chars (json_rune (take n s) @ r) = prepend (take n s) (read_chars r)"
proof (cases "line_separator (take n s)")
  case True
  have "hex4 ''2028'' = Some 0x2028" "hex4 ''2029'' = Some 0x2029"
    by (simp_all add: hex4_def hex_val_def digit_val_def)
  moreover have "utf8_encode 0x2028 = [CHR 0xE2, CHR 0x80, CHR 0xA8]" "utf8_encode 0x2029 = [CHR 0xE2, CHR 0x80, CHR 0xA9]"
  proof -
    have "char_of (0xE2 :: nat) = CHR 0xE2" "char_of (0x80 :: nat) = CHR 0x80" "char_of (0xA8 :: nat) = CHR 0xA8"
      "char_of (0xA9 :: nat) = CHR 0xA9" by code_simp+
    then show "utf8_encode 0x2028 = [CHR 0xE2, CHR 0x80, CHR 0xA8]" "utf8_encode 0x2029 = [CHR 0xE2, CHR 0x80, CHR 0xA9]"
      by (simp_all add: utf8_encode_def)
  qed
  moreover have "digit_char 8 = CHR ''8''" "digit_char 9 = CHR ''9''" by code_simp+
  ultimately show ?thesis
    using True read_unicode [of "''2028''" _ r] read_unicode [of "''2029''" _ r]
    by (auto simp: json_rune_def line_separator_def)
next
  case False
  then show ?thesis using read_high [OF utf8_len_high [OF assms]] by (simp add: json_rune_def)
qed

lemma read_json_chars: "read_chars (json_chars s @ CHR 0x22 # r) = Some (utf8_clean s, r)"
proof (induction s rule: json_chars.induct)
  case 1
  then show ?case by (simp add: json_chars.simps utf8_clean.simps read_quote)
next
  case (2 c cs)
  have "hex4 ''fffd'' = Some 0xFFFD" by (simp add: hex4_def hex_val_def digit_val_def)
  from read_unicode [OF _ this] 2 show ?case
    by (cases "utf8_len (c # cs)") (auto simp: json_chars.simps utf8_clean.simps read_ascii read_rune)
qed

definition ends_value :: "string \<Rightarrow> bool" where
  "ends_value r \<longleftrightarrow> r = [] \<or> \<not> num_char (hd r)"

lemma num_char_first:
  assumes "num_char c"
  shows "c \<notin> {CHR ''n'', CHR ''t'', CHR ''f'', CHR 0x22, CHR ''['', CHR ''{''}"
  using assms by (auto simp: num_char_def)

lemma read_number:
  assumes "lit \<noteq> []" "list_all num_char lit" "ends_value r" "0 < n"
  shows "json_read n (lit @ r) = Some (JNum lit, r)"
proof -
  obtain c cs where lit: "lit = c # cs" using assms(1) by (cases lit) auto
  have c: "num_char c" using assms(2) lit by simp
  have "takeWhile num_char (lit @ r) = lit" "dropWhile num_char (lit @ r) = r"
    using assms(2,3) by (cases r; auto simp: list_all_iff ends_value_def takeWhile_append dropWhile_append)+
  moreover obtain m where "n = Suc m" using assms(4) by (cases n) auto
  ultimately show ?thesis using c num_char_first [OF c] by (auto simp: lit HasPrefix_def)
qed

lemma json_text_first:
  assumes "json_ok v"
  shows "\<exists>c cs. json_text v = c # cs \<and> c \<notin> {CHR '']'', CHR ''}'', CHR '',''}"
proof (cases v)
  case (JNum lit)
  with assms obtain c cs where "lit = c # cs" "num_char c" by (cases lit) auto
  then show ?thesis using JNum by (auto simp: num_char_def)
qed (simp_all add: json_string_def)

lemma read_elems_text:
  assumes "vs \<noteq> []" "\<And>v m r. v \<in> set vs \<Longrightarrow> length (json_text v) \<le> m \<Longrightarrow> ends_value r \<Longrightarrow>
      json_read m (json_text v @ r) = Some (json_clean v, r)"
    and "length (str_Join '','' (map json_text vs)) < n"
  shows "read_elems n (str_Join '','' (map json_text vs) @ '']'' @ r) = Some (map json_clean vs, r)"
  using assms
proof (induction vs arbitrary: n)
  case (Cons v vs)
  obtain m where n: "n = Suc m" using Cons.prems(3) by (cases n) auto
  show ?case
  proof (cases "vs = []")
    case True
    have "json_read m (json_text v @ '']'' @ r) = Some (json_clean v, '']'' @ r)"
      using Cons.prems True n by (intro Cons.prems(2)) (simp_all add: ends_value_def num_char_def)
    then show ?thesis by (simp add: True n)
  next
    case False
    let ?t = "str_Join '','' (map json_text vs)"
    have join: "str_Join '','' (map json_text (v # vs)) = json_text v @ '','' @ ?t"
      using False by (simp add: str_Join_Cons)
    have "json_read m (json_text v @ '','' @ ?t @ '']'' @ r) = Some (json_clean v, '','' @ ?t @ '']'' @ r)"
      using Cons.prems(3) n unfolding join by (intro Cons.prems(2)) (simp_all add: ends_value_def num_char_def)
    moreover have "read_elems m (?t @ '']'' @ r) = Some (map json_clean vs, r)"
      using Cons.prems n unfolding join by (intro Cons.IH False) simp_all
    ultimately show ?thesis unfolding join by (simp add: n)
  qed
qed simp

lemma read_members_text:
  assumes "ms \<noteq> []" "\<And>k v m r. (k, v) \<in> set ms \<Longrightarrow> length (json_text v) \<le> m \<Longrightarrow> ends_value r \<Longrightarrow>
      json_read m (json_text v @ r) = Some (json_clean v, r)"
    and "length (str_Join '','' (map (\<lambda>(k, v). json_string k @ '':'' @ json_text v) ms)) < n"
  shows "read_members n (str_Join '','' (map (\<lambda>(k, v). json_string k @ '':'' @ json_text v) ms) @ ''}'' @ r) =
    Some (map (\<lambda>(k, v). (utf8_clean k, json_clean v)) ms, r)"
  using assms
proof (induction ms arbitrary: n)
  case (Cons p ms)
  obtain k v where p: "p = (k, v)" by (rule prod.exhaust)
  obtain m where n: "n = Suc m" using Cons.prems(3) by (cases n) auto
  let ?text = "\<lambda>(k, v). json_string k @ '':'' @ json_text v"
  show ?case
  proof (cases "ms = []")
    case True
    have "json_read m (json_text v @ ''}'' @ r) = Some (json_clean v, ''}'' @ r)"
      using Cons.prems(3) True n p
      by (intro Cons.prems(2) [of k]) (simp_all add: ends_value_def num_char_def json_string_def)
    then show ?thesis by (simp add: True n p json_string_def read_json_chars HasPrefix_def)
  next
    case False
    let ?t = "str_Join '','' (map ?text ms)"
    have join: "str_Join '','' (map ?text (p # ms)) = (json_string k @ '':'' @ json_text v) @ '','' @ ?t"
      using False by (simp add: str_Join_Cons p)
    have "json_read m (json_text v @ '','' @ ?t @ ''}'' @ r) = Some (json_clean v, '','' @ ?t @ ''}'' @ r)"
      using Cons.prems(3) n p unfolding join
      by (intro Cons.prems(2) [of k]) (simp_all add: ends_value_def num_char_def json_string_def)
    moreover have "read_members m (?t @ ''}'' @ r) = Some (map (\<lambda>(k, v). (utf8_clean k, json_clean v)) ms, r)"
    proof (rule Cons.IH [OF False])
      show "json_read m (json_text v @ r) = Some (json_clean v, r)"
        if "(k, v) \<in> set ms" "length (json_text v) \<le> m" "ends_value r" for k v m r
        using that by (intro Cons.prems(2) [of k]) simp_all
      show "length ?t < m" using Cons.prems(3) n unfolding join by simp
    qed
    ultimately show ?thesis unfolding join by (simp add: n p json_string_def read_json_chars HasPrefix_def)
  qed
qed simp

lemma json_read_text:
  "json_ok v \<Longrightarrow> length (json_text v) \<le> n \<Longrightarrow> ends_value r \<Longrightarrow> json_read n (json_text v @ r) = Some (json_clean v, r)"
proof (induction v arbitrary: n r)
  case (JNum lit)
  then show ?case using read_number [of lit r n] by auto
next
  case (JStr s)
  then obtain m where "n = Suc m" by (cases n) (auto simp: json_string_def)
  with JStr show ?case by (simp add: json_string_def read_json_chars HasPrefix_def)
next
  case (JArr vs)
  then obtain m where n: "n = Suc m" by (cases n) auto
  show ?case
  proof (cases vs)
    case Nil
    then show ?thesis by (simp add: n HasPrefix_def)
  next
    case (Cons v ws)
    then have "json_ok v" using JArr.prems(1) by simp
    then obtain c cs where "json_text v = c # cs" "c \<noteq> CHR '']''" using json_text_first [of v] by blast
    then have "\<not> HasPrefix (str_Join '','' (map json_text vs) @ '']'' @ r) '']''"
      using Cons by (cases ws) (simp_all add: HasPrefix_def)
    moreover have "read_elems m (str_Join '','' (map json_text vs) @ '']'' @ r) = Some (map json_clean vs, r)"
      using JArr n Cons by (intro read_elems_text) (auto simp: list_all_iff)
    ultimately show ?thesis by (simp add: n HasPrefix_def)
  qed
next
  case (JObj ms)
  then obtain m where n: "n = Suc m" by (cases n) auto
  let ?t = "str_Join '','' (map (\<lambda>(k, v). json_string k @ '':'' @ json_text v) ms)"
  show ?case
  proof (cases ms)
    case Nil
    then show ?thesis by (simp add: n HasPrefix_def)
  next
    case (Cons p ps)
    then have "\<not> HasPrefix (?t @ ''}'' @ r) ''}''"
      by (cases ps) (simp_all add: HasPrefix_def json_string_def case_prod_unfold)
    moreover have "read_members m (?t @ ''}'' @ r) = Some (map (\<lambda>(k, v). (utf8_clean k, json_clean v)) ms, r)"
      using JObj n Cons by (intro read_members_text) (fastforce simp: list_all_iff)+
    ultimately show ?thesis by (simp add: n HasPrefix_def)
  qed
next
  case JNull
  then obtain m where n: "n = Suc m" by (cases n) auto
  then show ?case by (simp add: HasPrefix_def)
next
  case (JBool b)
  then obtain m where n: "n = Suc m" by (cases n) (auto split: if_splits)
  then show ?case by (simp add: HasPrefix_def)
qed

lemma json_Decode_Encode: "json_ok v \<Longrightarrow> json_Decode (json_Encode v) = Some (json_clean v)"
  using json_read_text [of v "length (json_Encode v)" "[CHR 10]"]
  by (simp add: json_Decode_def json_Encode_def ends_value_def num_char_def)

lemma json_Decode_text: "json_ok v \<Longrightarrow> json_Decode (json_text v) = Some (json_clean v)"
  using json_read_text [of v "length (json_text v)" "[]"] by (simp add: json_Decode_def ends_value_def)

section \<open>Text that is safe in a script element\<close>

text \<open>No markup and no control characters: what a browser parses as JavaScript stays inside it.\<close>

definition script_safe :: "char \<Rightarrow> bool" where
  "script_safe c \<longleftrightarrow> c \<notin> {CHR ''<'', CHR ''>'', CHR ''&''} \<and> 32 \<le> byte_of c"

lemma digit_char_safe: "d < 16 \<Longrightarrow> script_safe (digit_char d)"
proof -
  have "list_all (\<lambda>d. script_safe (digit_char d)) [0 ..< 16]" by code_simp
  then show "d < 16 \<Longrightarrow> script_safe (digit_char d)" by (simp add: list_all_iff)
qed

lemma safe_chars:
  "list_all script_safe (backslash # CHR 0x22 # ''bfnrtu0:,[]{}'')" "list_all script_safe ''u202''"
  "list_all script_safe ''ufffd''" "list_all script_safe ''null''" "list_all script_safe ''true''"
  "list_all script_safe ''false''"
  by code_simp+

lemma if_safe:
  "(b \<Longrightarrow> list_all P xs) \<Longrightarrow> (\<not> b \<Longrightarrow> list_all P ys) \<Longrightarrow> list_all P (if b then xs else ys)"
  by simp

lemma safe_letters:
  "script_safe backslash" "script_safe (CHR 0x22)" "script_safe (CHR ''b'')" "script_safe (CHR ''f'')"
  "script_safe (CHR ''n'')" "script_safe (CHR ''r'')" "script_safe (CHR ''t'')" "script_safe (CHR ''u'')"
  "script_safe (CHR ''0'')"
  using safe_chars(1) by (simp_all only: list.pred_inject simp_thms)

lemma json_ascii_safe: "list_all script_safe (json_ascii c)"
proof -
  have hex: "list_all script_safe ([backslash] @ ''u00'' @ lower_hex2 n)" for n
    by (simp only: append_Cons append_Nil lower_hex2_def list.pred_inject safe_letters simp_thms)
      (simp add: digit_char_safe)
  have rest: "list_all script_safe [c]"
    if "\<not> (byte_of c < 32 \<or> c = CHR ''<'' \<or> c = CHR ''>'' \<or> c = CHR ''&'')"
    using that by (simp only: script_safe_def list.pred_inject insert_iff empty_iff simp_thms de_Morgan_disj not_less)
  have "list_all script_safe [backslash, c]" if "c = CHR 0x22 \<or> c = backslash"
    using that by (elim disjE) (simp_all only: list.pred_inject safe_letters simp_thms)
  then show ?thesis
    unfolding json_ascii_def by (intro if_safe hex rest) (simp_all only: list.pred_inject safe_letters simp_thms)
qed

lemma json_rune_safe:
  assumes "utf8_len s = Some n"
  shows "list_all script_safe (json_rune (take n s))"
proof (cases "line_separator (take n s)")
  case True
  then show ?thesis using safe_chars(1,2) by (simp add: json_rune_def digit_char_safe)
next
  case False
  then show ?thesis
    using utf8_len_high [OF assms] by (auto simp: json_rune_def list_all_iff script_safe_def)
qed

lemma json_chars_safe: "list_all script_safe (json_chars s)"
proof (induction s rule: json_chars.induct)
  case (2 c cs)
  have "list_all script_safe (backslash # ''ufffd'')" using safe_chars(1,3) by simp
  with 2 show ?case
    by (cases "utf8_len (c # cs)") (auto simp: json_chars.simps json_ascii_safe json_rune_safe)
qed (simp add: json_chars.simps)

lemma str_Join_safe: "\<forall>w \<in> set ws. list_all P w \<Longrightarrow> list_all P sep \<Longrightarrow> list_all P (str_Join sep ws)"
  by (induction sep ws rule: str_Join.induct) auto

lemma json_string_safe: "list_all script_safe (json_string s)"
  using json_chars_safe safe_chars(1) by (simp add: json_string_def)

lemma json_text_safe: "json_ok v \<Longrightarrow> list_all script_safe (json_text v)"
proof (induction v)
  case (JNum lit)
  have "list_all script_safe ''0123456789+-.eE''" by code_simp
  then have "num_char c \<Longrightarrow> script_safe c" for c by (auto simp: num_char_def list_all_iff)
  then show ?case using JNum by (auto simp: list_all_iff)
next
  case (JArr vs)
  then have "list_all script_safe (str_Join '','' (map json_text vs))"
    using safe_chars(1) by (intro str_Join_safe) (auto simp: list_all_iff)
  then show ?case using safe_chars(1) by simp
next
  case (JObj ms)
  have "list_all script_safe (json_text v)" if "(k, v) \<in> set ms" for k v
    using JObj that by (fastforce simp: list_all_iff)
  then have "list_all script_safe (str_Join '','' (map (\<lambda>(k, v). json_string k @ '':'' @ json_text v) ms))"
    using safe_chars(1) json_string_safe by (intro str_Join_safe) auto
  then show ?case using safe_chars(1) by simp
qed (use safe_chars json_string_safe in simp_all)

lemma itoa_num: "json_ok (JNum (itoa n))"
proof -
  have "list_all num_char (itoa n)"
  proof (induction "10 :: nat" n rule: format_digits.induct)
    case (1 n)
    have "list_all (\<lambda>d. num_char (digit_char d)) [0 ..< 10]" by code_simp
    then have "num_char (digit_char d)" if "d < 10" for d using that by (simp add: list_all_iff)
    with 1 show ?case by (subst format_digits.simps) (auto split: if_splits)
  qed
  then show ?thesis by (simp del: format_digits.simps)
qed

end
