(* ===== verification/Results_Api.thy ===== *)
theory Results_Api
  imports Ring_Buffer Json_Text Pool
begin

text \<open>
  JSON that leaves the program: the body of \<open>GET /results\<close> (\<open>store/store.go\<close>) and the body of a JSON-RPC
  request (\<open>pool/pool.go\<close>), each with the reader at the other end.
\<close>

section \<open>Results\<close>

definition results_body :: "RingBuffer \<Rightarrow> string res" where
  "results_body r = res_bind (Handler r) (\<lambda>v. Inr (json_Encode v))"

text \<open>A client that reads the body with the same field names.\<close>

definition unmarshal_Result :: "members \<Rightarrow> Result res" where
  "unmarshal_Result ms =
     res_bind (field_uint64 ''block'' ms) (\<lambda>block.
     res_bind (field_string ''guest'' ms) (\<lambda>guest.
     res_bind (field_string ''witness_from'' ms) (\<lambda>from.
     res_bind (field_bool ''valid'' ms) (\<lambda>valid.
     res_bind (field_string ''error'' ms) (\<lambda>err.
     res_bind (field_string ''log'' ms) (\<lambda>log.
     res_bind (field_int ''tx_count'' ms) (\<lambda>txs.
     res_bind (field_uint64 ''gas_used'' ms) (\<lambda>gas.
     res_bind (field_int ''duration_ms'' ms) (\<lambda>ms.
       Inr \<lparr>rs_Block = block, rs_Guest = guest, rs_WitnessFrom = from, rs_Valid = valid, rs_Error = err,
            rs_Log = log, rs_TxCount = txs, rs_GasUsed = gas, rs_DurationMs = ms\<rparr>)))))))))"

definition read_results :: "string \<Rightarrow> Result list res" where
  "read_results text =
     (case json_Decode text of
        None \<Rightarrow> Inl (Errorf ''invalid JSON'')
      | Some v \<Rightarrow> unmarshal_slice (unmarshal_struct unmarshal_Result) v)"

text \<open>A result as it arrives: its strings with the bytes that are not UTF-8 replaced.\<close>

definition clean_Result :: "Result \<Rightarrow> Result" where
  "clean_Result r = r\<lparr>rs_Guest := utf8_clean (rs_Guest r), rs_WitnessFrom := utf8_clean (rs_WitnessFrom r),
                     rs_Error := utf8_clean (rs_Error r), rs_Log := utf8_clean (rs_Log r)\<rparr>"

text \<open>The signed fields are Go's \<open>int\<close> and \<open>int64\<close>.\<close>

definition int64_range :: "int \<Rightarrow> bool" where
  "int64_range n \<longleftrightarrow> - (2 ^ 63) \<le> n \<and> n < 2 ^ 63"

definition Result_typed :: "Result \<Rightarrow> bool" where
  "Result_typed r \<longleftrightarrow> int64_range (rs_TxCount r) \<and> int64_range (rs_DurationMs r)"

lemma clean_Result_fields:
  "rs_Block (clean_Result r) = rs_Block r" "rs_Guest (clean_Result r) = utf8_clean (rs_Guest r)"
  "rs_WitnessFrom (clean_Result r) = utf8_clean (rs_WitnessFrom r)" "rs_Valid (clean_Result r) = rs_Valid r"
  "rs_Error (clean_Result r) = utf8_clean (rs_Error r)" "rs_Log (clean_Result r) = utf8_clean (rs_Log r)"
  "rs_TxCount (clean_Result r) = rs_TxCount r" "rs_GasUsed (clean_Result r) = rs_GasUsed r"
  "rs_DurationMs (clean_Result r) = rs_DurationMs r"
  by (simp_all add: clean_Result_def)

lemma clean_Result_valid:
  "list_all utf8_valid [rs_Guest r, rs_WitnessFrom r, rs_Error r, rs_Log r] \<Longrightarrow> clean_Result r = r"
  by (simp add: clean_Result_def utf8_clean_valid)

lemma itoa_no_sign: "itoa n \<noteq> [] \<and> hd (itoa n) \<noteq> CHR ''-''"
proof -
  obtain d where "d < 36" "hd (itoa n) = digit_char d"
    using hd_format_digits [of 10 n] by auto
  moreover have "itoa n \<noteq> []" by (subst format_digits.simps) simp
  ultimately show ?thesis using digit_char_sign [of d] by (simp del: format_digits.simps)
qed

lemma parse_int64_literal: "int64_range n \<Longrightarrow> parse_int64 (int_literal n) = Some n"
  using itoa_no_sign [of "nat n"] itoa_no_sign [of "nat (- n)"]
  by (auto simp: parse_int64_def int_literal_def int64_range_def digits_value_format simp del: format_digits.simps)

lemma int_literal_num: "json_ok (JNum (int_literal n))"
  using itoa_num [of "nat n"] itoa_num [of "nat (- n)"]
  by (auto simp: int_literal_def num_char_def simp del: format_digits.simps)

lemma Result_json_ok: "json_ok (Result_json r)"
  using itoa_num [of "unat (rs_Block r)"] itoa_num [of "unat (rs_GasUsed r)"]
    int_literal_num [of "rs_TxCount r"] int_literal_num [of "rs_DurationMs r"]
  by (simp add: Result_json_def omitempty_def del: format_digits.simps)

text \<open>Looking a field up: keys are compared in lower case.\<close>

lemma values_of_rec:
  "values_of name [] = []"
  "values_of name ((k, v) # ms) = (if ToLower k = ToLower name then v # values_of name ms else values_of name ms)"
  "values_of name (ms @ ms') = values_of name ms @ values_of name ms'"
  "values_of name (omitempty k s) = (if ToLower k = ToLower name \<and> s \<noteq> [] then [JStr s] else [])"
  by (simp_all add: values_of_def omitempty_def)

lemma result_keys_clean:
  "utf8_clean ''block'' = ''block''" "utf8_clean ''guest'' = ''guest''" "utf8_clean ''witness_from'' = ''witness_from''"
  "utf8_clean ''valid'' = ''valid''" "utf8_clean ''error'' = ''error''" "utf8_clean ''log'' = ''log''"
  "utf8_clean ''tx_count'' = ''tx_count''" "utf8_clean ''gas_used'' = ''gas_used''"
  "utf8_clean ''duration_ms'' = ''duration_ms''"
  by code_simp+

lemma result_keys_lower:
  "ToLower ''block'' = ''block''" "ToLower ''guest'' = ''guest''" "ToLower ''witness_from'' = ''witness_from''"
  "ToLower ''valid'' = ''valid''" "ToLower ''error'' = ''error''" "ToLower ''log'' = ''log''"
  "ToLower ''tx_count'' = ''tx_count''" "ToLower ''gas_used'' = ''gas_used''" "ToLower ''duration_ms'' = ''duration_ms''"
  by code_simp+

lemma utf8_clean_Nil: "utf8_clean s = [] \<longleftrightarrow> s = []"
proof (cases s)
  case (Cons c cs)
  then show ?thesis
    using utf8_len_bounds [of "c # cs"] by (auto simp: utf8_clean.simps utf8_encode_def split: option.splits)
qed (simp add: utf8_clean.simps)

lemma Result_json_clean: "json_clean (Result_json r) = Result_json (clean_Result r)"
proof -
  have "map (\<lambda>(k, v). (utf8_clean k, json_clean v)) (omitempty k s) = omitempty k (utf8_clean s)"
    if "utf8_clean k = k" for k s
    using that by (simp add: omitempty_def utf8_clean_Nil)
  then show ?thesis
    by (simp only: Result_json_def json_clean.simps map_append list.map prod.case result_keys_clean clean_Result_fields)
qed

lemma unmarshal_Result_json:
  assumes "Result_typed r"
  shows "unmarshal_struct unmarshal_Result (Result_json r) = Inr r"
proof -
  obtain ms where ms: "Result_json r = JObj ms" by (simp add: Result_json_def)
  have fields: "values_of ''block'' ms = [JNum (itoa (unat (rs_Block r)))]" "values_of ''guest'' ms = [JStr (rs_Guest r)]"
    "values_of ''witness_from'' ms = [JStr (rs_WitnessFrom r)]" "values_of ''valid'' ms = [JBool (rs_Valid r)]"
    "values_of ''error'' ms = (if rs_Error r = [] then [] else [JStr (rs_Error r)])"
    "values_of ''log'' ms = (if rs_Log r = [] then [] else [JStr (rs_Log r)])"
    "values_of ''tx_count'' ms = [JNum (int_literal (rs_TxCount r))]"
    "values_of ''gas_used'' ms = [JNum (itoa (unat (rs_GasUsed r)))]"
    "values_of ''duration_ms'' ms = [JNum (int_literal (rs_DurationMs r))]"
    using ms [symmetric]
    by (simp_all only: Result_json_def json.inject values_of_rec result_keys_lower)
      (simp_all del: format_digits.simps)
  have ints: "parse_int64 (int_literal (rs_TxCount r)) = Some (rs_TxCount r)"
    "parse_int64 (int_literal (rs_DurationMs r)) = Some (rs_DurationMs r)"
    using assms by (simp_all add: Result_typed_def parse_int64_literal)
  have "field_uint64 ''block'' ms = Inr (rs_Block r)" "field_uint64 ''gas_used'' ms = Inr (rs_GasUsed r)"
    by (simp_all add: field_uint64_def fields unmarshal_uint64_format del: format_digits.simps unmarshal_uint64.simps)
  moreover have "field_string ''guest'' ms = Inr (rs_Guest r)" "field_string ''witness_from'' ms = Inr (rs_WitnessFrom r)"
    "field_string ''error'' ms = Inr (rs_Error r)" "field_string ''log'' ms = Inr (rs_Log r)"
    by (simp_all add: field_string_def fields)
  moreover have "field_bool ''valid'' ms = Inr (rs_Valid r)" "field_int ''tx_count'' ms = Inr (rs_TxCount r)"
    "field_int ''duration_ms'' ms = Inr (rs_DurationMs r)"
    by (simp_all add: field_bool_def field_int_def fields ints)
  ultimately show ?thesis by (simp add: ms unmarshal_Result_def)
qed

lemma results_body_text:
  "All_results r = Inr xs \<Longrightarrow> results_body r = Inr (json_Encode (JArr (map Result_json xs)))"
  by (simp add: results_body_def Handler_def)

lemma read_results_body:
  assumes "\<forall>r \<in> set xs. Result_typed r"
  shows "read_results (json_Encode (JArr (map Result_json xs))) = Inr (map clean_Result xs)"
proof -
  have "json_ok (JArr (map Result_json xs))" by (simp add: list_all_iff Result_json_ok)
  from json_Decode_Encode [OF this]
  have "read_results (json_Encode (JArr (map Result_json xs))) =
      res_mapi 0 (\<lambda>_. unmarshal_struct unmarshal_Result) (map (\<lambda>r. Result_json (clean_Result r)) xs)"
    by (simp add: read_results_def Result_json_clean comp_def)
  also have "\<dots> = Inr (map clean_Result xs)"
    using assms
    by (auto simp: res_mapi_eq_Inr Result_typed_def clean_Result_fields intro!: unmarshal_Result_json)
  finally show ?thesis .
qed

section \<open>Requests\<close>

record rpcRequest =
  rq_JSONRPC :: string
  rq_ID :: int
  rq_Method :: string
  rq_Params :: "json list"

definition rpcRequest_json :: "rpcRequest \<Rightarrow> json" where
  "rpcRequest_json q =
     JObj [(''jsonrpc'', JStr (rq_JSONRPC q)), (''id'', JNum (int_literal (rq_ID q))),
           (''method'', JStr (rq_Method q)), (''params'', JArr (rq_Params q))]"

text \<open>The body that \<open>call\<close> posts; absent parameters become an empty list.\<close>

definition request_body :: "string \<Rightarrow> json list option \<Rightarrow> string" where
  "request_body method params =
     json_text (rpcRequest_json \<lparr>rq_JSONRPC = ''2.0'', rq_ID = 1, rq_Method = method,
                                 rq_Params = (case params of None \<Rightarrow> [] | Some ps \<Rightarrow> ps)\<rparr>)"

text \<open>A node reads the method and the parameters that the program passed.\<close>

lemma request_body_read:
  assumes "list_all (\<lambda>v. json_ok v \<and> json_valid v) ps" "utf8_valid method" "params = Some ps \<or> params = None \<and> ps = []"
  shows "json_Decode (request_body method params) =
    Some (JObj [(''jsonrpc'', JStr ''2.0''), (''id'', JNum ''1''), (''method'', JStr method), (''params'', JArr ps)])"
proof -
  let ?v = "rpcRequest_json \<lparr>rq_JSONRPC = ''2.0'', rq_ID = 1, rq_Method = method, rq_Params = ps\<rparr>"
  have one: "int_literal 1 = ''1''" by code_simp
  have keys: "utf8_valid ''jsonrpc'' \<and> utf8_valid ''id'' \<and> utf8_valid ''method'' \<and> utf8_valid ''params'' \<and> utf8_valid ''2.0''"
    by code_simp
  have "json_ok ?v" "json_valid ?v"
    using assms(1,2) keys int_literal_num [of 1] by (simp_all add: rpcRequest_json_def list_all_iff)
  then have "json_Decode (json_text ?v) = Some ?v" by (simp add: json_Decode_text json_clean_valid)
  moreover have "request_body method params = json_text ?v" using assms(3) by (auto simp: request_body_def)
  ultimately show ?thesis by (simp add: rpcRequest_json_def one)
qed

section \<open>Properties\<close>

text \<open>
  The results endpoint serves the log. After any sequence of \<open>Add\<close> calls the body of \<open>GET /results\<close> is
  JSON, and a client that reads it gets the last 1000 results field by field, oldest first; only
  bytes that are not UTF-8 in names, errors and guest logs arrive as replacement characters.
\<close>

lemma results_body_roundtrip:
  assumes "\<forall>x \<in> set xs. Result_typed x"
  shows "\<exists>r text. add_all xs empty_RingBuffer = Inr r \<and> results_body r = Inr text \<and>
    read_results text = Inr (map clean_Result (keep_last 1000 xs)) \<and>
    (\<forall>x \<in> set xs. list_all utf8_valid [rs_Guest x, rs_WitnessFrom x, rs_Error x, rs_Log x] \<longrightarrow> clean_Result x = x)"
proof -
  obtain r where "add_all xs empty_RingBuffer = Inr r" "All_results r = Inr (keep_last 1000 xs)"
    using results.put_all_keeps_last [of xs] by (auto simp: add_all_put_all capacity_def)
  moreover have "\<forall>x \<in> set (keep_last 1000 xs). Result_typed x"
    using assms keep_last_suffix [of xs 1000] by (metis Un_iff set_append)
  ultimately show ?thesis
    using results_body_text [of r] read_results_body clean_Result_valid by blast
qed

lemma results_body_roundtrip_example:
  "\<exists>r text. add_all [zero_Result\<lparr>rs_Guest := ''zesu'', rs_Log := [CHR 0x22, CHR ''<'', CHR 0xFF]\<rparr>] empty_RingBuffer = Inr r \<and>
     results_body r = Inr text \<and>
     read_results text = Inr [zero_Result\<lparr>rs_Guest := ''zesu'', rs_Log := [CHR 0x22, CHR ''<'', CHR 0xEF, CHR 0xBF, CHR 0xBD]\<rparr>]"
proof -
  let ?x = "zero_Result\<lparr>rs_Guest := ''zesu'', rs_Log := [CHR 0x22, CHR ''<'', CHR 0xFF]\<rparr>"
  have replaced: "utf8_clean ''zesu'' = ''zesu''"
    "utf8_clean [CHR 0x22, CHR ''<'', CHR 0xFF] = [CHR 0x22, CHR ''<'', CHR 0xEF, CHR 0xBF, CHR 0xBD]"
    by (simp_all add: utf8_clean.simps utf8_len_def in_range_def utf8_encode_def char_of_def bit_0)
  have "clean_Result ?x = zero_Result\<lparr>rs_Guest := ''zesu'', rs_Log := [CHR 0x22, CHR ''<'', CHR 0xEF, CHR 0xBF, CHR 0xBD]\<rparr>"
    using replaced utf8_clean.simps(1) by (simp only: clean_Result_def zero_Result_def Result.simps Result.update_convs)
  moreover have "\<forall>x \<in> set [?x]. Result_typed x" by (simp add: Result_typed_def int64_range_def zero_Result_def)
  ultimately show ?thesis using results_body_roundtrip [of "[?x]"]
    by (simp only: keep_last_all length_Cons list.size list.map) blast
qed

end
