(* ===== verification/Server.thy ===== *)
theory Server
  imports Live Results_Api
begin

text \<open>
  The process of the live mode (\<open>main.go\<close>): the live loop, the goroutine that polls the pool
  (\<open>Pool.Run\<close>), the HTTP server with \<open>GET /results\<close>, and the way the process ends. Steps are taken in
  any order in which the goroutines can take them.
\<close>

section \<open>State\<close>

text \<open>
  \<open>sv_done\<close>: the context was cancelled by SIGINT or SIGTERM; later signals change nothing.
  \<open>sv_polling\<close>: \<open>Pool.Run\<close> has not returned. \<open>sv_stopping\<close>: the loop has taken \<open>ctx.Done\<close> and is in
  \<open>srv.Shutdown\<close>. \<open>sv_exit\<close> is the exit code of a process that has ended: 0 when \<open>main\<close> returned, 1
  after \<open>log.Fatalf\<close>, 2 after a panic. \<open>sv_sent\<close> records the bodies sent by \<open>GET /results\<close>, oldest first,
  or the panic of a handler; the program does not keep them.
\<close>

datatype http = Starting | Serving | Closed

record server =
  sv_live :: live_state
  sv_http :: http
  sv_done :: bool
  sv_polling :: bool
  sv_stopping :: bool
  sv_exit :: "nat option"
  sv_sent :: "string res list"

definition server_init :: "Pool \<Rightarrow> Metrics \<Rightarrow> server" where
  "server_init p m =
     \<lparr>sv_live = live_init p m, sv_http = Starting, sv_done = False, sv_polling = True,
      sv_stopping = False, sv_exit = None, sv_sent = []\<rparr>"

section \<open>Steps\<close>

text \<open>
  Once the context is cancelled every request made under it fails (\<open>http.Client.Do\<close> returns the error
  of the context); it does not panic.
\<close>

definition ctx_cancelled :: "world \<Rightarrow> bool" where
  "ctx_cancelled E \<longleftrightarrow> (\<forall>url method params. \<exists>e. rpc E url method params = Inl e \<and> \<not> is_panic e)"

text \<open>One round of the loop of \<open>Pool.Run\<close>: on a tick it polls, on a cancelled context it returns.\<close>

fun pool_Run :: "transport option \<Rightarrow> Pool \<Rightarrow> Pool option" where
  "pool_Run (Some T) p = Some (poll T p)"
| "pool_Run None p = None"

text \<open>A head is received and its block fetched; a panic of the encoder ends the process.\<close>

definition take_head :: "geth \<Rightarrow> 'c node_api \<Rightarrow> world \<Rightarrow> config \<Rightarrow> server \<Rightarrow> server" where
  "take_head G A E cfg s =
     (let l = receive G A E cfg (sv_live s)
      in s\<lparr>sv_live := l, sv_exit := (if ls_phase l = Crashed then Some 2 else None)\<rparr>)"

text \<open>A guest ends; a panic in its goroutine would end the process.\<close>

definition end_guest :: "(string \<Rightarrow> bytes \<Rightarrow> ExecOutcome) \<Rightarrow> nat \<Rightarrow> server \<Rightarrow> server" where
  "end_guest exec i s =
     (case finish_guest exec i (sv_live s) of
        Inl e \<Rightarrow> s\<lparr>sv_exit := Some 2\<rparr>
      | Inr l \<Rightarrow> s\<lparr>sv_live := l\<rparr>)"

text \<open>\<open>select\<close> takes any case that is ready, so that a cancelled context does not stop the other case at once.\<close>

inductive server_step :: "geth \<Rightarrow> 'c node_api \<Rightarrow> config \<Rightarrow> server \<Rightarrow> server \<Rightarrow> bool" for G A cfg where
  Poll: "sv_exit s = None \<Longrightarrow> sv_polling s \<Longrightarrow> pool_Run (Some T) (ls_pool (sv_live s)) = Some p \<Longrightarrow>
    server_step G A cfg s (s\<lparr>sv_live := (sv_live s)\<lparr>ls_pool := p\<rparr>\<rparr>)"
| PollStop: "sv_exit s = None \<Longrightarrow> sv_polling s \<Longrightarrow> sv_done s \<Longrightarrow> pool_Run None (ls_pool (sv_live s)) = None \<Longrightarrow>
    server_step G A cfg s (s\<lparr>sv_polling := False\<rparr>)"
| Receive: "sv_exit s = None \<Longrightarrow> \<not> sv_stopping s \<Longrightarrow> ls_phase (sv_live s) = Waiting \<Longrightarrow>
    pl_Heads (ls_pool (sv_live s)) \<noteq> [] \<Longrightarrow> sv_done s \<longrightarrow> ctx_cancelled E \<Longrightarrow>
    server_step G A cfg s (take_head G A E cfg s)"
| Finish: "sv_exit s = None \<Longrightarrow> ls_phase (sv_live s) = Verifying n node meta input gs \<Longrightarrow> i < length gs \<Longrightarrow>
    server_step G A cfg s (end_guest exec i s)"
| Wait: "sv_exit s = None \<Longrightarrow> ls_phase (sv_live s) = Verifying n node meta input [] \<Longrightarrow>
    server_step G A cfg s (s\<lparr>sv_live := (sv_live s)\<lparr>ls_phase := Waiting\<rparr>\<rparr>)"
| Signal: "sv_exit s = None \<Longrightarrow> server_step G A cfg s (s\<lparr>sv_done := True\<rparr>)"
| Listen: "sv_exit s = None \<Longrightarrow> sv_http s = Starting \<Longrightarrow>
    server_step G A cfg s (s\<lparr>sv_http := if sv_stopping s then Closed else Serving\<rparr>)"
| HttpFailed: "sv_exit s = None \<Longrightarrow> sv_http s = Starting \<or> sv_http s = Serving \<Longrightarrow>
    server_step G A cfg s (s\<lparr>sv_exit := Some 1\<rparr>)"
| Get: "sv_exit s = None \<Longrightarrow> sv_http s \<noteq> Starting \<Longrightarrow>
    server_step G A cfg s (s\<lparr>sv_sent := sv_sent s @ [results_body (ls_buf (sv_live s))]\<rparr>)"
| Shutdown: "sv_exit s = None \<Longrightarrow> \<not> sv_stopping s \<Longrightarrow> ls_phase (sv_live s) = Waiting \<Longrightarrow> sv_done s \<Longrightarrow>
    server_step G A cfg s
      (s\<lparr>sv_stopping := True, sv_http := if sv_http s = Serving then Closed else sv_http s\<rparr>)"
| Exit: "sv_exit s = None \<Longrightarrow> sv_stopping s \<Longrightarrow> server_step G A cfg s (s\<lparr>sv_exit := Some 0\<rparr>)"

inductive_cases server_stepE: "server_step G A cfg s s'"

inductive server_reach :: "geth \<Rightarrow> 'c node_api \<Rightarrow> config \<Rightarrow> server \<Rightarrow> server \<Rightarrow> bool" for G A cfg s0 where
  Start: "server_reach G A cfg s0 s0"
| Step: "server_reach G A cfg s0 s \<Longrightarrow> server_step G A cfg s s' \<Longrightarrow> server_reach G A cfg s0 s'"

interpretation server_sys: transition_system "server_step G A cfg" "server_reach G A cfg" for G A cfg
proof unfold_locales
  fix s0 s and P :: "server \<Rightarrow> bool"
  assume "server_reach G A cfg s0 s" "P s0"
    "\<And>s s'. server_reach G A cfg s0 s \<Longrightarrow> P s \<Longrightarrow> server_step G A cfg s s' \<Longrightarrow> P s'"
  then show "P s" by (rule server_reach.induct)
qed (auto intro: server_reach.intros)

section \<open>The live mode inside the process\<close>

text \<open>A body of \<open>GET /results\<close> taken when \<open>k\<close> results had been added.\<close>

definition body_after :: "nat \<Rightarrow> Result list \<Rightarrow> string" where
  "body_after k log = json_Encode (JArr (map Result_json (keep_last 1000 (take k log))))"

definition server_inv :: "config \<Rightarrow> server \<Rightarrow> bool" where
  "server_inv cfg s \<longleftrightarrow>
     live_inv cfg (sv_live s) \<and> (ls_phase (sv_live s) = Crashed \<longleftrightarrow> sv_exit s = Some 2) \<and>
     (sv_stopping s \<longrightarrow> sv_done s \<and> ls_phase (sv_live s) = Waiting \<and> sv_http s \<noteq> Serving) \<and>
     (sv_exit s = Some 0 \<longrightarrow> sv_stopping s) \<and> sv_exit s \<in> {None, Some 0, Some 1, Some 2}"

definition sent_inv :: "server \<Rightarrow> bool" where
  "sent_inv s \<longleftrightarrow>
     (\<exists>ks. sorted ks \<and> (\<forall>k \<in> set ks. k \<le> length (ls_log (sv_live s))) \<and>
       sv_sent s = map (\<lambda>k. Inr (body_after k (ls_log (sv_live s)))) ks)"

lemma receive_log: "ls_log (receive G A E cfg s) = ls_log s"
  by (simp add: receive_def Let_def split: list.split prod.split sum.split)

lemma finish_guest_ok:
  assumes "live_inv cfg s" "ls_phase s = Verifying n node meta input gs"
  shows "\<exists>r s'. finish_guest exec i s = Inr s' \<and> ls_log s' = ls_log s @ [r] \<and>
    ls_phase s' = Verifying n node meta input (take i gs @ drop (Suc i) gs) \<and> ls_fetched s' = ls_fetched s"
proof -
  obtain r m where v: "verify_guest exec input node meta n (gs ! i) (ls_metrics s) = (r, m)"
    by (metis surj_pair)
  obtain b where "Add r (ls_buf s) = Inr b"
    using assms(1) results.put_ok [of "ls_buf s" _ r] by (auto simp: live_inv_def)
  then show ?thesis by (simp add: finish_guest_def assms(2) v)
qed

lemma end_guest_ok:
  assumes "server_inv cfg s" "ls_phase (sv_live s) = Verifying n node meta input gs"
  shows "\<exists>r l. finish_guest exec i (sv_live s) = Inr l \<and> end_guest exec i s = s\<lparr>sv_live := l\<rparr> \<and>
    ls_log l = ls_log (sv_live s) @ [r] \<and>
    ls_phase l = Verifying n node meta input (take i gs @ drop (Suc i) gs) \<and> ls_fetched l = ls_fetched (sv_live s)"
  using finish_guest_ok [OF _ assms(2), of cfg exec i] assms(1) by (auto simp: server_inv_def end_guest_def)

text \<open>Every step of the process is a step of the live mode or leaves it as it is.\<close>

lemma server_step_live:
  assumes "server_step G A cfg s s'" "server_inv cfg s"
  shows "sv_live s' = sv_live s \<or> live_step G A cfg (sv_live s) (sv_live s')"
  using assms(1)
proof (cases rule: server_step.cases)
  case (Poll T p)
  then have "ls_phase (sv_live s) \<noteq> Crashed" using assms(2) by (simp add: server_inv_def)
  with Poll show ?thesis by (auto intro: live_step.Poll)
next
  case (Receive E)
  then show ?thesis by (simp add: take_head_def Let_def live_step.Receive)
next
  case (Finish n node meta input gs i exec)
  moreover obtain l where "finish_guest exec i (sv_live s) = Inr l" "end_guest exec i s = s\<lparr>sv_live := l\<rparr>"
    using end_guest_ok [OF assms(2) Finish(3), of exec i] by blast
  ultimately show ?thesis by (auto intro: live_step.Finish)
next
  case (Wait n node meta input)
  then show ?thesis by (auto intro: live_step.Wait)
qed simp_all

lemma live_step_log:
  assumes "live_step G A cfg s s'" "live_inv cfg s"
  shows "\<exists>xs. ls_log s' = ls_log s @ xs"
  using assms(1)
proof (cases rule: live_step.cases)
  case (Finish n node meta input gs i exec)
  from finish_guest_ok [OF assms(2) Finish(1), of exec i] Finish(3) show ?thesis by auto
qed (simp_all add: receive_log)

lemma server_inv_step:
  assumes "server_step G A cfg s s'" "server_inv cfg s"
  shows "server_inv cfg s'"
proof -
  have live: "live_inv cfg (sv_live s')"
    using server_step_live [OF assms] assms(2) live_inv_step by (fastforce simp: server_inv_def)
  from assms(1) show ?thesis
  proof (cases rule: server_step.cases)
    case (Finish n node meta input gs i exec)
    moreover obtain l where "end_guest exec i s = s\<lparr>sv_live := l\<rparr>"
      "ls_phase l = Verifying n node meta input (take i gs @ drop (Suc i) gs)"
      using end_guest_ok [OF assms(2) Finish(3), of exec i] by blast
    ultimately show ?thesis using live assms(2) by (auto simp: server_inv_def)
  qed (use live assms(2) in \<open>auto simp: server_inv_def take_head_def Let_def\<close>)
qed

lemma body_after_append: "k \<le> length log \<Longrightarrow> body_after k (log @ xs) = body_after k log"
  by (simp add: body_after_def)

text \<open>Only a request sends a body: that of the results added so far.\<close>

lemma step_sends:
  assumes "server_step G A cfg s s'" "server_inv cfg s" "sv_sent s' \<noteq> sv_sent s"
  shows "sv_live s' = sv_live s"
    and "sv_sent s' = sv_sent s @ [Inr (body_after (length (ls_log (sv_live s))) (ls_log (sv_live s)))]"
proof -
  have "results_body (ls_buf (sv_live s)) = Inr (body_after (length (ls_log (sv_live s))) (ls_log (sv_live s)))"
    using assms(2) by (simp add: server_inv_def live_inv_def results_body_text body_after_def)
  moreover from assms(1) have "sv_live s' = sv_live s \<and> sv_sent s' = sv_sent s @ [results_body (ls_buf (sv_live s))]"
    by (cases rule: server_step.cases)
      (use assms(3) in \<open>auto simp: take_head_def end_guest_def Let_def split: sum.splits\<close>)
  ultimately show "sv_live s' = sv_live s"
    "sv_sent s' = sv_sent s @ [Inr (body_after (length (ls_log (sv_live s))) (ls_log (sv_live s)))]" by simp_all
qed

lemma sent_inv_step:
  assumes "server_step G A cfg s s'" "server_inv cfg s" "sent_inv s"
  shows "sent_inv s'"
proof -
  obtain ks where ks: "sorted ks" "\<forall>k \<in> set ks. k \<le> length (ls_log (sv_live s))"
    "sv_sent s = map (\<lambda>k. Inr (body_after k (ls_log (sv_live s)))) ks"
    using assms(3) by (auto simp: sent_inv_def)
  obtain xs where xs: "ls_log (sv_live s') = ls_log (sv_live s) @ xs"
    using server_step_live [OF assms(1,2)] live_step_log assms(2) by (fastforce simp: server_inv_def)
  have old: "map (\<lambda>k. Inr (body_after k (ls_log (sv_live s')))) ks = sv_sent s"
    using ks by (auto simp: xs body_after_append)
  show ?thesis
  proof (cases "sv_sent s' = sv_sent s")
    case True
    then show ?thesis using ks old unfolding sent_inv_def by (intro exI [of _ ks]) (auto simp: xs)
  next
    case False
    then show ?thesis
      using ks step_sends [OF assms(1,2)] unfolding sent_inv_def
      by (intro exI [of _ "ks @ [length (ls_log (sv_live s))]"]) (auto simp: sorted_append)
  qed
qed

interpretation process: simulation "server_step G A cfg" "server_reach G A cfg" "live_step G A cfg" "live_reach G A cfg"
  sv_live "server_inv cfg" for G A cfg
  by unfold_locales (rule server_inv_step, assumption+, rule server_step_live, assumption+)

lemma server_reach_inv:
  assumes "server_reach G A cfg s0 s" "server_inv cfg s0" "sent_inv s0"
  shows "server_inv cfg s \<and> sent_inv s \<and> live_reach G A cfg (sv_live s0) (sv_live s)"
proof -
  have "server_inv cfg s \<and> sent_inv s"
    using assms(1)
  proof (rule server_sys.invariant [where I = "\<lambda>s. server_inv cfg s \<and> sent_inv s"])
    fix s s' assume "server_step G A cfg s s'" "server_inv cfg s \<and> sent_inv s"
    then show "server_inv cfg s' \<and> sent_inv s'" using server_inv_step sent_inv_step by blast
  qed (use assms(2,3) in blast)
  with process.refines [OF assms(1,2)] show ?thesis by blast
qed

lemma server_init_inv: "pl_Heads p = [] \<Longrightarrow> server_inv cfg (server_init p m) \<and> sent_inv (server_init p m)"
  using live_inv_init [of p cfg m]
  by (simp add: server_inv_def sent_inv_def server_init_def) (simp add: live_init_def)

section \<open>After a signal\<close>

lemma fetch_cancelled:
  assumes "ctx_cancelled E"
  shows "\<exists>e. fe_input (fst (fetch_block G A E cfg p n)) = Inl e \<and> \<not> is_panic e"
proof -
  obtain url p' where pick: "Pick p = (url, p')" by (metis surj_pair)
  obtain e where e: "rpc E url ''debug_getRawBlock'' [JStr (hexNum n)] = Inl e" "\<not> is_panic e"
    using assms unfolding ctx_cancelled_def by blast
  show ?thesis
    by (cases "url = []") (simp_all add: fetch_block_def Fetch_def pick CallRaw_def call_def e)
qed

lemma receive_cancelled:
  assumes "ctx_cancelled E" "ls_phase s = Waiting"
  shows "ls_fetched (receive G A E cfg s) = ls_fetched s \<and> ls_phase (receive G A E cfg s) = Waiting"
proof (cases "pl_Heads (ls_pool s)")
  case (Cons n hs)
  let ?p = "(ls_pool s)\<lparr>pl_Heads := hs\<rparr>"
  obtain e where "fe_input (fst (fetch_block G A E cfg ?p n)) = Inl e" "\<not> is_panic e"
    using fetch_cancelled [OF assms(1), of G A cfg ?p n] by blast
  with assms(2) Cons show ?thesis by (simp add: receive_def Let_def case_prod_unfold)
qed (simp add: receive_def assms(2))

lemma signalled_step:
  assumes "server_step G A cfg s s'" "sv_done s" "server_inv cfg s"
  shows "sv_done s' \<and> ls_fetched (sv_live s') = ls_fetched (sv_live s)"
  using assms(1)
proof (cases rule: server_step.cases)
  case (Receive E)
  then show ?thesis using assms(2) receive_cancelled [of E "sv_live s" G A cfg] by (simp add: take_head_def Let_def)
next
  case (Finish n node meta input gs i exec)
  then show ?thesis using end_guest_ok [OF assms(3) Finish(3), of exec i] assms(2) by auto
qed (use assms(2) in simp_all)

lemma signalled_reach:
  assumes "server_reach G A cfg s s'" "sv_done s" "server_inv cfg s"
  shows "sv_done s' \<and> ls_fetched (sv_live s') = ls_fetched (sv_live s) \<and> server_inv cfg s'"
  using assms(1)
proof (rule server_sys.invariant [where I = "\<lambda>t. sv_done t \<and> ls_fetched (sv_live t) = ls_fetched (sv_live s) \<and> server_inv cfg t"])
  fix t t' assume "server_step G A cfg t t'"
    "sv_done t \<and> ls_fetched (sv_live t) = ls_fetched (sv_live s) \<and> server_inv cfg t"
  then show "sv_done t' \<and> ls_fetched (sv_live t') = ls_fetched (sv_live s) \<and> server_inv cfg t'"
    using signalled_step server_inv_step by metis
qed (use assms(2,3) in simp)

text \<open>From the loop the process can end, once the running guests have ended.\<close>

lemma waiting_exits:
  assumes "sv_exit s = None" "sv_done s" "ls_phase (sv_live s) = Waiting"
  shows "\<exists>s'. server_reach G A cfg s s' \<and> sv_exit s' = Some 0 \<and> sv_live s' = sv_live s"
proof (cases "sv_stopping s")
  case True
  from server_step.Exit [OF assms(1) True, of G A cfg] show ?thesis
    by (intro exI [of _ "s\<lparr>sv_exit := Some 0\<rparr>"]) (auto intro: server_reach.intros)
next
  case False
  let ?t = "s\<lparr>sv_stopping := True, sv_http := if sv_http s = Serving then Closed else sv_http s\<rparr>"
  have "server_step G A cfg s ?t" using assms False by (intro server_step.Shutdown)
  moreover have "server_step G A cfg ?t (?t\<lparr>sv_exit := Some 0\<rparr>)" using assms by (intro server_step.Exit) simp_all
  ultimately have "server_reach G A cfg s (?t\<lparr>sv_exit := Some 0\<rparr>)" by (blast intro: server_reach.intros)
  then show ?thesis by (intro exI [of _ "?t\<lparr>sv_exit := Some 0\<rparr>"]) simp
qed

lemma verifying_waits:
  assumes "server_inv cfg s" "sv_exit s = None" "ls_phase (sv_live s) = Verifying n node meta input gs"
  shows "\<exists>s'. server_reach G A cfg s s' \<and> sv_exit s' = None \<and> sv_done s' = sv_done s \<and>
    ls_phase (sv_live s') = Waiting \<and> length (ls_log (sv_live s')) = length (ls_log (sv_live s)) + length gs"
  using assms
proof (induction gs arbitrary: s)
  case Nil
  let ?t = "s\<lparr>sv_live := (sv_live s)\<lparr>ls_phase := Waiting\<rparr>\<rparr>"
  have "server_step G A cfg s ?t" using Nil.prems by (intro server_step.Wait)
  then show ?case
    using Nil.prems by (intro exI [of _ ?t]) (auto intro: server_reach.intros)
next
  case (Cons g gs)
  obtain r l where l: "end_guest exec 0 s = s\<lparr>sv_live := l\<rparr>" "ls_log l = ls_log (sv_live s) @ [r]"
    "ls_phase l = Verifying n node meta input gs"
    using end_guest_ok [OF Cons.prems(1,3), of exec 0] by auto
  have step: "server_step G A cfg s (end_guest exec 0 s)"
    using Cons.prems by (intro server_step.Finish [of s n node meta input "g # gs"]) simp_all
  then have "server_inv cfg (end_guest exec 0 s)" using Cons.prems(1) by (rule server_inv_step)
  then obtain s' where s': "server_reach G A cfg (end_guest exec 0 s) s'" "sv_exit s' = None" "sv_done s' = sv_done s"
    "ls_phase (sv_live s') = Waiting" "length (ls_log (sv_live s')) = length (ls_log (sv_live s)) + length (g # gs)"
    using Cons.IH [of "end_guest exec 0 s"] Cons.prems(2) l by auto
  have "server_reach G A cfg s (end_guest exec 0 s)" using step by (blast intro: server_reach.intros)
  with s' server_sys.trans show ?case by blast
qed

section \<open>An example\<close>

text \<open>A run with the sample node: block 5 is fetched, a signal arrives, both guests end, the process ends.\<close>

lemma server_run_live:
  assumes "live_reach G A cfg (sv_live s0) l" "sv_exit s0 = None" "\<not> sv_stopping s0" "sv_polling s0" "\<not> sv_done s0"
    and "server_inv cfg s0" "ls_phase l \<noteq> Crashed"
  shows "server_reach G A cfg s0 (s0\<lparr>sv_live := l\<rparr>)"
  using assms
proof (induction l rule: live_reach.induct)
  case (Step l l')
  have "ls_phase l \<noteq> Crashed" using Step.hyps(2) by (cases rule: live_step.cases) auto
  with Step have reach: "server_reach G A cfg s0 (s0\<lparr>sv_live := l\<rparr>)" by blast
  have "server_step G A cfg (s0\<lparr>sv_live := l\<rparr>) (s0\<lparr>sv_live := l'\<rparr>)"
    using Step.hyps(2)
  proof (cases rule: live_step.cases)
    case (Poll T)
    then show ?thesis using server_step.Poll [of "s0\<lparr>sv_live := l\<rparr>" T "poll T (ls_pool l)" G A cfg] Step.prems by simp
  next
    case (Receive E)
    have "take_head G A E cfg (s0\<lparr>sv_live := l\<rparr>) = s0\<lparr>sv_live := l'\<rparr>"
      using Receive(1) Step.prems by (simp add: take_head_def Let_def)
    then show ?thesis using server_step.Receive [of "s0\<lparr>sv_live := l\<rparr>" E G A cfg] Receive Step.prems by simp
  next
    case (Finish n node meta input gs i exec)
    then have "end_guest exec i (s0\<lparr>sv_live := l\<rparr>) = s0\<lparr>sv_live := l'\<rparr>" by (simp add: end_guest_def)
    then show ?thesis
      using server_step.Finish [of "s0\<lparr>sv_live := l\<rparr>" n node meta input gs i G A cfg exec] Finish Step.prems by simp
  next
    case (Wait n node meta input)
    then show ?thesis using server_step.Wait [of "s0\<lparr>sv_live := l\<rparr>" n node meta input G A cfg] Step.prems by simp
  qed
  with reach show ?case by (rule server_reach.Step)
qed (simp add: server_reach.Start)

lemma sample_signalled:
  "\<exists>s node meta input. server_reach sample_geth sample_api sample_config (server_init (new_pool [''n'']) m) s \<and>
     sv_exit s = None \<and> sv_done s \<and> ls_fetched (sv_live s) = [5] \<and>
     ls_phase (sv_live s) = Verifying 5 node meta input (cf_guests sample_config) \<and>
     sv_http s = Starting \<and> sv_sent s = [] \<and> ls_log (sv_live s) = [] \<and> bm_TxCount meta = 1"
proof -
  let ?s0 = "server_init (new_pool [''n'']) m"
  have s0: "sv_live ?s0 = live_init (new_pool [''n'']) m" "sv_exit ?s0 = None" "\<not> sv_stopping ?s0"
    "sv_polling ?s0" "\<not> sv_done ?s0" "server_inv sample_config ?s0" "sv_http ?s0 = Starting" "sv_sent ?s0 = []"
    using server_init_inv [of "new_pool [''n'']" sample_config m]
    by (simp_all add: new_pool_def) (simp_all add: server_init_def)
  obtain l node meta input where l: "live_reach sample_geth sample_api sample_config (sv_live ?s0) l"
    "ls_phase l = Verifying 5 node meta input (cf_guests sample_config)" "ls_fetched l = [5]"
    "ls_log l = []" "bm_TxCount meta = 1"
    using sample_run(1) s0(1) by metis
  let ?s1 = "?s0\<lparr>sv_live := l\<rparr>"
  have "server_reach sample_geth sample_api sample_config ?s0 ?s1" using server_run_live [OF l(1) s0(2-6)] l(2) by simp
  moreover have "server_step sample_geth sample_api sample_config ?s1 (?s1\<lparr>sv_done := True\<rparr>)"
    using s0(2) by (intro server_step.Signal) simp
  ultimately have "server_reach sample_geth sample_api sample_config ?s0 (?s1\<lparr>sv_done := True\<rparr>)" by (rule server_reach.Step)
  with l s0(2,7,8) show ?thesis by (intro exI [of _ "?s1\<lparr>sv_done := True\<rparr>"]) simp
qed

section \<open>Properties\<close>

text \<open>
  C14: the process runs the live mode. Whatever the HTTP server, signals and shutdown do, every state of
  the process has the live loop in a state the live mode can reach, so that what holds of those holds
  throughout; and the process ends with code 2 exactly when the encoder panicked, never because of
  the ring buffer.
\<close>

theorem server_refines_live:
  assumes "pl_Heads p = []" "server_reach G A cfg (server_init p m) s"
  shows "live_reach G A cfg (live_init p m) (sv_live s) \<and>
    (sv_exit s = Some 2 \<longleftrightarrow> ls_phase (sv_live s) = Crashed) \<and> sv_exit s \<in> {None, Some 0, Some 1, Some 2}"
  using server_reach_inv [OF assms(2)] server_init_inv [OF assms(1), of cfg m]
  by (auto simp: server_inv_def server_init_def)

theorem server_refines_live_witness:
  "\<exists>s. server_reach sample_geth sample_api sample_config (server_init (new_pool [''n'']) zero_Metrics) s \<and>
     ls_fetched (sv_live s) = [5] \<and>
     live_reach sample_geth sample_api sample_config (live_init (new_pool [''n'']) zero_Metrics) (sv_live s)"
proof -
  obtain s where "server_reach sample_geth sample_api sample_config (server_init (new_pool [''n'']) zero_Metrics) s"
    "ls_fetched (sv_live s) = [5]" using sample_signalled by blast
  moreover have "pl_Heads (new_pool [''n'']) = []" by (simp add: new_pool_def)
  ultimately show ?thesis using server_refines_live by blast
qed

text \<open>
  C6: a clean exit loses no work. The process ends with code 0 only after a signal, and then no guest is
  running and the results added are, as a multiset of block and guest, those of every fetched block
  paired with every configured guest.
\<close>

theorem clean_exit_complete:
  assumes "pl_Heads p = []" "server_reach G A cfg (server_init p m) s" "sv_exit s = Some 0"
  shows "sv_done s \<and> ls_phase (sv_live s) = Waiting \<and>
    mset (map result_key (ls_log (sv_live s))) =
      mset (concat (map (\<lambda>n. map (\<lambda>g. (n, gs_Name g)) (cf_guests cfg)) (ls_fetched (sv_live s))))"
  using server_reach_inv [OF assms(2)] server_init_inv [OF assms(1), of cfg m] assms(3)
  by (auto simp: server_inv_def live_inv_def log_ok_def guest_keys_def)

theorem clean_exit_complete_witness:
  "\<exists>s. server_reach sample_geth sample_api sample_config (server_init (new_pool [''n'']) zero_Metrics) s \<and>
     sv_exit s = Some 0 \<and> mset (map result_key (ls_log (sv_live s))) = mset [(5, ''g1''), (5, ''g2'')]"
proof -
  let ?s0 = "server_init (new_pool [''n'']) zero_Metrics"
  have p: "pl_Heads (new_pool [''n'']) = []" by (simp add: new_pool_def)
  obtain s node meta input where s: "server_reach sample_geth sample_api sample_config ?s0 s"
    "sv_exit s = None" "sv_done s" "ls_fetched (sv_live s) = [5]"
    "ls_phase (sv_live s) = Verifying 5 node meta input (cf_guests sample_config)" using sample_signalled by blast
  have inv: "server_inv sample_config s"
    using server_reach_inv [OF s(1)] server_init_inv [OF p, of sample_config zero_Metrics] by simp
  obtain t where t: "server_reach sample_geth sample_api sample_config s t" "sv_exit t = None" "sv_done t"
    "ls_phase (sv_live t) = Waiting" using verifying_waits [OF inv s(2,5)] s(3) by metis
  obtain u where u: "server_reach sample_geth sample_api sample_config t u" "sv_exit u = Some 0"
    using waiting_exits [OF t(2-4)] by metis
  have su: "server_reach sample_geth sample_api sample_config s u" using server_sys.trans [OF u(1) t(1)] .
  have reach: "server_reach sample_geth sample_api sample_config ?s0 u" using server_sys.trans [OF su s(1)] .
  have "ls_fetched (sv_live u) = [5]" using signalled_reach [OF su s(3) inv] s(4) by simp
  then show ?thesis
    using clean_exit_complete [OF p reach u(2)] reach u(2) by (intro exI [of _ u]) (simp add: sample_config_def)
qed

text \<open>
  C9: a signal stops the process. After it no further block is fetched, whatever happens; and while the
  process has not ended it can end with code 0 as soon as the running guests have ended, with one more
  result for each of them.
\<close>

theorem signal_stops_process:
  assumes "pl_Heads p = []" "server_reach G A cfg (server_init p m) s" "sv_done s" "sv_exit s = None"
  shows "(\<forall>s'. server_reach G A cfg s s' \<longrightarrow> ls_fetched (sv_live s') = ls_fetched (sv_live s)) \<and>
    (\<exists>s'. server_reach G A cfg s s' \<and> sv_exit s' = Some 0 \<and>
       length (ls_log (sv_live s')) = length (ls_log (sv_live s)) + length (pending (ls_phase (sv_live s))))"
proof -
  have inv: "server_inv cfg s" using server_reach_inv [OF assms(2)] server_init_inv [OF assms(1)] by simp
  obtain t where t: "server_reach G A cfg s t" "sv_exit t = None" "sv_done t" "ls_phase (sv_live t) = Waiting"
    "length (ls_log (sv_live t)) = length (ls_log (sv_live s)) + length (pending (ls_phase (sv_live s)))"
  proof (cases "ls_phase (sv_live s)")
    case Waiting
    then show ?thesis using that [of s] assms(3,4) by (simp add: server_reach.Start)
  next
    case (Verifying n node meta input gs)
    then show ?thesis using verifying_waits [OF inv assms(4) Verifying] assms(3) that by (auto simp: guest_keys_def)
  next
    case Crashed
    then show ?thesis using inv assms(4) by (simp add: server_inv_def)
  qed
  obtain u where "server_reach G A cfg t u" "sv_exit u = Some 0" "sv_live u = sv_live t"
    using waiting_exits [OF t(2-4)] by metis
  with t server_sys.trans have "\<exists>s'. server_reach G A cfg s s' \<and> sv_exit s' = Some 0 \<and>
      length (ls_log (sv_live s')) = length (ls_log (sv_live s)) + length (pending (ls_phase (sv_live s)))" by metis
  then show ?thesis using signalled_reach [OF _ assms(3) inv] by blast
qed

theorem signal_stops_process_witness:
  "\<exists>s s'. server_reach sample_geth sample_api sample_config (server_init (new_pool [''n'']) zero_Metrics) s \<and>
     server_reach sample_geth sample_api sample_config s s' \<and> sv_exit s = None \<and> sv_exit s' = Some 0 \<and>
     length (ls_log (sv_live s')) = length (ls_log (sv_live s)) + 2"
proof -
  obtain s node meta input where s: "server_reach sample_geth sample_api sample_config (server_init (new_pool [''n'']) zero_Metrics) s"
    "sv_exit s = None" "sv_done s" "ls_phase (sv_live s) = Verifying 5 node meta input (cf_guests sample_config)"
    using sample_signalled by blast
  have "pl_Heads (new_pool [''n'']) = []" by (simp add: new_pool_def)
  moreover have "length (pending (ls_phase (sv_live s))) = 2" by (simp add: s(4) guest_keys_def sample_config_def)
  ultimately show ?thesis using signal_stops_process [OF _ s(1,3,2)] s(1,2) by metis
qed

text \<open>
  C13: the bodies of \<open>GET /results\<close> are snapshots of the log. However requests interleave with guests, no
  request fails, and a client that reads the bodies in the order in which they were taken sees the last 1000
  results of longer and longer prefixes of the results added; a step sends at most one body, and
  that holds the last 1000 of all results added by then. A result is read back as it was added but for
  bytes of its strings (guest name, host, error and the guest's \<open>stderr\<close>) that are not valid UTF-8:
  \<open>encoding/json\<close> writes U+FFFD for each of these, which is \<open>clean_Result\<close>. The signed fields of the results are
  taken to be in the range of their Go types.
\<close>

theorem responses_are_snapshots:
  assumes "pl_Heads p = []" "server_reach G A cfg (server_init p m) s"
    and "\<forall>x \<in> set (ls_log (sv_live s)). Result_typed x"
  shows "(\<exists>ks. sorted ks \<and> (\<forall>k \<in> set ks. k \<le> length (ls_log (sv_live s))) \<and>
      map (\<lambda>body. res_bind body read_results) (sv_sent s) =
        map (\<lambda>k. Inr (map clean_Result (keep_last 1000 (take k (ls_log (sv_live s)))))) ks) \<and>
    (\<forall>s'. server_step G A cfg s s' \<longrightarrow> sv_sent s' = sv_sent s \<or>
      (\<exists>body. sv_sent s' = sv_sent s @ [body] \<and>
         res_bind body read_results = Inr (map clean_Result (keep_last 1000 (ls_log (sv_live s))))))"
proof -
  have inv: "server_inv cfg s" "sent_inv s"
    using server_reach_inv [OF assms(2)] server_init_inv [OF assms(1), of cfg m] by blast+
  obtain ks where ks: "sorted ks" "\<forall>k \<in> set ks. k \<le> length (ls_log (sv_live s))"
    "sv_sent s = map (\<lambda>k. Inr (body_after k (ls_log (sv_live s)))) ks" using inv(2) by (auto simp: sent_inv_def)
  have read: "read_results (body_after k (ls_log (sv_live s))) =
      Inr (map clean_Result (keep_last 1000 (take k (ls_log (sv_live s)))))" for k
    unfolding body_after_def using assms(3)
    by (intro read_results_body) (metis Un_iff in_set_takeD keep_last_suffix set_append)
  have "sv_sent s' = sv_sent s \<or> (\<exists>body. sv_sent s' = sv_sent s @ [body] \<and>
      res_bind body read_results = Inr (map clean_Result (keep_last 1000 (ls_log (sv_live s)))))"
    if "server_step G A cfg s s'" for s'
    using step_sends(2) [OF that inv(1)] read [of "length (ls_log (sv_live s))"] by auto
  with ks read show ?thesis by auto
qed

text \<open>A guest that writes a byte that is not UTF-8 to \<open>stderr\<close>.\<close>

definition sample_noise :: "string \<Rightarrow> bytes \<Rightarrow> ExecOutcome" where
  "sample_noise path input =
     \<lparr>ex_err = None, ex_stdout = replicate 32 0 @ [1] @ replicate 10 0, ex_stderr = [CHR 0xFF], ex_durationMs = 7\<rparr>"

lemma sample_noise_result:
  assumes "verify_guest sample_noise input node meta n g m' = (r, m)"
  shows "rs_Log r = [CHR 0xFF]" "rs_Valid r" "rs_Block r = n" "rs_Guest r = gs_Name g" "rs_DurationMs r = 7"
    "rs_TxCount r = bm_TxCount meta"
proof -
  have trim: "TrimSpace [CHR 0xFF] = [CHR 0xFF]" by code_simp
  show "rs_Log r = [CHR 0xFF]" "rs_Valid r" "rs_Block r = n" "rs_Guest r = gs_Name g" "rs_DurationMs r = 7"
    "rs_TxCount r = bm_TxCount meta"
    using assms by (auto simp: verify_guest_def Run_def sample_noise_def statelessOutputSize_def trim nth_append)
qed

theorem responses_are_snapshots_witness:
  "\<exists>s r s'. server_reach sample_geth sample_api sample_config (server_init (new_pool [''n'']) zero_Metrics) s \<and>
     ls_log (sv_live s) = [r] \<and> rs_Guest r = ''g1'' \<and> rs_Log r = [CHR 0xFF] \<and>
     server_step sample_geth sample_api sample_config s s' \<and>
     map (\<lambda>body. res_bind body read_results) (sv_sent s') = [Inr [clean_Result r]] \<and>
     rs_Log (clean_Result r) = [CHR 0xEF, CHR 0xBF, CHR 0xBD]"
proof -
  let ?s0 = "server_init (new_pool [''n'']) zero_Metrics" and ?step = "server_step sample_geth sample_api sample_config"
  have p: "pl_Heads (new_pool [''n'']) = []" by (simp add: new_pool_def)
  obtain s node meta input where s: "server_reach sample_geth sample_api sample_config ?s0 s" "sv_exit s = None"
    "ls_phase (sv_live s) = Verifying 5 node meta input (cf_guests sample_config)"
    "sv_http s = Starting" "sv_sent s = []" "ls_log (sv_live s) = []" "bm_TxCount meta = 1"
    using sample_signalled by blast
  have inv: "server_inv sample_config s"
    using server_reach_inv [OF s(1)] server_init_inv [OF p, of sample_config zero_Metrics] by simp
  obtain r m where r: "verify_guest sample_noise input node meta 5 (cf_guests sample_config ! 0) (ls_metrics (sv_live s)) = (r, m)"
    by (metis surj_pair)
  obtain l where l: "finish_guest sample_noise 0 (sv_live s) = Inr l" "end_guest sample_noise 0 s = s\<lparr>sv_live := l\<rparr>"
    using end_guest_ok [OF inv s(3), of sample_noise 0] by blast
  then have log: "ls_log l = [r]"
    using s(6) by (auto simp: finish_guest_def s(3) r res_simps)
  let ?s1 = "s\<lparr>sv_live := l\<rparr>"
  let ?s2 = "?s1\<lparr>sv_http := if sv_stopping s then Closed else Serving\<rparr>"
  let ?s3 = "?s2\<lparr>sv_sent := sv_sent ?s2 @ [results_body (ls_buf (sv_live ?s2))]\<rparr>"
  have "?step s ?s1"
    using server_step.Finish [OF s(2,3), of 0 sample_geth sample_api sample_config sample_noise] l(2) by (simp add: sample_config_def)
  moreover have "?step ?s1 ?s2" using server_step.Listen [of ?s1 sample_geth sample_api sample_config] s(2,4) by simp
  ultimately have reach: "server_reach sample_geth sample_api sample_config ?s0 ?s2"
    using s(1) by (blast intro: server_reach.Step)
  have get: "?step ?s2 ?s3" using s(2) by (intro server_step.Get) simp_all
  note fields = sample_noise_result [OF r]
  have typed: "\<forall>x \<in> set (ls_log (sv_live ?s2)). Result_typed x"
    by (simp add: log Result_typed_def int64_range_def fields s(7))
  have "\<exists>body. sv_sent ?s3 = [body] \<and> res_bind body read_results = Inr (map clean_Result (keep_last 1000 [r]))"
    using conjunct2 [OF responses_are_snapshots [OF p reach typed], rule_format, OF get] s(5) log by simp
  then have "map (\<lambda>body. res_bind body read_results) (sv_sent ?s3) = [Inr [clean_Result r]]"
    by (auto simp: keep_last_def)
  moreover have "rs_Log (clean_Result r) = [CHR 0xEF, CHR 0xBF, CHR 0xBD]"
    by (simp add: clean_Result_fields fields utf8_clean.simps utf8_len_def utf8_encode_def char_of_def bit_Suc_0_iff)
  moreover have "rs_Guest r = ''g1''" by (simp add: fields sample_config_def)
  ultimately show ?thesis
    using reach get log fields(1) by (intro exI [of _ ?s2] exI [of _ r] exI [of _ ?s3]) simp
qed

end
