(* ===== verification/Provenance.thy ===== *)
theory Provenance
  imports Server
begin

text \<open>
  Where the results of the live mode come from (\<open>main.go\<close>, \<open>pipeline/pipeline.go\<close>, \<open>runner/runner.go\<close>). The
  steps of the live mode are given as a list of events, each carrying what the nodes or the guest
  processes did in that step, so that a result can be traced to the events that led to it.
\<close>

section \<open>The live mode as a run of events\<close>

text \<open>
  \<open>Tick\<close>: the pool polls. \<open>Head\<close>: the loop receives a head and fetches, while the nodes behave as the world
  says. \<open>Ends i exec\<close>: the guest at position \<open>i\<close> of those still running ends. \<open>AllEnded\<close>: \<open>wg.Wait\<close> returns.
\<close>

datatype live_event =
    Tick transport
  | Head world
  | Ends nat "string \<Rightarrow> bytes \<Rightarrow> ExecOutcome"
  | AllEnded

fun live_act ::
  "geth \<Rightarrow> 'c node_api \<Rightarrow> config \<Rightarrow> live_event \<Rightarrow> live_state \<Rightarrow> live_state option" where
  "live_act G A cfg (Tick T) s =
     (if ls_phase s = Crashed then None else Some (s\<lparr>ls_pool := poll T (ls_pool s)\<rparr>))"
| "live_act G A cfg (Head E) s =
     (if ls_phase s = Waiting \<and> pl_Heads (ls_pool s) \<noteq> [] then Some (receive G A E cfg s) else None)"
| "live_act G A cfg (Ends i exec) s =
     (case ls_phase s of
        Verifying n node meta input gs \<Rightarrow>
          if i < length gs then (case finish_guest exec i s of Inl e \<Rightarrow> None | Inr s' \<Rightarrow> Some s') else None
      | _ \<Rightarrow> None)"
| "live_act G A cfg AllEnded s =
     (case ls_phase s of
        Verifying n node meta input gs \<Rightarrow> if gs = [] then Some (s\<lparr>ls_phase := Waiting\<rparr>) else None
      | _ \<Rightarrow> None)"

lemma live_act_step: "live_act G A cfg e s = Some s' \<Longrightarrow> live_step G A cfg s s'"
  by (cases e) (auto intro: live_step.intros split: if_splits phase.splits sum.splits)

lemma live_step_act:
  assumes "live_step G A cfg s s'"
  shows "\<exists>e. live_act G A cfg e s = Some s'"
  using assms
proof (cases rule: live_step.cases)
  case (Poll T)
  then show ?thesis by (intro exI [of _ "Tick T"]) simp
next
  case (Receive E)
  then show ?thesis by (intro exI [of _ "Head E"]) simp
next
  case (Finish n node meta input gs i exec)
  then show ?thesis by (intro exI [of _ "Ends i exec"]) simp
next
  case (Wait n node meta input)
  then show ?thesis by (intro exI [of _ AllEnded]) simp
qed

interpretation live_events: event_system "live_step G A cfg" "live_reach G A cfg" "live_act G A cfg" for G A cfg
  by unfold_locales (blast intro: live_act_step live_step_act)

section \<open>What a fetch establishes\<close>

text \<open>
  The block \<open>url\<close> served, the input made of it with the witness, requests and block access list, and the
  metadata.
\<close>

definition input_from ::
  "geth \<Rightarrow> 'c node_api \<Rightarrow> config \<Rightarrow> world \<Rightarrow> string \<Rightarrow> u64 \<Rightarrow> Block \<Rightarrow> bytes \<Rightarrow> bool" where
  "input_from G A cfg E url n block input \<longleftrightarrow>
     (\<exists>state codes headers bal requests raw.
        served_witness A E url n state codes headers \<and> requests_match A (b_Header block) requests \<and>
        marshal_all G (b_Transactions block) = Inr raw \<and>
        decode_stateless_input input =
          Some (input_of_block G block state codes headers bal requests (gc_ChainID (cf_genesis cfg))
                  (ActiveProtocolFork (cf_genesis cfg) (h_Time (b_Header block))) raw))"

lemma fetched_block:
  assumes "pool_valid p" "nodes_of p \<noteq> {}"
    and "fst (fetch_block G A E cfg p n) = \<lparr>fe_elNode = node, fe_meta = meta, fe_input = Inr input\<rparr>"
  obtains url block where "url \<in> nodes_of p" "node = hostname A url" "served_block A E url n block"
    "bm_TxCount meta = int (length (b_Transactions block))" "bm_GasUsed meta = h_GasUsed (b_Header block)"
    "length input < 2 ^ 32 \<longrightarrow> input_from G A cfg E url n block input"
proof -
  let ?url = "fst (Pick p)"
  obtain block where block: "served_block A E ?url n block"
    and rest: "fetch_rest G A E ?url n (Some (cf_genesis cfg)) (cf_engineURL cfg) (cf_jwtSecretFile cfg) block =
      (meta, Inr input)"
    and host: "node = hostname A ?url"
    using Fetch_Inr [of G A E p n "Some (cf_genesis cfg)" "cf_engineURL cfg" "cf_jwtSecretFile cfg", OF refl, of input]
      assms(3) by (auto simp: fetch_block_def)
  have meta: "bm_TxCount meta = int (length (b_Transactions block))" "bm_GasUsed meta = h_GasUsed (b_Header block)"
    using fetch_rest_meta [of G A E ?url n "Some (cf_genesis cfg)" "cf_engineURL cfg" "cf_jwtSecretFile cfg" block] rest
    by simp_all
  have url: "?url \<in> nodes_of p" using el_pool.pick_in assms(1,2) by (simp add: Pick_def)
  obtain state codes headers requests where wit:
    "served_witness A E ?url n state codes headers"
    "fetchRequests A (rpc E) ?url (hexNum n) block = Inr requests"
    "ZesuInputSSZFromBlock G block state codes headers
       (choose_bal G A E ?url (hexNum n) (cf_engineURL cfg) (cf_jwtSecretFile cfg) block) requests
       (gc_ChainID (cf_genesis cfg)) (ActiveProtocolFork (cf_genesis cfg) (h_Time (b_Header block))) = Inr input"
    using rest by (rule fetch_rest_Inr) simp
  have "input_from G A cfg E ?url n block input" if "length input < 2 ^ 32"
    using wit(1) fetchRequests_match [OF wit(2)] live_path_decodes [OF wit(3) that]
    unfolding input_from_def by blast
  then show ?thesis using that url host block meta by blast
qed

section \<open>The history of a result\<close>

definition fetched_in ::
  "geth \<Rightarrow> 'c node_api \<Rightarrow> config \<Rightarrow> string set \<Rightarrow> live_event list \<Rightarrow> u64 \<Rightarrow> string \<Rightarrow> BlockMeta \<Rightarrow> bytes \<Rightarrow> bool" where
  "fetched_in G A cfg nodes es n node meta input \<longleftrightarrow>
     (\<exists>E p. Head E \<in> set es \<and> pool_valid p \<and> nodes_of p = nodes \<and>
        fst (fetch_block G A E cfg p n) = \<lparr>fe_elNode = node, fe_meta = meta, fe_input = Inr input\<rparr>)"

definition made_in ::
  "geth \<Rightarrow> 'c node_api \<Rightarrow> config \<Rightarrow> string set \<Rightarrow> live_event list \<Rightarrow> Result \<Rightarrow> bool" where
  "made_in G A cfg nodes es r \<longleftrightarrow>
     (\<exists>n node meta input g i exec m. fetched_in G A cfg nodes es n node meta input \<and> g \<in> set (cf_guests cfg) \<and>
        Ends i exec \<in> set es \<and> r = fst (verify_guest exec input node meta n g m))"

definition history_inv ::
  "geth \<Rightarrow> 'c node_api \<Rightarrow> config \<Rightarrow> string set \<Rightarrow> live_event list \<Rightarrow> live_state \<Rightarrow> bool" where
  "history_inv G A cfg nodes es s \<longleftrightarrow>
     pool_valid (ls_pool s) \<and> nodes_of (ls_pool s) = nodes \<and>
     (\<forall>n node meta input gs. ls_phase s = Verifying n node meta input gs \<longrightarrow>
        fetched_in G A cfg nodes es n node meta input \<and> set gs \<subseteq> set (cf_guests cfg)) \<and>
     list_all (made_in G A cfg nodes es) (ls_log s)"

lemma history_mono:
  "fetched_in G A cfg nodes es n node meta input \<Longrightarrow> fetched_in G A cfg nodes (es @ fs) n node meta input"
  "made_in G A cfg nodes es r \<Longrightarrow> made_in G A cfg nodes (es @ fs) r"
  unfolding made_in_def fetched_in_def by (fastforce, metis Un_iff set_append)

lemma history_inv_mono: "history_inv G A cfg nodes es s \<Longrightarrow> history_inv G A cfg nodes (es @ fs) s"
  unfolding history_inv_def list_all_iff using history_mono by fast

lemma poll_nodes: "pl_nodes (poll T p) = pl_nodes p"
  using next_node_keeps(1) [of p] by (auto simp: poll_def Let_def split: prod.splits sum.splits)

lemma history_receive:
  assumes inv: "history_inv G A cfg nodes es s" and heads: "pl_Heads (ls_pool s) = n # hs"
    and wait: "ls_phase s = Waiting"
  shows "history_inv G A cfg nodes (es @ [Head E]) (receive G A E cfg s)"
proof -
  let ?p = "(ls_pool s)\<lparr>pl_Heads := hs\<rparr>"
  obtain node meta input p where f: "fetch_block G A E cfg ?p n = (\<lparr>fe_elNode = node, fe_meta = meta, fe_input = input\<rparr>, p)"
    by (metis fetched.cases surj_pair)
  have p: "pl_nodes p = pl_nodes (ls_pool s)"
    using Fetch_pool [of G A E ?p n "Some (cf_genesis cfg)" "cf_engineURL cfg" "cf_jwtSecretFile cfg"]
      next_node_keeps [of ?p] f by (simp add: fetch_block_def Pick_def)
  have pool: "pool_valid ?p" "nodes_of ?p = nodes" using inv by (simp_all add: history_inv_def pool_valid_def nodes_of_def)
  have "fetched_in G A cfg nodes (es @ [Head E]) n node meta out" if "input = Inr out" for out
    unfolding fetched_in_def using pool f that by (intro exI [of _ E] exI [of _ ?p]) simp
  with history_inv_mono [OF inv, of "[Head E]"] wait p show ?thesis
    by (cases input) (auto simp: receive_def heads f history_inv_def pool_valid_def nodes_of_def Let_def)
qed

lemma history_finish:
  assumes inv: "history_inv G A cfg nodes es s" and phase: "ls_phase s = Verifying n node meta input gs"
    and i: "i < length gs" and fin: "finish_guest exec i s = Inr s'"
  shows "history_inv G A cfg nodes (es @ [Ends i exec]) s'"
proof -
  obtain r m where v: "verify_guest exec input node meta n (gs ! i) (ls_metrics s) = (r, m)" by (metis surj_pair)
  obtain b where "Add r (ls_buf s) = Inr b" using fin by (auto simp: finish_guest_def phase v res_simps)
  then have s': "s' = s\<lparr>ls_buf := b, ls_metrics := m, ls_phase := Verifying n node meta input (take i gs @ drop (Suc i) gs),
      ls_log := ls_log s @ [r]\<rparr>"
    using fin by (simp add: finish_guest_def phase v)
  note inv' = history_inv_mono [OF inv, of "[Ends i exec]"]
  have gs: "set gs \<subseteq> set (cf_guests cfg)" "fetched_in G A cfg nodes (es @ [Ends i exec]) n node meta input"
    using inv' phase by (auto simp: history_inv_def)
  then have "made_in G A cfg nodes (es @ [Ends i exec]) r"
    unfolding made_in_def using i v
    by (intro exI [of _ n] exI [of _ node] exI [of _ meta] exI [of _ input] exI [of _ "gs ! i"] exI [of _ i]
        exI [of _ exec] exI [of _ "ls_metrics s"]) auto
  then show ?thesis
    using inv' gs by (auto simp: history_inv_def s' dest: in_set_takeD in_set_dropD)
qed

lemma history_inv_act:
  assumes "history_inv G A cfg nodes es s" "live_act G A cfg e s = Some s'"
  shows "history_inv G A cfg nodes (es @ [e]) s'"
proof (cases e)
  case (Tick T)
  then show ?thesis
    using assms(2) history_inv_mono [OF assms(1), of "[e]"]
    by (auto simp: history_inv_def pool_valid_def nodes_of_def poll_nodes split: if_splits)
next
  case (Head E)
  then show ?thesis
    using assms(2) history_receive [OF assms(1)] by (auto simp: neq_Nil_conv split: if_splits)
next
  case (Ends i exec)
  then show ?thesis
    using assms(2) history_finish [OF assms(1)] by (auto split: if_splits phase.splits sum.splits)
next
  case AllEnded
  then show ?thesis
    using assms(2) history_inv_mono [OF assms(1), of "[e]"]
    by (auto simp: history_inv_def split: if_splits phase.splits)
qed

lemma history_inv_run:
  assumes "run_events (live_act G A cfg) es (live_init p m) = Some s" "pool_valid p"
  shows "history_inv G A cfg (nodes_of p) es s"
  using assms(1)
proof (rule run_events_history)
  show "history_inv G A cfg (nodes_of p) [] (live_init p m)"
    using assms(2) by (simp add: history_inv_def live_init_def)
qed (rule history_inv_act)

lemma verify_guest_result:
  assumes "r = fst (verify_guest exec input node meta n g m)"
  shows "rs_Block r = n" "rs_Guest r = gs_Name g" "rs_WitnessFrom r = node" "rs_TxCount r = bm_TxCount meta"
    "rs_GasUsed r = bm_GasUsed meta" "rs_Log r = TrimSpace (ex_stderr (exec (gs_Path g) input))"
    "rs_Valid r \<longleftrightarrow> outcome_label (exec (gs_Path g) input) = ''ok''"
proof -
  obtain r0 e m' where run: "Run exec g input n m = ((r0, e), m')" by (metis surj_pair)
  then have "rs_Block r = n \<and> rs_Guest r = gs_Name g \<and> rs_WitnessFrom r = node \<and> rs_TxCount r = bm_TxCount meta \<and>
      rs_GasUsed r = bm_GasUsed meta \<and> rs_Log r = TrimSpace (ex_stderr (exec (gs_Path g) input)) \<and>
      (rs_Valid r \<longleftrightarrow> outcome_label (exec (gs_Path g) input) = ''ok'')"
    using assms Run_result [of exec g input n m r0 e] by (cases e) (simp_all add: verify_guest_def)
  then show "rs_Block r = n" "rs_Guest r = gs_Name g" "rs_WitnessFrom r = node" "rs_TxCount r = bm_TxCount meta"
    "rs_GasUsed r = bm_GasUsed meta" "rs_Log r = TrimSpace (ex_stderr (exec (gs_Path g) input))"
    "rs_Valid r \<longleftrightarrow> outcome_label (exec (gs_Path g) input) = ''ok''" by blast+
qed

lemma outcome_ok_iff:
  "outcome_label x = ''ok'' \<longleftrightarrow> ex_err x = None \<and> 43 \<le> length (ex_stdout x) \<and> ex_stdout x ! 32 = 1"
  by (auto simp: outcome_label_def)

text \<open>The guest and the node a result names are those of the configuration and of the pool.\<close>

lemma made_in_origin:
  assumes "made_in G A cfg nodes es r" "nodes \<noteq> {}"
  shows "(\<exists>g \<in> set (cf_guests cfg). rs_Guest r = gs_Name g) \<and> (\<exists>url \<in> nodes. rs_WitnessFrom r = hostname A url)"
proof -
  obtain n node meta input g i exec m where made: "fetched_in G A cfg nodes es n node meta input"
    "g \<in> set (cf_guests cfg)" "r = fst (verify_guest exec input node meta n g m)"
    using assms(1) unfolding made_in_def by blast
  then obtain E q where "pool_valid q" "nodes_of q = nodes"
    "fst (fetch_block G A E cfg q n) = \<lparr>fe_elNode = node, fe_meta = meta, fe_input = Inr input\<rparr>"
    unfolding fetched_in_def by blast
  with fetched_block assms(2) obtain url where "url \<in> nodes" "node = hostname A url" by metis
  with made(2) verify_guest_result(2,3) [OF made(3)] show ?thesis by auto
qed

section \<open>A sample run\<close>

definition sample_guest_run :: "string \<Rightarrow> bytes \<Rightarrow> ExecOutcome" where
  "sample_guest_run path input = \<lparr>ex_err = None, ex_stdout = replicate 32 0 @ [1] @ replicate 10 0, ex_stderr = [], ex_durationMs = 1\<rparr>"

definition sample_events :: "live_event list" where
  "sample_events = [Tick (sample_node 5), Head sample_world, Ends 1 sample_guest_run]"

lemma sample_events_run:
  "\<exists>s r. run_events (live_act sample_geth sample_api sample_config) sample_events
      (live_init (new_pool [''n'']) m) = Some s \<and> ls_log s = [r]"
proof -
  let ?s0 = "live_init (new_pool [''n'']) m"
  let ?s1 = "?s0\<lparr>ls_pool := \<lparr>pl_nodes = [''n''], pl_robin = 1, pl_Heads = [5], pl_seen = 5\<rparr>\<rparr>"
  let ?s2 = "receive sample_geth sample_api sample_world sample_config ?s1"
  let ?p = "\<lparr>pl_nodes = [''n''], pl_robin = 1, pl_Heads = [], pl_seen = 5\<rparr>"
  have tick: "live_act sample_geth sample_api sample_config (Tick (sample_node 5)) ?s0 = Some ?s1"
    using poll_sample [of 5] by (simp add: live_init_def)
  have head: "live_act sample_geth sample_api sample_config (Head sample_world) ?s1 = Some ?s2"
    by (simp add: live_init_def)
  obtain fe p' where fe: "Fetch sample_geth sample_api sample_world ?p 5 (Some DefaultMainnetChainConfig) [] [] = (fe, p')"
    by (metis surj_pair)
  have "fst (Pick ?p) \<noteq> []" by (simp add: Pick_def next_node_def)
  from sample_fetch(1) [OF this, of 5 "Some DefaultMainnetChainConfig"] fe
  obtain input where "fe_input fe = Inr input" by simp
  then have s2: "ls_phase ?s2 = Verifying 5 (fe_elNode fe) (fe_meta fe) input (cf_guests sample_config)" "ls_log ?s2 = []"
    using fe by (auto simp: receive_def fetch_block_def sample_config_def live_init_def)
  have "live_inv sample_config ?s0" by (rule live_inv_init) (simp add: new_pool_def)
  then have "live_inv sample_config ?s2"
    using live_inv_step [OF live_act_step [OF tick]] live_inv_step [OF live_act_step [OF head]] by blast
  then obtain r s' where "finish_guest sample_guest_run 1 ?s2 = Inr s'" "ls_log s' = [r]"
    using finish_guest_ok [OF _ s2(1)] s2(2) by fastforce
  moreover have "1 < length (cf_guests sample_config)" by (simp add: sample_config_def)
  ultimately have "live_act sample_geth sample_api sample_config (Ends 1 sample_guest_run) ?s2 = Some s'" "ls_log s' = [r]"
    using s2(1) by simp_all
  then show ?thesis
    by (intro exI [of _ s'] exI [of _ r]) (simp only: sample_events_def run_events.simps tick head Option.bind.bind_lunit simp_thms)
qed

section \<open>Properties\<close>

text \<open>
  C4: a result is what it says it is. In every run of the live mode, each result added names a configured guest
  and the host of a pool node that, in a fetch of this run, served the block with the result's
  number; its transaction count and gas are those of that block; and its verdict and log are those of
  the guest's process, as it ended in this run on the input of that fetch. Below 4 GiB that input decodes to the block,
  a witness the same node served in the same fetch and execution requests that match the header, with the chain id and
  active fork of the genesis configuration.
\<close>

theorem result_provenance:
  assumes "pool_valid p" "nodes_of p \<noteq> {}"
    and "run_events (live_act G A cfg) es (live_init p m) = Some s" "r \<in> set (ls_log s)"
  shows "\<exists>E i exec g url block input. Head E \<in> set es \<and> Ends i exec \<in> set es \<and>
    g \<in> set (cf_guests cfg) \<and> rs_Guest r = gs_Name g \<and>
    url \<in> nodes_of p \<and> rs_WitnessFrom r = hostname A url \<and> served_block A E url (rs_Block r) block \<and>
    rs_TxCount r = int (length (b_Transactions block)) \<and> rs_GasUsed r = h_GasUsed (b_Header block) \<and>
    (let x = exec (gs_Path g) input
     in rs_Log r = TrimSpace (ex_stderr x) \<and>
        (rs_Valid r \<longleftrightarrow> ex_err x = None \<and> 43 \<le> length (ex_stdout x) \<and> ex_stdout x ! 32 = 1)) \<and>
    (length input < 2 ^ 32 \<longrightarrow> input_from G A cfg E url (rs_Block r) block input)"
proof -
  have "made_in G A cfg (nodes_of p) es r"
    using history_inv_run [OF assms(3,1)] assms(4) by (simp add: history_inv_def list_all_iff)
  then obtain n node meta input g i exec m' where made: "fetched_in G A cfg (nodes_of p) es n node meta input"
    "g \<in> set (cf_guests cfg)" "Ends i exec \<in> set es" "r = fst (verify_guest exec input node meta n g m')"
    unfolding made_in_def by blast
  obtain E q where q: "Head E \<in> set es" "pool_valid q" "nodes_of q = nodes_of p"
    "fst (fetch_block G A E cfg q n) = \<lparr>fe_elNode = node, fe_meta = meta, fe_input = Inr input\<rparr>"
    using made(1) unfolding fetched_in_def by blast
  obtain url block where "url \<in> nodes_of q" "node = hostname A url" "served_block A E url n block"
    "bm_TxCount meta = int (length (b_Transactions block))" "bm_GasUsed meta = h_GasUsed (b_Header block)"
    "length input < 2 ^ 32 \<longrightarrow> input_from G A cfg E url n block input"
    using fetched_block [OF q(2) _ q(4)] q(3) assms(2) by metis
  with q made(2,3) verify_guest_result [OF made(4)] show ?thesis
    by (intro exI [of _ E] exI [of _ i] exI [of _ exec] exI [of _ g] exI [of _ url] exI [of _ block] exI [of _ input])
      (simp add: Let_def outcome_ok_iff)
qed

theorem result_provenance_witness:
  "\<exists>s r block. run_events (live_act sample_geth sample_api sample_config) sample_events
      (live_init (new_pool [''n'']) zero_Metrics) = Some s \<and> ls_log s = [r] \<and> rs_Valid r \<and>
      rs_WitnessFrom r = hostname sample_api ''n'' \<and> served_block sample_api sample_world ''n'' (rs_Block r) block"
proof -
  obtain s r where run: "run_events (live_act sample_geth sample_api sample_config) sample_events
      (live_init (new_pool [''n'']) zero_Metrics) = Some s" and r: "ls_log s = [r]"
    using sample_events_run by blast
  have pool: "pool_valid (new_pool [''n''])" "nodes_of (new_pool [''n'']) = {''n''}"
    by (simp_all add: pool_valid_def nodes_of_def new_pool_def)
  have events: "Head E \<in> set sample_events \<longleftrightarrow> E = sample_world" "Ends i exec \<in> set sample_events \<longrightarrow> exec = sample_guest_run" for E i exec
    by (simp_all add: sample_events_def)
  have valid: "ex_err (sample_guest_run q x) = None" "43 \<le> length (ex_stdout (sample_guest_run q x))" "ex_stdout (sample_guest_run q x) ! 32 = 1" for q x
    by (simp_all add: sample_guest_run_def nth_append)
  have "r \<in> set (ls_log s)" "nodes_of (new_pool [''n'']) \<noteq> {}" using r pool(2) by simp_all
  from result_provenance [OF pool(1) this(2) run this(1)] obtain block where
    "rs_Valid r" "rs_WitnessFrom r = hostname sample_api ''n''" "served_block sample_api sample_world ''n'' (rs_Block r) block"
    unfolding pool(2) Let_def using events valid by (metis singletonD)
  with run r show ?thesis by blast
qed

end
