(* ===== verification/Program.thy ===== *)
theory Program
  imports Provenance
begin

text \<open>
  The program as it is started (\<open>main.go\<close>): the configuration from the environment, the pool of nodes, and
  the mode that follows, up to the exit code or to the start of the live process. The polling
  goroutine runs beside the one-shot modes; the polls before the fetch picks its node are an argument.
\<close>

section \<open>From the environment to the exit code\<close>

text \<open>
  What the program meets: files and their JSON syntax, the nodes during start-up (\<open>W\<close>, with the order in
  which probes end) and afterwards, the ticks of the polling goroutine, guest processes, the order in
  which guests end, and the file operations.
\<close>

record surroundings =
  su_readFile :: "string \<Rightarrow> string res"
  su_syntax :: "string \<Rightarrow> json res"
  su_probes :: "nat \<Rightarrow> transport"
  su_probe_order :: "nat \<Rightarrow> string list \<Rightarrow> string list"
  su_ticks :: "transport list"
  su_world :: world
  su_exec :: "string \<Rightarrow> bytes \<Rightarrow> ExecOutcome"
  su_guest_order :: "GuestSpec list \<Rightarrow> GuestSpec list"
  su_files :: file_ops

datatype outcome =
    Exits int files
  | Serves config Pool Metrics

definition main_run ::
  "geth \<Rightarrow> 'c node_api \<Rightarrow> surroundings \<Rightarrow> (string \<Rightarrow> string) \<Rightarrow> files \<Rightarrow> outcome" where
  "main_run G A U getenv fs =
     (case main_start getenv (su_readFile U) (su_syntax U)
             (\<lambda>urls. New (su_probes U) (su_probe_order U) urls zero_Metrics) of
        Inl e \<Rightarrow> Exits 1 fs
      | Inr (cfg, p, m, md) \<Rightarrow>
          let p' = fold poll (su_ticks U) p
          in case md of
               Dump n dir \<Rightarrow>
                 (case dumpBlock G A (su_world U) (su_files U) cfg p' n dir fs of
                    Inl e \<Rightarrow> Exits 2 fs
                  | Inr (code, fs') \<Rightarrow> Exits code fs')
             | Once n \<Rightarrow>
                 (case runBlock G A (su_world U) (su_exec U) cfg (su_guest_order U (cf_guests cfg)) p' n m of
                    Inl e \<Rightarrow> Exits 2 fs
                  | Inr (code, m') \<Rightarrow> Exits code fs)
             | LiveMode \<Rightarrow> Serves cfg p m)"

section \<open>Start-up\<close>

text \<open>What a successful start has established.\<close>

lemma main_start_ok:
  assumes "main_start getenv readFile syntax (\<lambda>urls. New W order urls m0) = Inr (cfg, p, m, md)"
  shows "New W order (splitEnv getenv ''EL_RPC_URLS'') m0 = Inr (p, m)"
    and "(if getenv ''GENESIS_FILE'' = [] then cf_genesis cfg = DefaultMainnetChainConfig
          else ParseGenesisFile syntax (getenv ''GENESIS_FILE'') (readFile (getenv ''GENESIS_FILE'')) = Inr (cf_genesis cfg))"
    and "ParseGuestSpecs (getenv ''GUEST_BINARIES'') = Inr (cf_guests cfg)"
    and "md = LiveMode \<longleftrightarrow> getenv ''BLOCK_NUMBER'' = [] \<and> getenv ''DUMP_DIR'' = []"
    and "md = Once n \<Longrightarrow> getenv ''DUMP_DIR'' = [] \<and> getenv ''BLOCK_NUMBER'' \<noteq> [] \<and> ParseUint_res (getenv ''BLOCK_NUMBER'') 10 = Inr n"
    and "md = Dump n dir \<Longrightarrow> dir = getenv ''DUMP_DIR'' \<and> dir \<noteq> [] \<and> getenv ''BLOCK_NUMBER'' \<noteq> [] \<and> ParseUint_res (getenv ''BLOCK_NUMBER'') 10 = Inr n"
  using assms by (auto simp: main_start_def Let_def res_simps split: if_splits)





lemma fold_poll_nodes: "pl_nodes (fold poll Ts p) = pl_nodes p"
  by (induction Ts arbitrary: p) (simp_all add: poll_nodes)

text \<open>The nodes of the pool are configured URLs that passed their probe.\<close>

lemma New_nodes:
  assumes "New W order urls m0 = Inr (p, m)" "\<forall>i xs. mset (order i xs) = mset xs"
  shows "\<exists>k \<in> {1 .. 60}. pl_nodes p \<noteq> [] \<and> set (pl_nodes p) = {u \<in> set urls. probe (W k) u} \<and> pl_Heads p = [] \<and>
    length (pl_nodes p) \<le> length urls"
proof -
  obtain k where k: "1 \<le> k" "k \<le> probeRetryMax" "attempt W order k urls \<noteq> []" "p = new_pool (attempt W order k urls)"
    using New_loop_Inr [of W order urls m0 1 p m] assms(1) unfolding New_def by blast
  have "mset (attempt W order k urls) = mset (filter (probe (W k)) urls)" using assms(2) by (simp only: attempt_def)
  then have "set (attempt W order k urls) = {u \<in> set urls. probe (W k) u}" "length (attempt W order k urls) \<le> length urls"
    by (metis mset_eq_setD set_filter) (metis \<open>mset (attempt W order k urls) = mset (filter (probe (W k)) urls)\<close> length_filter_le mset_eq_length)
  then show ?thesis using k by (intro bexI [of _ k]) (auto simp: new_pool_def probeRetryMax_def)
qed

text \<open>So does every pool the polling goroutine has made of it.\<close>

lemma started_pool:
  assumes "New W order urls m0 = Inr (p, m)" "\<forall>i xs. mset (order i xs) = mset xs" "length urls < 2 ^ 64"
  shows "pool_valid (fold poll Ts p)" "nodes_of (fold poll Ts p) \<noteq> {}"
    "\<exists>k \<in> {1 .. 60}. nodes_of (fold poll Ts p) = {u \<in> set urls. probe (W k) u}"
  using New_nodes [OF assms(1,2)] assms(3)
  by (auto simp: pool_valid_def nodes_of_def fold_poll_nodes)

lemma main_run_dump:
  assumes "main_run G A U getenv fs = Exits 0 fs'" "getenv ''BLOCK_NUMBER'' \<noteq> []" "getenv ''DUMP_DIR'' \<noteq> []"
  obtains cfg p m n where
    "main_start getenv (su_readFile U) (su_syntax U)
       (\<lambda>urls. New (su_probes U) (su_probe_order U) urls zero_Metrics) = Inr (cfg, p, m, Dump n (getenv ''DUMP_DIR''))"
    "ParseUint_res (getenv ''BLOCK_NUMBER'') 10 = Inr n"
    "dumpBlock G A (su_world U) (su_files U) cfg (fold poll (su_ticks U) p) n (getenv ''DUMP_DIR'') fs = Inr (0, fs')"
proof (cases "main_start getenv (su_readFile U) (su_syntax U)
       (\<lambda>urls. New (su_probes U) (su_probe_order U) urls zero_Metrics)")
  case (Inr x)
  obtain cfg p m md where x: "x = (cfg, p, m, md)" by (metis prod_cases4)
  note start = Inr [unfolded x]
  have "md \<noteq> LiveMode" using main_start_ok(4) [OF start] assms(2) by simp
  moreover have "md \<noteq> Once n" for n using main_start_ok(5) [OF start, of n] assms(3) by blast
  ultimately obtain n dir where "md = Dump n dir" by (cases md) blast+
  with main_start_ok(6) [OF start this] have md: "md = Dump n (getenv ''DUMP_DIR'')"
    and n: "ParseUint_res (getenv ''BLOCK_NUMBER'') 10 = Inr n" by simp_all
  have "dumpBlock G A (su_world U) (su_files U) cfg (fold poll (su_ticks U) p) n (getenv ''DUMP_DIR'') fs = Inr (0, fs')"
    using assms(1) by (simp add: main_run_def start md split: sum.splits prod.splits)
  with that start md n show ?thesis by blast
qed (use assms(1) in \<open>simp add: main_run_def\<close>)




section \<open>A sample start\<close>

definition sample_getenv :: "string \<Rightarrow> string \<Rightarrow> string \<Rightarrow> string" where
  "sample_getenv block dir key =
     (if key = ''EL_RPC_URLS'' then ''n'' else if key = ''GUEST_BINARIES'' then ''g1:/g1,g2:/g2''
      else if key = ''BLOCK_NUMBER'' then block else if key = ''DUMP_DIR'' then dir else [])"

definition sample_surroundings :: surroundings where
  "sample_surroundings =
     \<lparr>su_readFile = (\<lambda>_. Inl (Errorf ''no file'')), su_syntax = (\<lambda>_. Inr JNull), su_probes = (\<lambda>_. sample_node 5),
      su_probe_order = (\<lambda>_ urls. urls), su_ticks = [], su_world = sample_world, su_exec = sample_guest_run,
      su_guest_order = rev, su_files = sample_files\<rparr>"

definition sample_metrics :: Metrics where
  "sample_metrics = zero_Metrics\<lparr>m_ELPoolSize := 1\<rparr>"

lemma sample_New: "New (\<lambda>_. sample_node 5) (\<lambda>_ urls. urls) [''n''] zero_Metrics = Inr (new_pool [''n''], sample_metrics)"
  by (simp add: New_def New_loop.simps [of _ _ _ _ "Suc 0"] probeRetryMax_def attempt_def sample_metrics_def)

lemma sample_start:
  "main_start (sample_getenv block dir) (su_readFile sample_surroundings) (su_syntax sample_surroundings)
     (\<lambda>urls. New (su_probes sample_surroundings) (su_probe_order sample_surroundings) urls zero_Metrics) =
   (if block \<noteq> [] then
      res_bind (res_wrap ''BLOCK_NUMBER'' (ParseUint_res block 10)) (\<lambda>n.
        Inr (sample_config, new_pool [''n''], sample_metrics, if dir \<noteq> [] then Dump n dir else Once n))
    else if dir \<noteq> [] then Inl (Errorf ''DUMP_DIR requires BLOCK_NUMBER'')
    else Inr (sample_config, new_pool [''n''], sample_metrics, LiveMode))"
proof -
  have "splitEnv (sample_getenv block dir) ''EL_RPC_URLS'' = [''n'']"
    unfolding splitEnv_def sample_getenv_def by code_simp
  moreover have "ParseGuestSpecs ''g1:/g1,g2:/g2'' = Inr (cf_guests sample_config)" by code_simp
  ultimately show ?thesis
    by (simp add: main_start_def sample_surroundings_def sample_New envOr_def Let_def)
      (simp add: sample_getenv_def sample_config_def)
qed

lemma sample_dump: "\<exists>data. main_run sample_geth sample_api sample_surroundings (sample_getenv ''5'' ''/out'') Map.empty =
    Exits 0 [''/out/5.bin'' \<mapsto> data] \<and> length data < 2 ^ 32"
proof -
  have n: "ParseUint_res ''5'' 10 = Inr 5" by code_simp
  have path: "dump_path ''/out'' 5 = ''/out/5.bin''" by code_simp
  obtain input where
    "fe_input (fst (fetch_block sample_geth sample_api sample_world sample_config (new_pool [''n'']) 5)) = Inr input"
    "bm_BALErr (fe_meta (fst (fetch_block sample_geth sample_api sample_world sample_config (new_pool [''n'']) 5))) = None"
    "length input < 1000" using sample_fetch_block by blast
  then show ?thesis
    by (intro exI [of _ "ZkvmFrame input"])
      (simp add: main_run_def sample_start n, simp add: sample_surroundings_def dumpBlock_def sample_files_def path ZkvmFrame_eq)
qed


lemma sample_serves: "main_run sample_geth sample_api sample_surroundings (sample_getenv [] []) fs =
    Serves sample_config (new_pool [''n'']) sample_metrics"
  by (simp add: main_run_def sample_start)

section \<open>Properties\<close>

text \<open>
  C10: a dump holds what the header commits to, from the environment to the file. When the program, started with
  \<open>BLOCK_NUMBER\<close> and \<open>DUMP_DIR\<close> set, exits with code 0, the only change to the files is \<open>DUMP_DIR/<n>.bin\<close>
  for the number \<open>n\<close> that was asked for. Unframing it gives an input that decodes to a block and a
  witness served by one of the URLs of \<open>EL_RPC_URLS\<close> that passed its probe, with execution requests and
  a block access list that match the header, and with the chain id and active fork of the genesis
  configuration. The law of \<open>os.WriteFile\<close> is a hypothesis, as is that every probe ends once.
\<close>

theorem main_dump_sound:
  assumes "write_file_law (su_files U)" "\<forall>i xs. mset (su_probe_order U i xs) = mset xs"
    and "length (splitEnv getenv ''EL_RPC_URLS'') < 2 ^ 64"
    and "getenv ''BLOCK_NUMBER'' \<noteq> []" "getenv ''DUMP_DIR'' \<noteq> []"
    and "main_run G A U getenv fs = Exits 0 fs'"
  shows "\<exists>n genesis data. ParseUint_res (getenv ''BLOCK_NUMBER'') 10 = Inr n \<and>
    (if getenv ''GENESIS_FILE'' = [] then genesis = DefaultMainnetChainConfig
     else ParseGenesisFile (su_syntax U) (getenv ''GENESIS_FILE'') (su_readFile U (getenv ''GENESIS_FILE'')) = Inr genesis) \<and>
    fs' = fs(dump_path (getenv ''DUMP_DIR'') n \<mapsto> data) \<and>
    (length data < 2 ^ 32 \<longrightarrow>
      (\<exists>k url block state codes headers bal requests raw.
         url \<in> set (splitEnv getenv ''EL_RPC_URLS'') \<and> k \<in> {1 .. 60} \<and> probe (su_probes U k) url \<and>
         served_block A (su_world U) url n block \<and> served_witness A (su_world U) url n state codes headers \<and>
         requests_match A (b_Header block) requests \<and> bal_match A (b_Header block) bal \<and>
         decode_stateless_input (take (le_nat (take 8 data)) (drop 8 data)) =
           Some (input_of_block G block state codes headers bal requests (gc_ChainID genesis)
                   (ActiveProtocolFork genesis (h_Time (b_Header block))) raw)))"
proof -
  obtain cfg p m n where start: "main_start getenv (su_readFile U) (su_syntax U)
      (\<lambda>urls. New (su_probes U) (su_probe_order U) urls zero_Metrics) = Inr (cfg, p, m, Dump n (getenv ''DUMP_DIR''))"
    and n: "ParseUint_res (getenv ''BLOCK_NUMBER'') 10 = Inr n"
    and dump: "dumpBlock G A (su_world U) (su_files U) cfg (fold poll (su_ticks U) p) n (getenv ''DUMP_DIR'') fs = Inr (0, fs')"
    using main_run_dump [OF assms(6,4,5)] by blast
  note pool = started_pool [OF main_start_ok(1) [OF start] assms(2,3), of "su_ticks U"]
  obtain k where k: "k \<in> {1 .. 60}"
    "nodes_of (fold poll (su_ticks U) p) = {u \<in> set (splitEnv getenv ''EL_RPC_URLS''). probe (su_probes U k) u}"
    using pool(3) by blast
  obtain data where data: "fs' = fs(dump_path (getenv ''DUMP_DIR'') n \<mapsto> data)"
    and block: "length data < 2 ^ 32 \<longrightarrow>
      (\<exists>url block state codes headers bal requests raw.
         url \<in> nodes_of (fold poll (su_ticks U) p) \<and> served_block A (su_world U) url n block \<and>
         served_witness A (su_world U) url n state codes headers \<and> requests_match A (b_Header block) requests \<and>
         bal_match A (b_Header block) bal \<and>
         decode_stateless_input (take (le_nat (take 8 data)) (drop 8 data)) =
           Some (input_of_block G block state codes headers bal requests (gc_ChainID (cf_genesis cfg))
                   (ActiveProtocolFork (cf_genesis cfg) (h_Time (b_Header block))) raw))"
    using dumpBlock_sound [OF assms(1) pool(1,2) dump] by blast
  show ?thesis
    using n data main_start_ok(2) [OF start] block k
    by (intro exI [of _ n] exI [of _ "cf_genesis cfg"] exI [of _ data]) blast
qed

theorem main_dump_sound_witness:
  "\<exists>data url block. main_run sample_geth sample_api sample_surroundings (sample_getenv ''5'' ''/out'') Map.empty =
       Exits 0 [''/out/5.bin'' \<mapsto> data] \<and> url = ''n'' \<and> served_block sample_api sample_world url 5 block"
proof -
  obtain data where run: "main_run sample_geth sample_api sample_surroundings (sample_getenv ''5'' ''/out'') Map.empty =
      Exits 0 [''/out/5.bin'' \<mapsto> data]" and small: "length data < 2 ^ 32" using sample_dump by blast
  have law: "write_file_law (su_files sample_surroundings)"
    by (simp add: write_file_law_def sample_files_def sample_surroundings_def)
  have order: "\<forall>i xs. mset (su_probe_order sample_surroundings i xs) = mset xs" by (simp add: sample_surroundings_def)
  have urls: "splitEnv (sample_getenv ''5'' ''/out'') ''EL_RPC_URLS'' = [''n'']" by code_simp
  have n: "ParseUint_res (sample_getenv ''5'' ''/out'' ''BLOCK_NUMBER'') 10 = Inr 5" by code_simp
  have dir: "sample_getenv ''5'' ''/out'' ''DUMP_DIR'' = ''/out''" "sample_getenv ''5'' ''/out'' ''BLOCK_NUMBER'' \<noteq> []"
    by (simp_all add: sample_getenv_def)
  have path: "dump_path ''/out'' 5 = ''/out/5.bin''" by code_simp
  have len: "length (splitEnv (sample_getenv ''5'' ''/out'') ''EL_RPC_URLS'') < 2 ^ 64" by (simp add: urls)
  have dirs: "sample_getenv ''5'' ''/out'' ''DUMP_DIR'' \<noteq> []" by (simp add: dir)
  obtain data' where d: "[''/out/5.bin'' \<mapsto> data] = [''/out/5.bin'' \<mapsto> data']"
    "length data' < 2 ^ 32 \<longrightarrow> (\<exists>block. served_block sample_api (su_world sample_surroundings) ''n'' 5 block)"
    using main_dump_sound [OF law order len dir(2) dirs run] unfolding n urls dir path
    by (auto simp: path)
  with small have "\<exists>block. served_block sample_api sample_world ''n'' 5 block"
    by (auto simp: sample_surroundings_def dest: map_upd_eqD1)
  with run show ?thesis by blast
qed

text \<open>
  C5: the live mode works for the nodes and guests of the environment. When the program goes into the live
  mode, neither \<open>BLOCK_NUMBER\<close> nor \<open>DUMP_DIR\<close> is set, and in every state its process can reach,
  whatever the nodes, guests, clients and signals do, every result names a guest of
  \<open>GUEST_BINARIES\<close> and the host of a URL of \<open>EL_RPC_URLS\<close> that passed its probe; fetched blocks are in increasing order; and an
  exit with code 0 leaves one result per fetched block and guest.
\<close>

theorem main_live_sound:
  assumes "\<forall>i xs. mset (su_probe_order U i xs) = mset xs" "length (splitEnv getenv ''EL_RPC_URLS'') < 2 ^ 64"
    and "main_run G A U getenv fs = Serves cfg p m" "server_reach G A cfg (server_init p m) s"
  shows "getenv ''BLOCK_NUMBER'' = [] \<and> getenv ''DUMP_DIR'' = [] \<and>
    (\<exists>guests k. ParseGuestSpecs (getenv ''GUEST_BINARIES'') = Inr guests \<and> k \<in> {1 .. 60} \<and>
       (\<forall>r \<in> set (ls_log (sv_live s)).
          (\<exists>g \<in> set guests. rs_Guest r = gs_Name g) \<and>
          (\<exists>url \<in> set (splitEnv getenv ''EL_RPC_URLS''). probe (su_probes U k) url \<and> rs_WitnessFrom r = hostname A url)) \<and>
       sorted_wrt (<) (ls_fetched (sv_live s)) \<and>
       (sv_exit s = Some 0 \<longrightarrow>
          mset (map result_key (ls_log (sv_live s))) =
            mset (concat (map (\<lambda>n. map (\<lambda>g. (n, gs_Name g)) guests) (ls_fetched (sv_live s))))))"
proof -
  have start: "main_start getenv (su_readFile U) (su_syntax U)
      (\<lambda>urls. New (su_probes U) (su_probe_order U) urls zero_Metrics) = Inr (cfg, p, m, LiveMode)"
    using assms(3) by (auto simp: main_run_def Let_def split: sum.splits prod.splits mode.splits)
  note ok = main_start_ok [OF start]
  note pool = started_pool [OF ok(1) assms(1,2), of "[]", simplified]
  have heads: "pl_Heads p = []" using New_nodes [OF ok(1) assms(1)] by blast
  have inv: "server_inv cfg s" "live_reach G A cfg (live_init p m) (sv_live s)"
    using server_reach_inv [OF assms(4)] server_init_inv [OF heads, of cfg m] by (simp_all add: server_init_def)
  obtain k where k: "k \<in> {1 .. 60}" "nodes_of p = {u \<in> set (splitEnv getenv ''EL_RPC_URLS''). probe (su_probes U k) u}"
    using pool(3) by auto
  obtain es where "run_events (live_act G A cfg) es (live_init p m) = Some (sv_live s)"
    using inv(2) live_events.reach_run by blast
  then have "list_all (made_in G A cfg (nodes_of p) es) (ls_log (sv_live s))"
    using pool(1) by (auto simp: history_inv_def dest: history_inv_run)
  then have "(\<exists>g \<in> set (cf_guests cfg). rs_Guest r = gs_Name g) \<and> (\<exists>url \<in> nodes_of p. rs_WitnessFrom r = hostname A url)"
    if "r \<in> set (ls_log (sv_live s))" for r
    using that by (intro made_in_origin [OF _ pool(2)]) (auto simp: list_all_iff)
  moreover have "sorted_wrt (<) (ls_fetched (sv_live s))" using inv(1) by (simp add: server_inv_def live_inv_def)
  moreover have "mset (map result_key (ls_log (sv_live s))) =
      mset (concat (map (\<lambda>n. map (\<lambda>g. (n, gs_Name g)) (cf_guests cfg)) (ls_fetched (sv_live s))))" if "sv_exit s = Some 0"
    using inv(1) that by (auto simp: server_inv_def live_inv_def log_ok_def guest_keys_def)
  ultimately show ?thesis using ok(3,4) k by (intro conjI exI [of _ "cf_guests cfg"] exI [of _ k]) blast+
qed

theorem main_live_sound_witness:
  "\<exists>s. main_run sample_geth sample_api sample_surroundings (sample_getenv [] []) Map.empty =
       Serves sample_config (new_pool [''n'']) sample_metrics \<and>
     server_reach sample_geth sample_api sample_config (server_init (new_pool [''n'']) sample_metrics) s \<and>
     ls_fetched (sv_live s) = [5] \<and> sorted_wrt (<) (ls_fetched (sv_live s))"
proof -
  obtain s where s: "server_reach sample_geth sample_api sample_config (server_init (new_pool [''n'']) sample_metrics) s"
    "ls_fetched (sv_live s) = [5]" using sample_signalled by blast
  have order: "\<forall>i xs. mset (su_probe_order sample_surroundings i xs) = mset xs" by (simp add: sample_surroundings_def)
  have urls: "splitEnv (sample_getenv [] []) ''EL_RPC_URLS'' = [''n'']" by code_simp
  have "length (splitEnv (sample_getenv [] []) ''EL_RPC_URLS'') < 2 ^ 64" by (simp add: urls)
  from main_live_sound [OF order this sample_serves s(1)] s show ?thesis using sample_serves by blast
qed



end
