(* ===== verification/Binary_Encode.thy ===== *)
theory Binary_Encode
  imports Ssz_Paths
begin

text \<open>
  \<open>fixture/encode_binary.go\<close>: the length-prefixed input format of zesu-zkvm's
  \<open>deserialize.zig\<close>, with a reference decoder for it, and the proof that the padding loop of this
  encoder frames its content as \<open>ZkvmFrame\<close> does.
\<close>

section \<open>The encoder\<close>

definition writeBE64 :: "u64 \<Rightarrow> bytes" where
  "writeBE64 v = be_bytes 8 (unat v)"

definition writeBinaryArray :: "bytes list \<Rightarrow> bytes" where
  "writeBinaryArray its =
     writeBE64 (of_nat (length its)) @
     concat (map (\<lambda>it. writeBE64 (of_nat (length it)) @ it) its)"

definition buildBlockRLP :: "geth \<Rightarrow> FixtureFile \<Rightarrow> Transaction list \<Rightarrow> Withdrawal list \<Rightarrow> bytes res" where
  "buildBlockRLP G f txs withdrawals =
     res_bind (fixtureHeader G f) (\<lambda>header. rlp_EncodeBlock G header txs [] withdrawals)"

text \<open>\<open>for len(payload)%8 != 0 { payload = append(payload, 0) }\<close>\<close>

function pad8 :: "bytes \<Rightarrow> bytes" where
  "pad8 payload = (if length payload mod 8 \<noteq> 0 then pad8 (payload @ [0]) else payload)"
  by auto

termination
proof (relation "measure (\<lambda>p. (8 - length p mod 8) mod 8)")
  fix payload :: bytes
  assume "length payload mod 8 \<noteq> 0"
  moreover have "length payload mod 8 < 8" by simp
  moreover have "Suc (length payload) mod 8 =
      (if Suc (length payload mod 8) = 8 then 0 else Suc (length payload mod 8))"
    by (simp add: mod_Suc)
  ultimately show "(payload @ [0], payload) \<in> measure (\<lambda>p. (8 - length p mod 8) mod 8)"
    by (auto simp: mod_less split: if_splits)
qed simp

declare pad8.simps [simp del]

definition binary_content :: "bytes \<Rightarrow> bytes list \<Rightarrow> bytes list \<Rightarrow> bytes list \<Rightarrow> bytes list \<Rightarrow> bytes" where
  "binary_content blockRLP state codes keys headers =
     replicate 32 0 @ writeBE64 (of_nat (length blockRLP)) @ blockRLP @
     writeBinaryArray state @ writeBinaryArray codes @ writeBinaryArray keys @ writeBinaryArray headers"

definition ZesuInputBinary :: "geth \<Rightarrow> FixtureFile \<Rightarrow> bytes res" where
  "ZesuInputBinary G f =
     (let blk = si_Block (ff_StatelessInput f); wit = si_Witness (ff_StatelessInput f)
      in res_bind (buildTransactions G (fb_Transactions (bk_Body blk))) (\<lambda>txs.
         res_bind (buildWithdrawals G (fb_Withdrawals (bk_Body blk))) (\<lambda>withdrawals.
         res_bind (res_wrap ''block RLP'' (buildBlockRLP G f txs withdrawals)) (\<lambda>blockRLP.
         res_bind (decodeHexArray (wt_State wit)) (\<lambda>state.
         res_bind (decodeHexArray (wt_Codes wit)) (\<lambda>codes.
         res_bind (decodeHexArray (wt_Keys wit)) (\<lambda>keys.
         res_bind (decodeHexArray (wt_Headers wit)) (\<lambda>headers.
           let content = binary_content blockRLP state codes keys headers;
               contentLen = length content;
               payload = pad8 content
           in Inr (le_bytes 8 contentLen @ payload)))))))))"

section \<open>A reference decoder\<close>

definition read_u64 :: "bytes \<Rightarrow> (nat \<times> bytes) option" where
  "read_u64 bs = (if length bs < 8 then None else Some (be_nat (take 8 bs), drop 8 bs))"

definition read_bytes :: "bytes \<Rightarrow> (bytes \<times> bytes) option" where
  "read_bytes bs =
     (case read_u64 bs of
        None \<Rightarrow> None
      | Some (n, rest) \<Rightarrow> if length rest < n then None else Some (take n rest, drop n rest))"

fun read_n :: "nat \<Rightarrow> bytes \<Rightarrow> (bytes list \<times> bytes) option" where
  "read_n 0 bs = Some ([], bs)"
| "read_n (Suc n) bs =
     (case read_bytes bs of
        None \<Rightarrow> None
      | Some (x, rest) \<Rightarrow>
          (case read_n n rest of None \<Rightarrow> None | Some (xs, rest') \<Rightarrow> Some (x # xs, rest')))"

definition read_array :: "bytes \<Rightarrow> (bytes list \<times> bytes) option" where
  "read_array bs = (case read_u64 bs of None \<Rightarrow> None | Some (n, rest) \<Rightarrow> read_n n rest)"

record binary_input =
  bi_block :: bytes
  bi_state :: "bytes list"
  bi_codes :: "bytes list"
  bi_keys :: "bytes list"
  bi_headers :: "bytes list"

definition decode_binary :: "bytes \<Rightarrow> binary_input option" where
  "decode_binary bs =
     (case read_bytes (drop 32 bs) of None \<Rightarrow> None | Some (b, r0) \<Rightarrow>
     (case read_array r0 of None \<Rightarrow> None | Some (s, r1) \<Rightarrow>
     (case read_array r1 of None \<Rightarrow> None | Some (c, r2) \<Rightarrow>
     (case read_array r2 of None \<Rightarrow> None | Some (k, r3) \<Rightarrow>
     (case read_array r3 of None \<Rightarrow> None | Some (h, r4) \<Rightarrow>
        if r4 = [] then Some \<lparr>bi_block = b, bi_state = s, bi_codes = c, bi_keys = k, bi_headers = h\<rparr>
        else None)))))"

section \<open>Lemmas\<close>

lemma pad8_eq: "pad8 p = p @ replicate ((8 - length p mod 8) mod 8) 0"
proof (induction p rule: pad8.induct)
  case (1 p)
  show ?case
  proof (cases "length p mod 8 = 0")
    case True
    then show ?thesis by (simp add: pad8.simps)
  next
    case False
    have lt: "length p mod 8 < 8" by simp
    have "(8 - Suc (length p) mod 8) mod 8 = 7 - length p mod 8"
      using False lt by (auto simp: mod_Suc)
    moreover have "(8 - length p mod 8) mod 8 = Suc (7 - length p mod 8)"
      using False lt by simp
    ultimately show ?thesis
      using 1 False by (simp add: pad8.simps [of p])
  qed
qed

lemma read_u64_write: "n < 2 ^ 64 \<Longrightarrow> read_u64 (writeBE64 (of_nat n) @ rest) = Some (n, rest)"
  by (simp add: read_u64_def writeBE64_def be_nat_be_bytes unat_of_nat)

lemma read_bytes_write:
  "length x < 2 ^ 64 \<Longrightarrow> read_bytes (writeBE64 (of_nat (length x)) @ x @ rest) = Some (x, rest)"
  by (simp add: read_bytes_def read_u64_write)

lemma read_n_write:
  "list_all (\<lambda>x. length x < 2 ^ 64) xs \<Longrightarrow>
     read_n (length xs) (concat (map (\<lambda>it. writeBE64 (of_nat (length it)) @ it) xs) @ rest) =
       Some (xs, rest)"
  by (induction xs) (simp_all add: read_bytes_write)

lemma read_array_write:
  "length xs < 2 ^ 64 \<Longrightarrow> list_all (\<lambda>x. length x < 2 ^ 64) xs \<Longrightarrow>
     read_array (writeBinaryArray xs @ rest) = Some (xs, rest)"
  by (simp add: read_array_def writeBinaryArray_def read_u64_write read_n_write)

definition array_small :: "bytes list \<Rightarrow> bool" where
  "array_small xs \<longleftrightarrow> length xs < 2 ^ 64 \<and> list_all (\<lambda>x. length x < 2 ^ 64) xs"

lemma array_small_content:
  assumes "length (binary_content b s c k h) < 2 ^ 64"
  shows "length b < 2 ^ 64" "array_small s" "array_small c" "array_small k" "array_small h"
proof -
  have small: "array_small xs" if "length (writeBinaryArray xs) < 2 ^ 64" for xs
  proof -
    have "length xs \<le> length (concat (map (\<lambda>it. writeBE64 (of_nat (length it)) @ it) xs))"
      by (induction xs) (simp_all add: writeBE64_def)
    moreover have "length x \<le> length (concat (map (\<lambda>it. writeBE64 (of_nat (length it)) @ it) xs))"
      if "x \<in> set xs" for x
      using that by (induction xs) auto
    ultimately show ?thesis
      using that by (force simp: array_small_def writeBinaryArray_def list_all_iff simp del: length_concat)
  qed
  show "length b < 2 ^ 64" "array_small s" "array_small c" "array_small k" "array_small h"
    using assms by (auto simp: binary_content_def intro!: small)
qed

lemma decode_binary_content:
  assumes "length (binary_content b s c k h) < 2 ^ 64"
  shows "decode_binary (binary_content b s c k h) =
    Some \<lparr>bi_block = b, bi_state = s, bi_codes = c, bi_keys = k, bi_headers = h\<rparr>"
  using array_small_content [OF assms] read_array_write [of h "[]"]
  by (simp add: decode_binary_def binary_content_def read_bytes_write read_array_write array_small_def)

section \<open>Properties\<close>

text \<open>
  C40: the binary format is lossless and framed like the SSZ input. When \<open>ZesuInputBinary\<close> returns
  bytes, they are the \<open>ZkvmFrame\<close> of a content that, if shorter than 2^64 bytes, decodes to the
  RLP block built from the fixture and the four witness arrays.
\<close>

theorem binary_input_roundtrip:
  assumes "ZesuInputBinary G f = Inr out"
  shows "\<exists>content txs wds block state codes keys headers.
     out = ZkvmFrame content \<and>
     buildTransactions G (fb_Transactions (bk_Body (si_Block (ff_StatelessInput f)))) = Inr txs \<and>
     buildWithdrawals G (fb_Withdrawals (bk_Body (si_Block (ff_StatelessInput f)))) = Inr wds \<and>
     buildBlockRLP G f txs wds = Inr block \<and>
     decodeHexArray (wt_State (si_Witness (ff_StatelessInput f))) = Inr state \<and>
     decodeHexArray (wt_Codes (si_Witness (ff_StatelessInput f))) = Inr codes \<and>
     decodeHexArray (wt_Keys (si_Witness (ff_StatelessInput f))) = Inr keys \<and>
     decodeHexArray (wt_Headers (si_Witness (ff_StatelessInput f))) = Inr headers \<and>
     (length content < 2 ^ 64 \<longrightarrow>
        decode_binary content =
          Some \<lparr>bi_block = block, bi_state = state, bi_codes = codes, bi_keys = keys, bi_headers = headers\<rparr>)"
proof -
  from assms obtain txs wds block state codes keys headers where parts:
    "buildTransactions G (fb_Transactions (bk_Body (si_Block (ff_StatelessInput f)))) = Inr txs"
    "buildWithdrawals G (fb_Withdrawals (bk_Body (si_Block (ff_StatelessInput f)))) = Inr wds"
    "buildBlockRLP G f txs wds = Inr block"
    "decodeHexArray (wt_State (si_Witness (ff_StatelessInput f))) = Inr state"
    "decodeHexArray (wt_Codes (si_Witness (ff_StatelessInput f))) = Inr codes"
    "decodeHexArray (wt_Keys (si_Witness (ff_StatelessInput f))) = Inr keys"
    "decodeHexArray (wt_Headers (si_Witness (ff_StatelessInput f))) = Inr headers"
    and out: "out = le_bytes 8 (length (binary_content block state codes keys headers)) @
      pad8 (binary_content block state codes keys headers)"
    by (auto simp: ZesuInputBinary_def Let_def res_simps)
  from out have "out = ZkvmFrame (binary_content block state codes keys headers)"
    by (simp add: ZkvmFrame_eq pad8_eq)
  with parts decode_binary_content show ?thesis by blast
qed

theorem binary_input_roundtrip_witness:
  "\<exists>out content. ZesuInputBinary sample_geth sample_fixture = Inr out \<and> out = ZkvmFrame content"
proof -
  obtain hdr where hdr: "fixtureHeader sample_geth sample_fixture = Inr hdr"
    using sample_fixture_header by blast
  obtain t where txs: "buildTransactions sample_geth
      (fb_Transactions (bk_Body (si_Block (ff_StatelessInput sample_fixture)))) = Inr [NewLegacyTx t]"
    using sample_fixture_txs by blast
  have keys: "decodeHexArray (wt_Keys (si_Witness (ff_StatelessInput sample_fixture))) = Inr []"
    by code_simp
  have "\<exists>out. ZesuInputBinary sample_geth sample_fixture = Inr out"
    by (simp add: ZesuInputBinary_def Let_def txs sample_fixture_rest keys buildBlockRLP_def hdr)
      (simp add: sample_geth_def)
  then obtain out where "ZesuInputBinary sample_geth sample_fixture = Inr out" by blast
  from binary_input_roundtrip [OF this] this show ?thesis by blast
qed

end
