(* ===== verification/Format_Sniff.thy ===== *)
theory Format_Sniff
  imports Go_Strings
begin

text \<open>
  \<open>fixture/format.go\<close>: telling the two fixture schemas apart from the head of a file. Opening and
  reading the file is an input: either the error of \<open>os.Open\<close>, or the file's content with the error
  of \<open>io.ReadFull\<close>, if that is another one than reaching the end.
\<close>

datatype Format = FormatUnknown | FormatCorpus | FormatZkevm

fun Format_String :: "Format \<Rightarrow> string" where
  "Format_String FormatCorpus = ''corpus''"
| "Format_String FormatZkevm = ''zkevm''"
| "Format_String FormatUnknown = ''unknown''"

definition sniffLimit :: nat where
  "sniffLimit = 8192"

definition quoted :: "string \<Rightarrow> string" where
  "quoted s = [CHR 0x22] @ s @ [CHR 0x22]"

definition formatMarkers :: "(string \<times> Format) list" where
  "formatMarkers =
     [(quoted ''stateless_input'', FormatCorpus),
      (quoted ''genesisBlockHeader'', FormatZkevm),
      (quoted ''engineNewPayloads'', FormatZkevm),
      (quoted ''statelessInputBytes'', FormatZkevm),
      (quoted ''blocks'', FormatZkevm)]"

fun match_markers :: "(string \<times> Format) list \<Rightarrow> string \<Rightarrow> Format" where
  "match_markers [] head = FormatUnknown"
| "match_markers ((marker, format) # ms) head =
     (if str_Contains head marker then format else match_markers ms head)"

definition SniffFormat :: "string \<Rightarrow> (string \<times> go_error option) res \<Rightarrow> Format \<times> go_error option" where
  "SniffFormat path file =
     (case file of
        Inl e \<Rightarrow> (FormatUnknown, Some e)
      | Inr (content, Some e) \<Rightarrow> (FormatUnknown, Some (wrap_error (''read '' @ path) e))
      | Inr (content, None) \<Rightarrow>
          let head = take sniffLimit content
          in (match_markers formatMarkers head, None))"

section \<open>Properties\<close>

text \<open>
  Sniffing looks at the first 8 KiB only and decides by the markers alone: a readable file is a
  corpus fixture when its head has the corpus marker, else a zkevm fixture when its head has one of
  the four zkevm markers, and else of unknown format without an error; errors are those of opening
  and reading.
\<close>

lemma SniffFormat_spec:
  "SniffFormat path (Inr (content, None)) =
     (let has = (\<lambda>k. str_Contains (take 8192 content) (quoted k))
      in (if has ''stateless_input'' then FormatCorpus
          else if has ''genesisBlockHeader'' \<or> has ''engineNewPayloads'' \<or> has ''statelessInputBytes'' \<or>
                  has ''blocks'' then FormatZkevm
          else FormatUnknown, None)) \<and>
   fst (SniffFormat path (Inl e)) = FormatUnknown \<and> snd (SniffFormat path (Inl e)) = Some e \<and>
   fst (SniffFormat path (Inr (content, Some e))) = FormatUnknown \<and>
   snd (SniffFormat path (Inr (content, Some e))) \<noteq> None"
  by (simp add: SniffFormat_def formatMarkers_def sniffLimit_def Let_def)

end
