(* ===== verification/Discover.thy ===== *)
theory Discover
  imports Format_Sniff Go_Path
begin

text \<open>
  \<open>bench/discover.go\<close>: finding the fixture files of a tree. The tree as \<open>os.ReadDir\<close> lists it, opening
  a file and \<open>os.Stat\<close> are the environment. A node that is not a directory (a file, or a link to
  anything) is a \<open>Leaf\<close>, as \<open>DirEntry.IsDir\<close> has it.
\<close>

section \<open>Relative paths\<close>

text \<open>\<open>filepath.Rel\<close> by path elements: the root directory is the one empty element.\<close>

definition path_elems :: "string \<Rightarrow> string list" where
  "path_elems p =
     (let es = str_Split CHR ''/'' p in if last es = [] then butlast es else es)"

fun strip_common :: "string list \<Rightarrow> string list \<Rightarrow> string list \<times> string list" where
  "strip_common (b # bs) (t # ts) = (if b = t then strip_common bs ts else (b # bs, t # ts))"
| "strip_common bs ts = (bs, ts)"

definition path_Rel :: "string \<Rightarrow> string \<Rightarrow> string res" where
  "path_Rel basepath targpath =
     (let base = path_Clean basepath; targ = path_Clean targpath;
          err = Inl (Errorf (''Rel: can't make '' @ targpath @ '' relative to '' @ basepath))
      in if targ = base then Inr ''.''
         else let base = (if base = ''.'' then [] else base)
         in if HasPrefix base ''/'' \<noteq> HasPrefix targ ''/'' then err
         else (case strip_common (path_elems base) (path_elems targ) of
                 (bs, ts) \<Rightarrow>
                   if bs \<noteq> [] \<and> ts \<noteq> [] \<and> hd bs = ''..'' then err
                   else Inr (str_Join ''/'' (replicate (length bs) ''..'' @ ts))))"

lemma path_Rel_examples:
  "path_Rel ''/a/b'' ''/a/b/c/d'' = Inr ''c/d''" "path_Rel ''a'' ''./a/'' = Inr ''.''"
  "path_Rel ''.'' ''x/y'' = Inr ''x/y''" "path_Rel ''/'' ''/a'' = Inr ''a''"
  "path_Rel ''/a/b'' ''/a/c'' = Inr ''../c''" "path_Rel ''/a'' ''/'' = Inr ''..''"
  "path_Rel ''../x'' ''..'' = Inr ''..''"
  by code_simp+

section \<open>Data\<close>

record fileJob =
  fj_Path :: string
  fj_Kind :: Format
  fj_Suite :: string
  fj_Bytes :: int

record skippedFile =
  sf_Path :: string
  sf_Reason :: string

datatype fs_node = Leaf | Dir "(string \<times> fs_node) list res"

text \<open>
  \<open>fs_stat\<close>: whether the path, links followed, is a directory, and its size. \<open>fs_lstat\<close>: the tree at
  the root. \<open>fs_open\<close>: what sniffing reads of a file.
\<close>

record file_system =
  fs_stat :: "string \<Rightarrow> (bool \<times> int) res"
  fs_lstat :: "string \<Rightarrow> fs_node res"
  fs_open :: "string \<Rightarrow> (string \<times> go_error option) res"

section \<open>Discovery\<close>

definition suiteOf :: "string \<Rightarrow> string \<Rightarrow> string" where
  "suiteOf root path =
     (case path_Rel root (path_Dir path) of Inl _ \<Rightarrow> ''.'' | Inr rel \<Rightarrow> rel)"

type_synonym found = "fileJob list \<times> skippedFile list"

definition add_skip :: "string \<Rightarrow> string \<Rightarrow> found \<Rightarrow> found" where
  "add_skip path reason st = (fst st, snd st @ [\<lparr>sf_Path = path, sf_Reason = reason\<rparr>])"

text \<open>The callback of the walk on a node that is not a directory.\<close>

definition visit_file :: "file_system \<Rightarrow> string \<Rightarrow> string \<Rightarrow> string \<Rightarrow> found \<Rightarrow> found" where
  "visit_file fs root path name st =
     (if \<not> HasSuffix name ''.json'' then st
      else (case SniffFormat path (fs_open fs path) of
              (kind, Some e) \<Rightarrow> add_skip path (error_text e) st
            | (kind, None) \<Rightarrow>
                if kind = FormatUnknown then add_skip path ''unrecognised fixture format'' st
                else (fst st @ [\<lparr>fj_Path = path, fj_Kind = kind, fj_Suite = suiteOf root path,
                                 fj_Bytes = (case fs_stat fs path of Inl _ \<Rightarrow> 0 | Inr (_, sz) \<Rightarrow> sz)\<rparr>],
                      snd st)))"

text \<open>
  \<open>filepath.WalkDir\<close> with the callback inlined: a directory is pruned by its name, skipped when it
  cannot be read, and walked in the order of its entries otherwise.
\<close>

fun walk :: "file_system \<Rightarrow> string \<Rightarrow> string \<Rightarrow> string \<Rightarrow> fs_node \<Rightarrow> found \<Rightarrow> found"
  and walk_entries :: "file_system \<Rightarrow> string \<Rightarrow> string \<Rightarrow> (string \<times> fs_node) list \<Rightarrow> found \<Rightarrow> found" where
  "walk fs root path name Leaf st = visit_file fs root path name st"
| "walk fs root path name (Dir (Inl e)) st =
     (if path \<noteq> root \<and> HasPrefix name ''.'' then st else add_skip path (error_text e) st)"
| "walk fs root path name (Dir (Inr es)) st =
     (if path \<noteq> root \<and> HasPrefix name ''.'' then st else walk_entries fs root path es st)"
| "walk_entries fs root path [] st = st"
| "walk_entries fs root path ((n, d) # es) st =
     walk_entries fs root path es (walk fs root (path_Join [path, n]) n d st)"

text \<open>Jobs, skipped files and the error. Sorting by path: the paths of a tree differ.\<close>

definition discover :: "file_system \<Rightarrow> string \<Rightarrow> found \<times> go_error option" where
  "discover fs root =
     (case fs_stat fs root of
        Inl e \<Rightarrow> (([], []), Some e)
      | Inr (False, sz) \<Rightarrow>
          (case SniffFormat root (fs_open fs root) of
             (kind, Some e) \<Rightarrow> (([], []), Some e)
           | (kind, None) \<Rightarrow>
               if kind = FormatUnknown
               then (add_skip root ''unrecognised fixture format'' ([], []), None)
               else (([\<lparr>fj_Path = root, fj_Kind = kind, fj_Suite = ''.'', fj_Bytes = sz\<rparr>], []), None))
      | Inr (True, _) \<Rightarrow>
          let (jobs, skipped) =
                (case fs_lstat fs root of
                   Inl e \<Rightarrow> add_skip root (error_text e) ([], [])
                 | Inr d \<Rightarrow> walk fs root root (path_Base root) d ([], []))
          in ((sort_key fj_Path jobs, skipped), None))"

definition hasKind :: "fileJob list \<Rightarrow> Format \<Rightarrow> bool" where
  "hasKind jobs k \<longleftrightarrow> list_ex (\<lambda>j. fj_Kind j = k) jobs"

section \<open>The files of a tree\<close>

text \<open>The paths of the JSON files that no hidden directory hides, in the order of the walk.\<close>

fun files_of :: "string \<Rightarrow> string \<Rightarrow> string \<Rightarrow> fs_node \<Rightarrow> string list"
  and files_of_entries :: "string \<Rightarrow> string \<Rightarrow> (string \<times> fs_node) list \<Rightarrow> string list" where
  "files_of root path name Leaf = (if HasSuffix name ''.json'' then [path] else [])"
| "files_of root path name (Dir (Inl e)) = []"
| "files_of root path name (Dir (Inr es)) =
     (if path \<noteq> root \<and> HasPrefix name ''.'' then [] else files_of_entries root path es)"
| "files_of_entries root path [] = []"
| "files_of_entries root path ((n, d) # es) =
     files_of root (path_Join [path, n]) n d @ files_of_entries root path es"

definition tree_files :: "string \<Rightarrow> fs_node \<Rightarrow> string list" where
  "tree_files root d = files_of root root (path_Base root) d"

definition runnable :: "file_system \<Rightarrow> string \<Rightarrow> bool" where
  "runnable fs p \<longleftrightarrow>
     (case SniffFormat p (fs_open fs p) of (kind, e) \<Rightarrow> e = None \<and> kind \<noteq> FormatUnknown)"

definition job_for :: "file_system \<Rightarrow> string \<Rightarrow> string \<Rightarrow> fileJob" where
  "job_for fs root p =
     \<lparr>fj_Path = p, fj_Kind = fst (SniffFormat p (fs_open fs p)), fj_Suite = suiteOf root p,
      fj_Bytes = (case fs_stat fs p of Inl _ \<Rightarrow> 0 | Inr (_, sz) \<Rightarrow> sz)\<rparr>"

lemma visit_file_eq:
  "visit_file fs root path name st =
     (if \<not> HasSuffix name ''.json'' then st
      else if runnable fs path then (fst st @ [job_for fs root path], snd st)
      else add_skip path (case SniffFormat path (fs_open fs path) of
             (_, Some e) \<Rightarrow> error_text e | _ \<Rightarrow> ''unrecognised fixture format'') st)"
  by (auto simp: visit_file_def runnable_def job_for_def split: prod.splits option.splits)

lemma walk_skips_mono:
  "set (snd st) \<subseteq> set (snd (walk fs root path name d st))"
  "set (snd st) \<subseteq> set (snd (walk_entries fs root path es st))"
proof (induction fs root path name d st and fs root path es st rule: walk_walk_entries.induct)
  case (5 fs root path n d es st)
  then show ?case by (auto simp del: walk.simps)
qed (auto simp: visit_file_eq add_skip_def)

lemma walk_jobs:
  "fst (walk fs root path name d st) =
     fst st @ map (job_for fs root) (filter (runnable fs) (files_of root path name d))"
  "fst (walk_entries fs root path es st) =
     fst st @ map (job_for fs root) (filter (runnable fs) (files_of_entries root path es))"
  by (induction fs root path name d st and fs root path es st rule: walk_walk_entries.induct)
    (simp_all add: visit_file_eq add_skip_def)

lemma walk_skips:
  "p \<in> set (files_of root path name d) \<Longrightarrow> \<not> runnable fs p \<Longrightarrow>
     p \<in> sf_Path ` set (snd (walk fs root path name d st))"
  "p \<in> set (files_of_entries root path es) \<Longrightarrow> \<not> runnable fs p \<Longrightarrow>
     p \<in> sf_Path ` set (snd (walk_entries fs root path es st))"
proof (induction fs root path name d st and fs root path es st rule: walk_walk_entries.induct)
  case (5 fs root path n d es st)
  have "set (snd (walk fs root (path_Join [path, n]) n d st)) \<subseteq>
    set (snd (walk_entries fs root path ((n, d) # es) st))"
    using walk_skips_mono(2) [of "walk fs root (path_Join [path, n]) n d st" fs root path es] by simp
  with 5 show ?case by (auto simp del: walk.simps files_of.simps)
qed (auto simp: visit_file_eq add_skip_def split: if_splits)

lemma walk_jobs_known:
  "j \<in> set (fst (walk fs root path name d ([], []))) \<Longrightarrow> fj_Kind j \<noteq> FormatUnknown"
  by (auto simp: walk_jobs(1) job_for_def runnable_def case_prod_unfold)

lemma discover_kinds:
  assumes "discover fs root = ((jobs, skipped), None)" "j \<in> set jobs"
  shows "fj_Kind j \<noteq> FormatUnknown"
proof (cases "fs_stat fs root")
  case (Inl e)
  with assms show ?thesis by (simp add: discover_def)
next
  case (Inr st)
  obtain isDir sz where st: "st = (isDir, sz)" by (rule prod.exhaust)
  show ?thesis
  proof (cases isDir)
    case True
    with Inr st assms show ?thesis
      by (auto simp: discover_def add_skip_def Let_def case_prod_unfold walk_jobs_known split: sum.splits)
  next
    case False
    with Inr st assms show ?thesis
      by (auto simp: discover_def add_skip_def split: prod.splits option.splits if_splits)
  qed
qed

section \<open>Properties\<close>

text \<open>
  C37: discovery of a directory finds every runnable fixture and loses no file silently. It always
  succeeds; the jobs are, in the order of their paths, exactly one for every JSON file outside hidden
  directories whose format is recognised, with that format and the file's suite and size; every other
  such JSON file is reported as skipped.
\<close>

theorem discover_complete:
  assumes "fs_stat fs root = Inr (True, sz)" "fs_lstat fs root = Inr d"
  shows "\<exists>jobs skipped. discover fs root = ((jobs, skipped), None) \<and>
    sorted (map fj_Path jobs) \<and>
    mset jobs = mset (map (job_for fs root) (filter (runnable fs) (tree_files root d))) \<and>
    (\<forall>p \<in> set (tree_files root d). \<not> runnable fs p \<longrightarrow> p \<in> sf_Path ` set skipped)"
proof -
  let ?w = "walk fs root root (path_Base root) d ([], [])"
  have "discover fs root = ((sort_key fj_Path (fst ?w), snd ?w), None)"
    using assms(1,2) by (simp add: discover_def case_prod_unfold Let_def)
  moreover have "mset (sort_key fj_Path (fst ?w)) =
    mset (map (job_for fs root) (filter (runnable fs) (tree_files root d)))"
    by (simp add: walk_jobs(1) tree_files_def)
  moreover have "\<forall>p \<in> set (tree_files root d). \<not> runnable fs p \<longrightarrow> p \<in> sf_Path ` set (snd ?w)"
    unfolding tree_files_def using walk_skips(1) by blast
  ultimately show ?thesis by (metis sorted_sort_key)
qed

definition sample_fs :: file_system where
  "sample_fs =
     \<lparr>fs_stat = (\<lambda>p. Inr (p = ''t'', 9)),
      fs_lstat = (\<lambda>_. Inr (Dir (Inr [(''.meta'', Dir (Inr [(''i.json'', Leaf)])),
                                  (''b.json'', Leaf), (''d'', Dir (Inr [(''x.json'', Leaf), (''n'', Leaf)]))]))),
      fs_open = (\<lambda>p. Inr (if p = ''t/d/x.json'' then quoted ''blocks'' else [], None))\<rparr>"

theorem discover_complete_witness:
  "\<exists>jobs skipped. discover sample_fs ''t'' = ((jobs, skipped), None) \<and>
     map fj_Path jobs = [''t/d/x.json''] \<and> ''t/b.json'' \<in> sf_Path ` set skipped"
proof -
  let ?d = "Dir (Inr [(''.meta'', Dir (Inr [(''i.json'', Leaf)])),
                      (''b.json'', Leaf), (''d'', Dir (Inr [(''x.json'', Leaf), (''n'', Leaf)]))])"
  have files: "tree_files ''t'' ?d = [''t/b.json'', ''t/d/x.json'']" by code_simp
  have run: "runnable sample_fs ''t/d/x.json''" "\<not> runnable sample_fs ''t/b.json''" by code_simp+
  obtain jobs skipped where *: "discover sample_fs ''t'' = ((jobs, skipped), None)"
    "mset jobs = mset (map (job_for sample_fs ''t'') (filter (runnable sample_fs) (tree_files ''t'' ?d)))"
    "\<forall>p \<in> set (tree_files ''t'' ?d). \<not> runnable sample_fs p \<longrightarrow> p \<in> sf_Path ` set skipped"
    using discover_complete [of sample_fs "''t''" 9 ?d] by (auto simp: sample_fs_def)
  then have "jobs = [job_for sample_fs ''t'' ''t/d/x.json'']" by (simp add: files run)
  with * show ?thesis by (auto simp: files run job_for_def)
qed

end
