(* ===== verification/Zkevm_Load.thy ===== *)
theory Zkevm_Load
  imports Ssz_Paths
begin

text \<open>
  The zkevm blockchain-test format of \<open>fixture/fixture.go\<close> and its blocks as guest inputs
  (\<open>ZesuInputFromZkevmBlock\<close> of \<open>fixture/encode.go\<close>). The iteration order of Go's map over the
  test cases is a parameter of the loader.
\<close>

section \<open>Data\<close>

record ZkevmHeader =
  zh_Number :: string
  zh_GasUsed :: string

record ZkevmTx =
  zt_Type :: string

record ZkevmBlock =
  zb_BlockHeader :: ZkevmHeader
  zb_Transactions :: "ZkevmTx list"
  zb_StatelessInputBytes :: string
  zb_StatelessOutputBytes :: string
  zb_ExpectException :: string

record ZkevmTestCase =
  zc_Name :: string
  zc_Network :: string
  zc_Blocks :: "ZkevmBlock list"

definition unmarshal_ZkevmHeader :: "members \<Rightarrow> ZkevmHeader res" where
  "unmarshal_ZkevmHeader ms =
     res_bind (field_string ''number'' ms) (\<lambda>n.
     res_bind (field_string ''gasUsed'' ms) (\<lambda>g.
       Inr \<lparr>zh_Number = n, zh_GasUsed = g\<rparr>))"

definition unmarshal_ZkevmTx :: "members \<Rightarrow> ZkevmTx res" where
  "unmarshal_ZkevmTx ms = res_bind (field_string ''type'' ms) (\<lambda>t. Inr \<lparr>zt_Type = t\<rparr>)"

definition unmarshal_ZkevmBlock :: "members \<Rightarrow> ZkevmBlock res" where
  "unmarshal_ZkevmBlock ms =
     res_bind (field_struct unmarshal_ZkevmHeader ''blockHeader'' ms) (\<lambda>h.
     res_bind (field_with (unmarshal_slice (unmarshal_struct unmarshal_ZkevmTx)) [] ''transactions'' ms) (\<lambda>t.
     res_bind (field_string ''statelessInputBytes'' ms) (\<lambda>i.
     res_bind (field_string ''statelessOutputBytes'' ms) (\<lambda>out.
     res_bind (field_string ''expectException'' ms) (\<lambda>e.
       Inr \<lparr>zb_BlockHeader = h, zb_Transactions = t, zb_StatelessInputBytes = i,
            zb_StatelessOutputBytes = out, zb_ExpectException = e\<rparr>)))))"

text \<open>\<open>Name\<close> has no tag, so a member \<open>name\<close> is stored into it before the loader overwrites it.\<close>

definition unmarshal_ZkevmTestCase :: "members \<Rightarrow> ZkevmTestCase res" where
  "unmarshal_ZkevmTestCase ms =
     res_bind (field_string ''Name'' ms) (\<lambda>n.
     res_bind (field_string ''network'' ms) (\<lambda>w.
     res_bind (field_with (unmarshal_slice (unmarshal_struct unmarshal_ZkevmBlock)) [] ''blocks'' ms) (\<lambda>b.
       Inr \<lparr>zc_Name = n, zc_Network = w, zc_Blocks = b\<rparr>)))"

definition Number :: "ZkevmBlock \<Rightarrow> u64" where
  "Number b = (case hexToUint64 (zh_Number (zb_BlockHeader b)) of Inl _ \<Rightarrow> 0 | Inr n \<Rightarrow> n)"

definition GasUsed :: "ZkevmBlock \<Rightarrow> u64" where
  "GasUsed b = (case hexToUint64 (zh_GasUsed (zb_BlockHeader b)) of Inl _ \<Rightarrow> 0 | Inr n \<Rightarrow> n)"

section \<open>Engine cases\<close>

record enginePayload =
  ep_Params :: "ZkevmHeader list"
  ep_StatelessInputBytes :: string
  ep_StatelessOutputBytes :: string
  ep_ValidationError :: string

definition unmarshal_engineParam :: "members \<Rightarrow> ZkevmHeader res" where
  "unmarshal_engineParam ms =
     res_bind (field_string ''blockNumber'' ms) (\<lambda>n.
     res_bind (field_string ''gasUsed'' ms) (\<lambda>g.
       Inr \<lparr>zh_Number = n, zh_GasUsed = g\<rparr>))"

definition unmarshal_enginePayload :: "members \<Rightarrow> enginePayload res" where
  "unmarshal_enginePayload ms =
     res_bind (field_with (unmarshal_slice (unmarshal_struct unmarshal_engineParam)) [] ''params'' ms) (\<lambda>p.
     res_bind (field_string ''statelessInputBytes'' ms) (\<lambda>i.
     res_bind (field_string ''statelessOutputBytes'' ms) (\<lambda>out.
     res_bind (field_string ''validationError'' ms) (\<lambda>e.
       Inr \<lparr>ep_Params = p, ep_StatelessInputBytes = i, ep_StatelessOutputBytes = out,
            ep_ValidationError = e\<rparr>))))"

definition unmarshal_engineCase :: "members \<Rightarrow> enginePayload list res" where
  "unmarshal_engineCase ms =
     field_with (unmarshal_slice (unmarshal_struct unmarshal_enginePayload)) [] ''engineNewPayloads'' ms"

definition engine_block :: "enginePayload \<Rightarrow> ZkevmBlock" where
  "engine_block p =
     \<lparr>zb_BlockHeader = (case ep_Params p of [] \<Rightarrow> \<lparr>zh_Number = [], zh_GasUsed = []\<rparr> | q # _ \<Rightarrow> q),
      zb_Transactions = [],
      zb_StatelessInputBytes = ep_StatelessInputBytes p,
      zb_StatelessOutputBytes = ep_StatelessOutputBytes p,
      zb_ExpectException = ep_ValidationError p\<rparr>"

definition blocks :: "enginePayload list \<Rightarrow> ZkevmBlock list" where
  "blocks ps = map engine_block ps"

section \<open>Loading\<close>

definition load_case :: "string \<Rightarrow> string \<Rightarrow> json \<Rightarrow> ZkevmTestCase res" where
  "load_case path name raw =
     (let ctx = ''parse test '' @ go_quote name @ '' in '' @ path
      in res_bind (res_wrap ctx (unmarshal_struct unmarshal_ZkevmTestCase raw)) (\<lambda>tc.
         res_bind (if length (zc_Blocks tc) = 0
                   then res_bind (res_wrap ctx (unmarshal_struct unmarshal_engineCase raw)) (\<lambda>ec.
                          Inr (tc\<lparr>zc_Blocks := blocks ec\<rparr>))
                   else Inr tc) (\<lambda>tc. Inr (tc\<lparr>zc_Name := name\<rparr>))))"

text \<open>\<open>order\<close> is the order in which \<open>range raw\<close> visits the keys; \<open>sort.Strings\<close> sorts by bytes.\<close>

definition LoadZkevmFile ::
  "(string list \<Rightarrow> string list) \<Rightarrow> (string \<Rightarrow> json res) \<Rightarrow> string \<Rightarrow> string res \<Rightarrow> ZkevmTestCase list res" where
  "LoadZkevmFile order syntax path content =
     res_bind (res_wrap (''read '' @ path) content) (\<lambda>data.
     res_bind (res_wrap (''parse '' @ path) (res_bind (syntax data) unmarshal_raw_map)) (\<lambda>raw.
       let names = sort (order (map fst raw))
       in res_mapi 0 (\<lambda>_ name. load_case path name (the (map_of raw name))) names))"

text \<open>The guest input of a block, whether the block is expected to be valid, and the error.\<close>

definition ZesuInputFromZkevmBlock :: "ZkevmBlock \<Rightarrow> bytes \<times> bool \<times> go_error option" where
  "ZesuInputFromZkevmBlock block =
     (let expectedSuccess = (zb_ExpectException block = [])
      in if zb_StatelessInputBytes block = []
         then ([], expectedSuccess, Some ErrMissingStatelessInputBytes)
         else (case hexStrToBytes (zb_StatelessInputBytes block) of
                 (_, Some e) \<Rightarrow> ([], False, Some (wrap_error ''decode statelessInputBytes'' e))
               | (ssz, None) \<Rightarrow> (ZkvmFrame ssz, expectedSuccess, None)))"

section \<open>Lemmas\<close>

lemma load_case_name: "load_case path name raw = Inr tc \<Longrightarrow> zc_Name tc = name"
  by (auto simp: load_case_def Let_def res_simps)

lemma load_names:
  assumes "LoadZkevmFile order syntax path content = Inr tcs"
  obtains raw :: members where "distinct (map fst raw)" "map zc_Name tcs = sort (order (map fst raw))"
proof -
  obtain data v raw where raw: "syntax data = Inr v" "unmarshal_raw_map v = Inr raw"
    and cases: "res_mapi 0 (\<lambda>_ name. load_case path name (the (map_of raw name)))
      (sort (order (map fst raw))) = Inr tcs"
    using assms by (auto simp: LoadZkevmFile_def Let_def res_simps)
  have "map zc_Name tcs = sort (order (map fst raw))"
    using cases load_case_name
    by (intro nth_equalityI) (auto simp: res_mapi_eq_Inr)
  with unmarshal_raw_map_distinct [OF raw(2)] show ?thesis using that by blast
qed

lemma sort_mset_eq: "mset xs = mset ys \<Longrightarrow> sort xs = sort (ys :: 'a :: linorder list)"
  by (metis properties_for_sort mset_sort sorted_sort)

section \<open>Properties\<close>

text \<open>
  Loading a zkevm file does not depend on Go's map iteration order: for any two orders that visit
  every key once the result is the same, errors included.
\<close>

lemma load_zkevm_deterministic:
  assumes "\<forall>xs. mset (order xs) = mset xs" "\<forall>xs. mset (order' xs) = mset xs"
  shows "LoadZkevmFile order syntax path content = LoadZkevmFile order' syntax path content"
proof -
  have "sort (order xs) = sort (order' xs)" for xs
    using assms by (intro sort_mset_eq) simp
  then show ?thesis by (simp add: LoadZkevmFile_def)
qed

lemma load_zkevm_deterministic_example:
  "LoadZkevmFile rev (\<lambda>_. Inr (JObj [(''b'', JNull), (''a'', JObj [])])) ''f'' (Inr ''x'') =
   LoadZkevmFile (\<lambda>xs. xs) (\<lambda>_. Inr (JObj [(''b'', JNull), (''a'', JObj [])])) ''f'' (Inr ''x'')"
  by (rule load_zkevm_deterministic) simp_all

text \<open>
  The loaded test cases come in strictly ascending order of name, so no name appears twice and the
  output of every consumer is reproducible.
\<close>

lemma load_zkevm_sorted:
  assumes "\<forall>xs. mset (order xs) = mset xs"
    and "LoadZkevmFile order syntax path content = Inr tcs"
  shows "sorted_wrt (<) (map zc_Name tcs)"
proof -
  obtain raw :: members where raw: "distinct (map fst raw)" "map zc_Name tcs = sort (order (map fst raw))"
    using assms(2) by (rule load_names)
  have "distinct (order (map fst raw))"
    using assms(1) raw(1) by (metis mset_eq_imp_distinct_iff)
  with raw(2) show ?thesis by (simp add: strict_sorted_iff)
qed

lemma load_zkevm_sorted_example:
  "\<exists>tcs. LoadZkevmFile rev (\<lambda>_. Inr (JObj [(''b'', JNull), (''a'', JObj [])])) ''f'' (Inr ''x'') = Inr tcs \<and>
     length tcs = 2 \<and> sorted_wrt (<) (map zc_Name tcs)"
proof -
  let ?load = "LoadZkevmFile rev (\<lambda>_. Inr (JObj [(''b'', JNull), (''a'', JObj [])])) ''f'' (Inr ''x'')"
  have case1: "\<exists>tc. load_case ''f'' n JNull = Inr tc" "\<exists>tc. load_case ''f'' n (JObj []) = Inr tc" for n
    by (simp_all add: load_case_def unmarshal_ZkevmTestCase_def unmarshal_engineCase_def
        field_string_def field_with_def values_of_def Let_def)
  have sorted: "sort [''a'', ''b''] = [''a'', ''b'']" by code_simp
  have "\<exists>tcs. ?load = Inr tcs \<and> length tcs = 2"
    using case1(1) [of "''b''"] case1(2) [of "''a''"]
    by (auto simp: LoadZkevmFile_def Let_def sorted)
  then obtain tcs where tcs: "?load = Inr tcs" "length tcs = 2" by blast
  have "\<forall>xs. mset (rev xs) = mset (xs :: string list)" by simp
  from load_zkevm_sorted [OF this tcs(1)] tcs show ?thesis by blast
qed

lemma hex_error_not_missing: "snd (hex_DecodeString s) = Some e \<Longrightarrow> \<not> is_missing_input e"
  by (induction s rule: hex_DecodeString.induct)
    (auto simp: InvalidByteError_def ErrLength_def split: option.splits prod.splits if_splits)

lemma hexStrToBytes_error: "snd (hexStrToBytes s) = Some e \<Longrightarrow> \<not> is_missing_input e"
  unfolding hexStrToBytes_def Let_def by (rule hex_error_not_missing)

text \<open>
  A zkevm block becomes the framing of its bytes. A block whose \<open>statelessInputBytes\<close> spell
  \<open>ssz\<close> yields an input from which \<open>ssz\<close> is read back (below 2^64 bytes), and it is expected to
  succeed exactly when it names no exception; a block without the bytes gives
  \<open>ErrMissingStatelessInputBytes\<close>, and no other input does.
\<close>

lemma zkevm_block_input:
  assumes "ZesuInputFromZkevmBlock block = (out, ok, err)"
  shows "(\<exists>e. err = Some e \<and> is_missing_input e) = (zb_StatelessInputBytes block = []) \<and>
    (err = None \<longrightarrow> ok = (zb_ExpectException block = [])) \<and>
    (\<forall>ssz. zb_StatelessInputBytes block = hex_text ssz \<and> length ssz < 2 ^ 64 \<longrightarrow>
       err = None \<and> take (le_nat (take 8 out)) (drop 8 out) = ssz)"
proof (cases "zb_StatelessInputBytes block = []")
  case True
  with assms show ?thesis
    by (auto simp: ZesuInputFromZkevmBlock_def Let_def hex_text_def)
next
  case False
  obtain bs e where hex: "hexStrToBytes (zb_StatelessInputBytes block) = (bs, e)"
    by (metis surj_pair)
  have "e = Some x \<Longrightarrow> \<not> is_missing_input x" for x
    using hex hexStrToBytes_error [of "zb_StatelessInputBytes block" x] by simp
  moreover have "bs = ssz \<and> e = None" if "zb_StatelessInputBytes block = hex_text ssz" for ssz
    using hex that hexStrToBytes_hex_text [of ssz] by simp
  ultimately show ?thesis
    using assms False hex
    by (cases e) (auto simp: ZesuInputFromZkevmBlock_def Let_def unframe_ZkvmFrame)
qed

definition sample_zkevm_block :: ZkevmBlock where
  "sample_zkevm_block =
     \<lparr>zb_BlockHeader = \<lparr>zh_Number = ''0x01'', zh_GasUsed = ''0x10''\<rparr>, zb_Transactions = [],
      zb_StatelessInputBytes = hex_text [1, 2, 3], zb_StatelessOutputBytes = [],
      zb_ExpectException = []\<rparr>"

lemma zkevm_block_input_example:
  "\<exists>out. ZesuInputFromZkevmBlock sample_zkevm_block = (out, True, None) \<and>
     take (le_nat (take 8 out)) (drop 8 out) = [1, 2, 3]"
proof -
  have run: "ZesuInputFromZkevmBlock sample_zkevm_block = (ZkvmFrame [1, 2, 3], True, None)"
    by (simp add: ZesuInputFromZkevmBlock_def sample_zkevm_block_def hexStrToBytes_hex_text)
      (simp add: hex_text_def)
  have "zb_StatelessInputBytes sample_zkevm_block = hex_text [1, 2, 3] \<and> length [1, 2, 3 :: byte] < 2 ^ 64"
    by (simp add: sample_zkevm_block_def)
  with zkevm_block_input [OF run] run show ?thesis by blast
qed

text \<open>
  An engine case is read only when every parameter of its payloads is an object. A payload whose
  \<open>params\<close> list goes on with something else, such as the array of versioned hashes that follows the
  execution payload in the engine API, makes the whole file fail to load.
\<close>

lemma engine_params_must_be_objects:
  "\<exists>e. load_case path name (JObj [(''engineNewPayloads'',
     JArr [JObj [(''params'', JArr [JObj payload, JArr hashes])]])]) = Inl e"
proof -
  have "\<exists>e. unmarshal_slice (unmarshal_struct unmarshal_engineParam) (JArr [JObj payload, JArr hashes]) = Inl e"
    by (cases "unmarshal_engineParam payload") (simp_all add: json_type_error_def)
  then have "\<exists>e. unmarshal_enginePayload [(''params'', JArr [JObj payload, JArr hashes])] = Inl e"
    by (auto simp: unmarshal_enginePayload_def field_with_def values_of_def ToLower_def)
  then have "\<exists>e. unmarshal_engineCase [(''engineNewPayloads'',
      JArr [JObj [(''params'', JArr [JObj payload, JArr hashes])]])] = Inl e"
    by (auto simp: unmarshal_engineCase_def field_with_def values_of_def ToLower_def)
  then show ?thesis
    by (auto simp: load_case_def unmarshal_ZkevmTestCase_def field_string_def field_with_def
        values_of_def ToLower_def Let_def lower_char_def)
qed

end
