(* ===== verification/Emu.thy ===== *)
theory Emu
  imports Go_Strings
begin

text \<open>
  \<open>emu/emu.go\<close>: running a guest under a zkVM emulator and parsing what it printed. The temporary
  files, the emulator process and reading its output file are the environment of a run.
\<close>

section \<open>Data\<close>

definition DefaultZiskMaxSteps :: u64 where
  "DefaultZiskMaxSteps = 68719476735"

definition StatelessOutputSize :: nat where
  "StatelessOutputSize = 43"

record CostReport =
  cr_Base :: u64
  cr_Main :: u64
  cr_Opcodes :: u64
  cr_Precompiles :: u64
  cr_Memory :: u64
  cr_Total :: u64
  cr_Instructions :: u64
  cr_Cycles :: u64
  cr_Steps :: u64

definition zero_CostReport :: CostReport where
  "zero_CostReport =
     \<lparr>cr_Base = 0, cr_Main = 0, cr_Opcodes = 0, cr_Precompiles = 0, cr_Memory = 0, cr_Total = 0,
      cr_Instructions = 0, cr_Cycles = 0, cr_Steps = 0\<rparr>"

record Opts =
  op_ELF :: string
  op_Bin :: string
  op_MaxSteps :: u64
  op_RequireCosts :: bool

definition EffectiveMaxSteps :: "Opts \<Rightarrow> u64" where
  "EffectiveMaxSteps opts = (if 0 < op_MaxSteps opts then op_MaxSteps opts else DefaultZiskMaxSteps)"

record EmuResult =
  er_Costs :: CostReport
  er_OutputHex :: string
  er_RawOut :: string
  er_ExecErr :: string
  er_StepLimit :: bool
  er_ShortOutput :: bool

definition zero_EmuResult :: EmuResult where
  "zero_EmuResult =
     \<lparr>er_Costs = zero_CostReport, er_OutputHex = [], er_RawOut = [], er_ExecErr = [],
      er_StepLimit = False, er_ShortOutput = False\<rparr>"

section \<open>Parsing\<close>

text \<open>A value and whether the line has it.\<close>

definition ParseCostLine :: "string \<Rightarrow> string \<Rightarrow> u64 \<times> bool" where
  "ParseCostLine line label =
     (if \<not> HasPrefix line label then (0, False)
      else (case str_Fields (drop (length label) line) of
              [] \<Rightarrow> (0, False)
            | f # _ \<Rightarrow>
                (case ParseUint (filter (\<lambda>c. c \<noteq> CHR '','') f) 10 of
                   (n, Some e) \<Rightarrow> (0, False)
                 | (n, None) \<Rightarrow> (of_nat n, True))))"

text \<open>
  The tokens of a \<open>bufio.Scanner\<close> with a buffer of at most 4 MiB: the lines without their end, up to
  the first line that does not fit, which ends the scan.
\<close>

definition drop_cr :: "string \<Rightarrow> string" where
  "drop_cr l = (if l \<noteq> [] \<and> last l = CHR 13 then butlast l else l)"

definition scan_lines :: "string \<Rightarrow> string list" where
  "scan_lines s =
     (let ls = str_Split (CHR 10) s;
          ts = (if last ls = [] then butlast ls else ls)
      in map drop_cr (takeWhile (\<lambda>l. int (length l) < 4194304) ts))"

definition cost_line :: "string \<Rightarrow> CostReport \<times> bool \<Rightarrow> CostReport \<times> bool" where
  "cost_line text st =
     (let line = TrimSpace text; (r, found) = st
      in if snd (ParseCostLine line ''BASE'')
         then (r\<lparr>cr_Base := fst (ParseCostLine line ''BASE'')\<rparr>, True)
         else if snd (ParseCostLine line ''MAIN'')
         then (r\<lparr>cr_Main := fst (ParseCostLine line ''MAIN'')\<rparr>, found)
         else if snd (ParseCostLine line ''OPCODES'')
         then (r\<lparr>cr_Opcodes := fst (ParseCostLine line ''OPCODES'')\<rparr>, found)
         else if snd (ParseCostLine line ''PRECOMPILES'')
         then (r\<lparr>cr_Precompiles := fst (ParseCostLine line ''PRECOMPILES'')\<rparr>, found)
         else if snd (ParseCostLine line ''MEMORY'')
         then (r\<lparr>cr_Memory := fst (ParseCostLine line ''MEMORY'')\<rparr>, found)
         else if snd (ParseCostLine line ''INSTRUCTIONS'')
         then (r\<lparr>cr_Instructions := fst (ParseCostLine line ''INSTRUCTIONS'')\<rparr>, True)
         else if snd (ParseCostLine line ''CYCLES'')
         then (r\<lparr>cr_Cycles := fst (ParseCostLine line ''CYCLES'')\<rparr>, found)
         else if snd (ParseCostLine line ''STEPS'')
         then (r\<lparr>cr_Steps := fst (ParseCostLine line ''STEPS'')\<rparr>, found)
         else if snd (ParseCostLine line ''TOTAL'')
         then (r\<lparr>cr_Total := fst (ParseCostLine line ''TOTAL'')\<rparr>, found)
         else (r, found))"

definition ParseCostReport :: "string \<Rightarrow> CostReport \<times> bool" where
  "ParseCostReport output = fold cost_line (scan_lines output) (zero_CostReport, False)"

definition execFailedPrefix :: string where
  "execFailedPrefix = ''error: execution failed: ''"

definition ParseExecError :: "string \<Rightarrow> string" where
  "ParseExecError output =
     (case str_Index output execFailedPrefix of
        None \<Rightarrow> []
      | Some i \<Rightarrow>
          (case str_Fields (drop (i + length execFailedPrefix) output) of
             [] \<Rightarrow> [] | f # _ \<Rightarrow> f))"

definition allZero :: "bytes \<Rightarrow> bool" where
  "allZero b = list_all (\<lambda>c. c = 0) b"

section \<open>Running\<close>

text \<open>
  \<open>ew_prepare\<close>: the names of the input and the output file, or the first error of creating, writing
  and closing them. \<open>ew_exec bin args input\<close>: the combined output and the error of the process.
  \<open>ew_readOut\<close>: the content of the output file afterwards.
\<close>

record emu_world =
  ew_prepare :: "bytes \<Rightarrow> (string \<times> string) res"
  ew_exec :: "string \<Rightarrow> string list \<Rightarrow> bytes \<Rightarrow> string \<times> go_error option"
  ew_readOut :: "string \<Rightarrow> string list \<Rightarrow> bytes \<Rightarrow> bytes res"

definition emu_args :: "Opts \<Rightarrow> string \<Rightarrow> string \<Rightarrow> string list" where
  "emu_args opts inName outPath =
     [''-X'', ''-e'', op_ELF opts, ''-i'', inName, ''-o'', outPath] @
     (if 0 < op_MaxSteps opts then [''-n'', itoa (unat (op_MaxSteps opts))] else [])"

definition emu_Run :: "emu_world \<Rightarrow> Opts \<Rightarrow> bytes \<Rightarrow> EmuResult \<times> go_error option" where
  "emu_Run W opts input =
     (case ew_prepare W input of
        Inl e \<Rightarrow> (zero_EmuResult, Some e)
      | Inr (inName, outPath) \<Rightarrow>
          let args = emu_args opts inName outPath;
              (out, execErr) = ew_exec W (op_Bin opts) args input;
              rawOut = TrimSpace out;
              (costs, foundCosts) = ParseCostReport rawOut;
              read = ew_readOut W (op_Bin opts) args input;
              r = \<lparr>er_Costs = costs,
                   er_OutputHex = (case read of Inl _ \<Rightarrow> [] | Inr b \<Rightarrow> hex_EncodeToString b),
                   er_RawOut = rawOut,
                   er_ExecErr = ParseExecError rawOut,
                   er_StepLimit = (EffectiveMaxSteps opts \<le> cr_Steps costs),
                   er_ShortOutput = (case read of Inl _ \<Rightarrow> True
                     | Inr b \<Rightarrow> length b < StatelessOutputSize \<or> allZero b)\<rparr>
          in if er_StepLimit r then
               (r, Some (Errorf (''step limit reached: '' @ itoa (unat (cr_Steps costs)) @ '' steps (cap '' @
                                 itoa (unat (EffectiveMaxSteps opts)) @ '')'')))
             else (case execErr of
                     Some e \<Rightarrow> (r, Some (wrap_error ''zkvm'' e))
                   | None \<Rightarrow>
                       if op_RequireCosts opts \<and> \<not> foundCosts
                       then (r, Some (Errorf ''no cost report in emulator output''))
                       else (r, None)))"

definition runHost :: "emu_world \<Rightarrow> Opts \<Rightarrow> bytes \<Rightarrow> EmuResult \<times> go_error option" where
  "runHost W opts input =
     (case ew_prepare W input of
        Inl e \<Rightarrow> (zero_EmuResult, Some e)
      | Inr (inName, outPath) \<Rightarrow>
          let args = [''-X'', ''-e'', op_ELF opts, ''-i'', inName, ''-o'', outPath];
              (out, runErr) = ew_exec W (op_Bin opts) args input;
              r = zero_EmuResult\<lparr>er_RawOut := TrimSpace out\<rparr>
          in case runErr of
               Some e \<Rightarrow> (r, Some (wrap_error ''runner'' e))
             | None \<Rightarrow>
                 (case ew_readOut W (op_Bin opts) args input of
                    Inl e \<Rightarrow> (r, Some (wrap_error ''read output'' e))
                  | Inr outBytes \<Rightarrow>
                      if length outBytes < StatelessOutputSize then
                        (r, Some (Errorf (''output too short: '' @ itoa (length outBytes) @
                                          '' bytes (expected '' @ itoa StatelessOutputSize @ '')'')))
                      else
                        (r\<lparr>er_OutputHex := hex_EncodeToString outBytes,
                           er_ExecErr := (if outBytes ! 32 = 0 then ''ExecutionFailed'' else []),
                           er_Costs := fst (ParseCostReport (TrimSpace out))\<rparr>, None)))"

definition RunOpenVM :: "emu_world \<Rightarrow> Opts \<Rightarrow> bytes \<Rightarrow> EmuResult \<times> go_error option" where
  "RunOpenVM W opts input = runHost W opts input"

definition RunPico :: "emu_world \<Rightarrow> Opts \<Rightarrow> bytes \<Rightarrow> EmuResult \<times> go_error option" where
  "RunPico W opts input = runHost W opts input"

text \<open>\<open>bench/emu.go\<close>\<close>

definition runEmu :: "emu_world \<Rightarrow> Opts \<Rightarrow> bytes \<Rightarrow> EmuResult \<times> go_error option" where
  "runEmu W opts input = emu_Run W (opts\<lparr>op_RequireCosts := True\<rparr>) input"

section \<open>Lemmas\<close>

definition plain_char :: "char \<Rightarrow> bool" where
  "plain_char c \<longleftrightarrow> (let n = (of_char c :: nat) in 33 \<le> n \<and> n < 128)"

lemma space_seqs_not_plain: "list_all (\<lambda>q. q \<noteq> [] \<and> \<not> plain_char (hd q)) space_seqs"
  by (simp add: space_seqs_def plain_char_def)

lemma lead_len_plain:
  assumes "plain_char c"
  shows "lead_len space_seqs (c # cs) = 0"
proof -
  have "\<not> HasPrefix (c # cs) q" if "q \<in> set space_seqs" for q
    using assms that space_seqs_not_plain
    by (cases q) (auto simp: HasPrefix_def list_all_iff)
  then have "find (HasPrefix (c # cs)) space_seqs = None"
    by (simp add: find_None_iff)
  then show ?thesis by (simp add: lead_len_def)
qed

lemma lead_len_space: "lead_len space_seqs (CHR 32 # cs) = 1"
  by (simp add: lead_len_def space_seqs_def HasPrefix_def)

lemma fields_loop_token:
  "list_all plain_char tok \<Longrightarrow>
     fields_loop w (tok @ CHR 32 # rest) =
       (if w = [] \<and> tok = [] then fields_loop [] rest else (rev w @ tok) # fields_loop [] rest)"
  by (induction tok arbitrary: w) (simp_all add: fields_loop.simps lead_len_plain lead_len_space)

lemma fields_loop_spaces: "fields_loop [] (replicate k (CHR 32) @ s) = fields_loop [] s"
  by (induction k) (simp_all add: fields_loop.simps lead_len_space)

lemma digit_plain: "d < 36 \<Longrightarrow> plain_char (digit_char d)"
  by (simp add: plain_char_def digit_char_def Let_def of_char_of)

lemma format_plain: "2 \<le> base \<Longrightarrow> base \<le> 36 \<Longrightarrow> list_all plain_char (format_digits base n)"
proof (induction base n rule: format_digits.induct)
  case (1 base n)
  have "n mod base < 36" using "1.prems" mod_less_divisor [of base n] by linarith
  with 1 show ?case by (subst format_digits.simps) (auto simp: digit_plain)
qed

lemma plain_without_commas:
  "list_all plain_char (filter (\<lambda>c. c \<noteq> CHR '','') tok) \<Longrightarrow> list_all plain_char tok"
  by (induction tok) (auto simp: plain_char_def split: if_splits)

lemma ParseUint_itoa: "ParseUint (itoa (unat (n :: u64))) 10 = (unat n, None)"
proof -
  have "unat n < 2 ^ 64" using unat_less_pow [of n] by simp
  then show ?thesis by (simp add: ParseUint_def parse_uint_loop_format)
qed

lemma emu_Run_ok:
  assumes "emu_Run W opts input = (r, None)"
  shows "\<not> er_StepLimit r \<and> cr_Steps (er_Costs r) < EffectiveMaxSteps opts \<and>
    (op_RequireCosts opts \<longrightarrow> snd (ParseCostReport (er_RawOut r)))"
  using assms
  by (auto simp: emu_Run_def Let_def split: sum.splits prod.splits option.splits if_splits)

section \<open>Properties\<close>

text \<open>
  A cost line is read as printed: a label, spaces, a number written with any placing of commas,
  and a rest after a space, parse to that number, for every 64-bit number.
\<close>

lemma cost_line_roundtrip:
  assumes "filter (\<lambda>c. c \<noteq> CHR '','') tok = itoa (unat n)"
  shows "ParseCostLine (label @ replicate k (CHR 32) @ tok @ '' '' @ rest) label = (n, True)"
proof -
  have plain: "list_all plain_char tok"
    using assms plain_without_commas [of tok] format_plain [of 10 "unat n"] by simp
  have "tok \<noteq> []" using assms [symmetric] by auto
  then have "str_Fields (replicate k (CHR 32) @ tok @ '' '' @ rest) = tok # fields_loop [] rest"
    using fields_loop_token [OF plain, of "[]" rest]
    by (simp add: str_Fields_def fields_loop_spaces)
  then show ?thesis
    by (simp add: ParseCostLine_def HasPrefix_def assms ParseUint_itoa)
qed

lemma cost_line_roundtrip_example:
  "ParseCostLine ''TOTAL   1,234 100.0%'' ''TOTAL'' = (1234, True)"
proof -
  have "filter (\<lambda>c. c \<noteq> CHR '','') ''1,234'' = itoa (unat (1234 :: u64))" by code_simp
  from cost_line_roundtrip [OF this, of "''TOTAL''" 3 "''100.0%''"] show ?thesis
    by (simp add: numeral_3_eq_3)
qed

text \<open>
  A run without an error is a complete run: it stayed below the step cap that applies, whether
  given or the emulator's default, and, when costs are required, its output has a cost table.
\<close>

lemma emu_run_complete:
  assumes "runEmu W opts input = (r, None)"
  shows "\<not> er_StepLimit r \<and>
    cr_Steps (er_Costs r) < (if 0 < op_MaxSteps opts then op_MaxSteps opts else 68719476735) \<and>
    snd (ParseCostReport (er_RawOut r))"
  using emu_Run_ok [of W "opts\<lparr>op_RequireCosts := True\<rparr>" input r] assms
  by (auto simp: runEmu_def EffectiveMaxSteps_def DefaultZiskMaxSteps_def split: if_splits)


definition sample_emu :: emu_world where
  "sample_emu =
     \<lparr>ew_prepare = (\<lambda>_. Inr (''in'', ''out'')),
      ew_exec = (\<lambda>_ _ _. (''STEPS 7'' @ [CHR 10] @ ''BASE 5 1%'', None)),
      ew_readOut = (\<lambda>_ _ _. Inr (replicate 43 1))\<rparr>"

lemma emu_run_complete_example:
  "\<exists>r. runEmu sample_emu \<lparr>op_ELF = ''e'', op_Bin = ''b'', op_MaxSteps = 0, op_RequireCosts = False\<rparr> [] = (r, None) \<and>
     snd (ParseCostReport (er_RawOut r))"
proof -
  let ?o = "\<lparr>op_ELF = ''e'', op_Bin = ''b'', op_MaxSteps = 0, op_RequireCosts = False\<rparr>"
  have "snd (runEmu sample_emu ?o []) = None" by code_simp
  then obtain r where r: "runEmu sample_emu ?o [] = (r, None)" by (metis prod.collapse)
  from emu_run_complete [OF r] r show ?thesis by blast
qed

end
