(* ===== verification/Stateless_Output.thy ===== *)
theory Stateless_Output
  imports Runner Emu
begin

text \<open>
  Reading the guest's answer. Four places of the source read the 43-byte validation result: the
  runner (\<open>runner/runner.go\<close>), the host emulators (\<open>emu/emu.go\<close>), the report
  (\<open>decodeStatelessOutput\<close> of \<open>bench/main.go\<close>) and the fixture expectation
  (\<open>expectedSuccessFromOutput\<close> of \<open>bench/units.go\<close>). The locale \<open>verdict_reader\<close> is what they have in
  common.
\<close>

section \<open>Readers\<close>

definition normaliseHex :: "string \<Rightarrow> string" where
  "normaliseHex s = ToLower (TrimPrefix s ''0x'')"

definition expectedSuccessFromOutput :: "string \<Rightarrow> bool" where
  "expectedSuccessFromOutput s \<longleftrightarrow> length s < 66 \<or> go_slice 64 66 s \<noteq> ''00''"

record statelessOutput =
  so_PayloadRoot :: string
  so_Success :: bool
  so_ChainID :: u64
  so_SchemaID :: u16
  so_OK :: bool

definition decodeStatelessOutput :: "string \<Rightarrow> statelessOutput" where
  "decodeStatelessOutput outputHex =
     (case hex_DecodeString outputHex of
        (b, e) \<Rightarrow>
          if e \<noteq> None \<or> length b < StatelessOutputSize
          then \<lparr>so_PayloadRoot = [], so_Success = False, so_ChainID = 0, so_SchemaID = 0, so_OK = False\<rparr>
          else \<lparr>so_PayloadRoot = hex_EncodeToString (go_slice 0 32 b),
                so_Success = (b ! 32 = 1),
                so_ChainID = of_nat (le_nat (go_slice 33 41 b)),
                so_SchemaID = of_nat (le_nat (go_slice 41 43 b)),
                so_OK = True\<rparr>)"

section \<open>Hex strings\<close>

lemma hex_EncodeToString_append:
  "hex_EncodeToString (a @ b) = hex_EncodeToString a @ hex_EncodeToString b"
  by (simp add: hex_EncodeToString_def)

lemma hex_EncodeToString_take:
  "take (2 * n) (hex_EncodeToString bs) = hex_EncodeToString (take n bs)"
proof (induction bs arbitrary: n)
  case (Cons b bs)
  then show ?case
    by (cases n) (simp_all add: hex_EncodeToString_def lower_hex2_def)
qed (simp add: hex_EncodeToString_def)

lemma hex_EncodeToString_inject [simp]: "hex_EncodeToString a = hex_EncodeToString b \<longleftrightarrow> a = b"
  by (metis hex_Decode_Encode fst_conv)

lemma go_slice_hex:
  "length a = n \<Longrightarrow> go_slice (2 * n) (2 * n + 2) (hex_EncodeToString (a @ c # b)) = lower_hex2 (unat c)"
  by (simp add: hex_EncodeToString_append go_slice_def)
    (simp add: hex_EncodeToString_def lower_hex2_def)

lemma lower_digit_char: "d < 16 \<Longrightarrow> lower_char (digit_char d) = digit_char d"
  by (simp add: lower_char_def digit_char_def Let_def of_char_of)

lemma digit_char_not_x: "d < 16 \<Longrightarrow> digit_char d \<noteq> CHR ''x''"
proof
  assume "d < 16" "digit_char d = CHR ''x''"
  then have "hex_val (CHR ''x'') = Some d" using hex_val_digit_char [of d] by simp
  moreover have "hex_val (CHR ''x'') = None" by code_simp
  ultimately show False by simp
qed

lemma hex_no_prefix: "\<not> HasPrefix (hex_EncodeToString bs) ''0x''"
proof (cases bs)
  case (Cons b cs)
  have "digit_char (unat b mod 16) \<noteq> CHR ''x''" by (rule digit_char_not_x) simp
  with Cons show ?thesis
    by (simp add: HasPrefix_def hex_EncodeToString_def lower_hex2_def)
qed (simp add: HasPrefix_def hex_EncodeToString_def)

lemma normaliseHex_encoded [simp]: "normaliseHex (hex_EncodeToString bs) = hex_EncodeToString bs"
proof -
  have "ToLower (hex_EncodeToString bs) = hex_EncodeToString bs"
    by (induction bs) (simp_all add: ToLower_def hex_EncodeToString_def lower_hex2_def lower_digit_char)
  with hex_no_prefix show ?thesis by (simp add: normaliseHex_def TrimPrefix_def)
qed

lemma normaliseHex_prefixed [simp]:
  "normaliseHex (CHR ''0'' # CHR ''x'' # hex_EncodeToString bs) = hex_EncodeToString bs"
  using normaliseHex_encoded [of bs] hex_no_prefix [of bs]
  by (simp add: normaliseHex_def TrimPrefix_def HasPrefix_def)

section \<open>The serialised result\<close>

lemma encode_result_split:
  obtains root flag rest where "encode_result v = root @ flag # rest" "length root = 32"
    "flag = (if vr_success v then 1 else 0)"
  by (rule that [of "be_bytes 32 (unat (vr_root v))"
        "if vr_success v then 1 else 0" "le_bytes 8 (unat (vr_chain_id v)) @ le_bytes 2 (unat (vr_schema_id v))"])
    (simp_all add: encode_result_def)

lemma decode_result:
  "decodeStatelessOutput (hex_EncodeToString (encode_result v @ rest)) =
     \<lparr>so_PayloadRoot = hex_EncodeToString (be_bytes 32 (unat (vr_root v))),
      so_Success = vr_success v, so_ChainID = vr_chain_id v, so_SchemaID = vr_schema_id v,
      so_OK = True\<rparr>"
proof -
  have "le_nat (le_bytes 8 (unat (vr_chain_id v))) = unat (vr_chain_id v)"
    "le_nat (le_bytes 2 (unat (vr_schema_id v))) = unat (vr_schema_id v)"
    by (simp_all add: le_nat_word)
  then show ?thesis
    by (simp add: decodeStatelessOutput_def hex_Decode_Encode StatelessOutputSize_def go_slice_def
        encode_result_def nth_append)
qed

lemma encode_result_inject [simp]:
  "encode_result v = encode_result w \<longleftrightarrow> v = (w :: ValidationResult)"
proof
  assume "encode_result v = encode_result w"
  then have "decodeStatelessOutput (hex_EncodeToString (encode_result v @ [])) =
    decodeStatelessOutput (hex_EncodeToString (encode_result w @ []))" by simp
  then have "vr_success v = vr_success w" "vr_chain_id v = vr_chain_id w"
    "vr_schema_id v = vr_schema_id w"
    "be_bytes 32 (unat (vr_root v)) = be_bytes 32 (unat (vr_root w))"
    unfolding decode_result by simp_all
  moreover have "vr_root v = vr_root w"
  proof -
    have "be_nat (be_bytes 32 (unat (vr_root x))) = unat (vr_root x)" for x :: ValidationResult
      by (rule be_nat_word) simp
    with calculation(4) have "unat (vr_root v) = unat (vr_root w)" by metis
    then show ?thesis by (rule word_unat_eq_iff [THEN iffD2])
  qed
  ultimately show "v = w" by simp
qed simp

section \<open>The contract of a reader\<close>

locale verdict_reader =
  fixes read :: "bytes \<Rightarrow> bool"
  assumes read_result: "read (encode_result v @ rest) = vr_success v"
begin

lemma read_exact: "read (encode_result v) = vr_success v"
  using read_result [of v "[]"] by simp

lemma padding_irrelevant: "read (encode_result v @ rest) = read (encode_result v)"
  by (simp add: read_result read_exact)

lemma agrees_with_flag: "read (encode_result v @ rest) \<longleftrightarrow> (encode_result v) ! 32 = 1"
  by (simp add: read_result encode_result_flag)

end

interpretation runner_reader: verdict_reader "\<lambda>out. out ! 32 = 1"
  by unfold_locales (simp add: encode_result_flag nth_append)

interpretation host_reader: verdict_reader "\<lambda>out. out ! 32 \<noteq> 0"
  by unfold_locales (simp add: encode_result_flag nth_append)

interpretation report_reader: verdict_reader
  "\<lambda>out. so_Success (decodeStatelessOutput (hex_EncodeToString out))"
  by unfold_locales (simp add: decode_result)

interpretation fixture_reader: verdict_reader
  "\<lambda>out. expectedSuccessFromOutput (hex_EncodeToString out)"
proof
  fix v rest
  obtain root flag tail where *: "encode_result v = root @ flag # tail" "length root = 32"
    "flag = (if vr_success v then 1 else 0)" by (rule encode_result_split)
  have "go_slice 64 66 (hex_EncodeToString (encode_result v @ rest)) = lower_hex2 (unat flag)"
    using go_slice_hex [OF *(2), of flag "tail @ rest"] *(1) by simp
  moreover have "lower_hex2 (unat (1 :: byte)) = ''01''" "lower_hex2 (unat (0 :: byte)) = ''00''"
    by code_simp+
  ultimately show "expectedSuccessFromOutput (hex_EncodeToString (encode_result v @ rest)) = vr_success v"
    using *(3) by (simp add: expectedSuccessFromOutput_def hex_EncodeToString_append)
qed

section \<open>Properties\<close>

text \<open>
  C36: all four readers of a guest's answer agree on well-formed answers. When the output region holds a
  serialised validation result, followed by any padding, the guest runner's verdict, the host
  emulators' missing execution error, the report's decoded flag and the expectation read from a
  fixture are all the result's success flag, and the report decodes every field.
\<close>

theorem verdict_readers_agree:
  assumes out: "out = encode_result v @ rest"
    and exec: "ex_err (exec (gs_Path spec) input) = None" "ex_stdout (exec (gs_Path spec) input) = out"
    and emu: "ew_prepare W input = Inr (i, p)"
      "snd (ew_exec W (op_Bin opts) [''-X'', ''-e'', op_ELF opts, ''-i'', i, ''-o'', p] input) = None"
      "ew_readOut W (op_Bin opts) [''-X'', ''-e'', op_ELF opts, ''-i'', i, ''-o'', p] input = Inr out"
  shows "rs_Valid (fst (fst (Run exec spec input n m))) = vr_success v \<and>
    snd (runHost W opts input) = None \<and>
    (er_ExecErr (fst (runHost W opts input)) = []) = vr_success v \<and>
    expectedSuccessFromOutput (er_OutputHex (fst (runHost W opts input))) = vr_success v \<and>
    decodeStatelessOutput (er_OutputHex (fst (runHost W opts input))) =
      \<lparr>so_PayloadRoot = hex_EncodeToString (be_bytes 32 (unat (vr_root v))), so_Success = vr_success v,
       so_ChainID = vr_chain_id v, so_SchemaID = vr_schema_id v, so_OK = True\<rparr>"
proof -
  have "rs_Valid (fst (fst (Run exec spec input n m))) = vr_success v"
    using exec out runner_reader.read_result [of v rest]
    by (simp add: Run_def Let_def statelessOutputSize_def)
  moreover have "runHost W opts input =
    (zero_EmuResult\<lparr>er_RawOut := TrimSpace (fst (ew_exec W (op_Bin opts)
        [''-X'', ''-e'', op_ELF opts, ''-i'', i, ''-o'', p] input)),
      er_OutputHex := hex_EncodeToString out,
      er_ExecErr := (if vr_success v then [] else ''ExecutionFailed''),
      er_Costs := fst (ParseCostReport (TrimSpace (fst (ew_exec W (op_Bin opts)
        [''-X'', ''-e'', op_ELF opts, ''-i'', i, ''-o'', p] input))))\<rparr>, None)"
    using emu out host_reader.read_result [of v rest]
    by (cases "vr_success v")
      (simp_all add: runHost_def Let_def StatelessOutputSize_def case_prod_unfold zero_EmuResult_def)
  ultimately show ?thesis
    using out fixture_reader.read_result [of v rest] by (simp add: decode_result)
qed

theorem verdict_readers_agree_witness:
  "let v = \<lparr>vr_root = 9, vr_success = False, vr_chain_id = 1, vr_schema_id = 2\<rparr>;
       exec = (\<lambda>_ _. \<lparr>ex_err = None, ex_stdout = encode_result v @ [0, 0], ex_stderr = [], ex_durationMs = 3\<rparr>);
       W = \<lparr>ew_prepare = (\<lambda>_. Inr (''in'', ''out'')), ew_exec = (\<lambda>_ _ _. ([], None)),
            ew_readOut = (\<lambda>_ _ _. Inr (encode_result v @ [0, 0]))\<rparr>;
       opts = \<lparr>op_ELF = ''e'', op_Bin = ''b'', op_MaxSteps = 0, op_RequireCosts = False\<rparr>
   in \<not> rs_Valid (fst (fst (Run exec \<lparr>gs_Name = ''g'', gs_Path = ''p''\<rparr> [] 7 zero_Metrics))) \<and>
      er_ExecErr (fst (runHost W opts [])) \<noteq> []"
proof -
  define v where "v = \<lparr>vr_root = 9, vr_success = False, vr_chain_id = 1, vr_schema_id = 2\<rparr>"
  define exec :: "string \<Rightarrow> bytes \<Rightarrow> ExecOutcome" where "exec = (\<lambda>_ _. \<lparr>ex_err = None,
    ex_stdout = encode_result v @ [0, 0], ex_stderr = [], ex_durationMs = 3\<rparr>)"
  define W where "W = \<lparr>ew_prepare = (\<lambda>_. Inr (''in'', ''out'')), ew_exec = (\<lambda>_ _ _. ([], None)),
            ew_readOut = (\<lambda>_ _ _. Inr (encode_result v @ [0, 0]))\<rparr>"
  define opts where "opts = \<lparr>op_ELF = ''e'', op_Bin = ''b'', op_MaxSteps = 0, op_RequireCosts = False\<rparr>"
  have "rs_Valid (fst (fst (Run exec \<lparr>gs_Name = ''g'', gs_Path = ''p''\<rparr> [] 7 zero_Metrics))) = vr_success v \<and>
    (er_ExecErr (fst (runHost W opts [])) = []) = vr_success v"
    using verdict_readers_agree [of _ v "[0, 0]" exec _ "[]" W "''in''" "''out''" opts 7 zero_Metrics]
    by (simp add: exec_def W_def)
  moreover have "\<not> vr_success v" by (simp add: v_def)
  ultimately show ?thesis
    unfolding Let_def v_def [symmetric] exec_def [symmetric] W_def [symmetric] opts_def [symmetric]
    by blast
qed

end
