(* ===== verification/Bench_Units.thy ===== *)
theory Bench_Units
  imports Discover Zkevm_Load Stateless_Output
begin

text \<open>
  \<open>bench/units.go\<close>: the runnable units of a fixture file and the two rules that judge a run, with
  the block characteristics of \<open>bench/main.go\<close> that units carry. Reading files, JSON syntax, Go's map
  order and go-ethereum are the environment \<open>bench_env\<close>. The rules share the contract \<open>verify_rule\<close>.
\<close>

section \<open>Data\<close>

record blockInfo =
  bi_TxCount :: nat
  bi_GasUsed :: u64
  bi_LegacyTxs :: nat
  bi_Eip1559Txs :: nat
  bi_Eip2930Txs :: nat
  bi_Eip4844Txs :: nat
  bi_Eip7702Txs :: nat
  bi_OutputHex :: string

definition zero_blockInfo :: blockInfo where
  "zero_blockInfo =
     \<lparr>bi_TxCount = 0, bi_GasUsed = 0, bi_LegacyTxs = 0, bi_Eip1559Txs = 0, bi_Eip2930Txs = 0,
      bi_Eip4844Txs = 0, bi_Eip7702Txs = 0, bi_OutputHex = []\<rparr>"

record unitMeta =
  um_Label :: string
  um_BlockNum :: u64
  um_Suite :: string
  um_Network :: string
  um_Kind :: Format
  um_Info :: blockInfo

record encoded =
  en_Input :: bytes
  en_Info :: blockInfo
  en_ExpectedSuccess :: bool
  en_ExpectedOutputHex :: string

definition zero_encoded :: encoded where
  "zero_encoded =
     \<lparr>en_Input = [], en_Info = zero_blockInfo, en_ExpectedSuccess = False, en_ExpectedOutputHex = []\<rparr>"

datatype verdictKind = verdictPass | verdictFail | verdictSkip | verdictUnverified | verdictError

fun verdictKind_String :: "verdictKind \<Rightarrow> string" where
  "verdictKind_String verdictPass = ''pass''"
| "verdictKind_String verdictFail = ''fail''"
| "verdictKind_String verdictSkip = ''skip''"
| "verdictKind_String verdictUnverified = ''unverified''"
| "verdictKind_String verdictError = ''error''"

record verdict =
  vd_Kind :: verdictKind
  vd_Mode :: string
  vd_Reason :: string
  vd_ExpectedSuccess :: bool
  vd_GotSuccess :: bool
  vd_ExpectedOutputHex :: string
  vd_GotOutputHex :: string
  vd_OutputMatch :: bool

definition OK :: "verdict \<Rightarrow> bool" where
  "OK v \<longleftrightarrow> vd_Kind v = verdictPass"

text \<open>The closures of a unit: \<open>Encode\<close> takes no argument and is run by the worker.\<close>

record bench_unit =
  un_Meta :: unitMeta
  un_Encode :: "unit \<Rightarrow> encoded \<times> go_error option"
  un_Verify :: "encoded \<Rightarrow> EmuResult \<Rightarrow> go_error option \<Rightarrow> verdict"

text \<open>
  What a run meets: go-ethereum, the JSON syntax of a file, the files, and the order in which Go visits the
  keys of the map it made of a file, given by its path. That order may differ from one run to the next.
\<close>

record bench_env =
  be_geth :: geth
  be_syntax :: "string \<Rightarrow> json res"
  be_order :: "string \<Rightarrow> string list \<Rightarrow> string list"
  be_read :: "string \<Rightarrow> string res"

section \<open>Block characteristics\<close>

definition count_type :: "string \<Rightarrow> blockInfo \<Rightarrow> blockInfo" where
  "count_type t info =
     (if t = ''01'' then info\<lparr>bi_Eip2930Txs := bi_Eip2930Txs info + 1\<rparr>
      else if t = ''02'' then info\<lparr>bi_Eip1559Txs := bi_Eip1559Txs info + 1\<rparr>
      else if t = ''03'' then info\<lparr>bi_Eip4844Txs := bi_Eip4844Txs info + 1\<rparr>
      else if t = ''04'' then info\<lparr>bi_Eip7702Txs := bi_Eip7702Txs info + 1\<rparr>
      else info\<lparr>bi_LegacyTxs := bi_LegacyTxs info + 1\<rparr>)"

definition eestBlockInfo :: "ZkevmBlock \<Rightarrow> blockInfo" where
  "eestBlockInfo b =
     fold (\<lambda>tx. count_type (normaliseHex (zt_Type tx))) (zb_Transactions b)
       (zero_blockInfo\<lparr>bi_TxCount := length (zb_Transactions b), bi_GasUsed := GasUsed b\<rparr>)"

definition count_tx :: "members \<Rightarrow> blockInfo \<Rightarrow> blockInfo" where
  "count_tx tx bi =
     (if map_of tx ''Eip1559'' \<noteq> None then bi\<lparr>bi_Eip1559Txs := bi_Eip1559Txs bi + 1\<rparr>
      else if map_of tx ''Eip4844'' \<noteq> None then bi\<lparr>bi_Eip4844Txs := bi_Eip4844Txs bi + 1\<rparr>
      else if map_of tx ''Eip2930'' \<noteq> None then bi\<lparr>bi_Eip2930Txs := bi_Eip2930Txs bi + 1\<rparr>
      else if map_of tx ''Eip7702'' \<noteq> None then bi\<lparr>bi_Eip7702Txs := bi_Eip7702Txs bi + 1\<rparr>
      else bi\<lparr>bi_LegacyTxs := bi_LegacyTxs bi + 1\<rparr>)"

definition extractBlockInfo :: "FixtureFile \<Rightarrow> blockInfo" where
  "extractBlockInfo f =
     (let blk = si_Block (ff_StatelessInput f); txs = fb_Transactions (bk_Body blk)
      in (fold (\<lambda>tx. count_tx (ft_Transaction tx)) txs (zero_blockInfo\<lparr>bi_TxCount := length txs\<rparr>))
           \<lparr>bi_GasUsed := fh_GasUsed (bk_Header blk)\<rparr>)"

text \<open>The leftmost match of \<open>block_(\d+)\<close>, as its group.\<close>

definition is_digit :: "char \<Rightarrow> bool" where
  "is_digit c \<longleftrightarrow> CHR ''0'' \<le> c \<and> c \<le> CHR ''9''"

fun blockNumRe :: "string \<Rightarrow> string option" where
  "blockNumRe [] = None"
| "blockNumRe (c # cs) =
     (let ds = takeWhile is_digit (drop 6 (c # cs))
      in if HasPrefix (c # cs) ''block_'' \<and> ds \<noteq> [] then Some ds else blockNumRe cs)"

definition extractBlockNum :: "string \<Rightarrow> u64" where
  "extractBlockNum name =
     (case blockNumRe name of None \<Rightarrow> 0 | Some ds \<Rightarrow> of_nat (fst (ParseUint ds 10)))"

section \<open>Rules\<close>

definition guestPanicMsg :: "string \<Rightarrow> string" where
  "guestPanicMsg rawOut =
     str_Join ''; '' (filter (\<lambda>l. l \<noteq> [])
       (takeWhile (\<lambda>l. \<not> (HasPrefix l ''COST'' \<or> HasPrefix l ''REPORT'' \<or> HasPrefix l ''---''))
         (map TrimSpace (str_Split (CHR 10) rawOut))))"

definition verifyEEST :: "encoded \<Rightarrow> EmuResult \<Rightarrow> go_error option \<Rightarrow> verdict" where
  "verifyEEST enc r runErr =
     (let v = \<lparr>vd_Kind = verdictPass, vd_Mode = ''output-bytes'', vd_Reason = [],
               vd_ExpectedSuccess = en_ExpectedSuccess enc, vd_GotSuccess = False,
               vd_ExpectedOutputHex = en_ExpectedOutputHex enc, vd_GotOutputHex = er_OutputHex r,
               vd_OutputMatch = False\<rparr>
      in case runErr of
           Some e \<Rightarrow>
             if is_missing_input e
             then v\<lparr>vd_Kind := verdictSkip, vd_Reason := ''no statelessInputBytes''\<rparr>
             else v\<lparr>vd_Kind := verdictError, vd_Reason := error_text e\<rparr>
         | None \<Rightarrow>
             let got0 = normaliseHex (er_OutputHex r);
                 n = length (vd_ExpectedOutputHex v);
                 got = (if 0 < n \<and> n < length got0 then take n got0 else got0);
                 v = v\<lparr>vd_GotSuccess := expectedSuccessFromOutput got\<rparr>
             in if vd_ExpectedOutputHex v = []
                then v\<lparr>vd_Kind := verdictUnverified,
                       vd_Reason := ''fixture has no statelessOutputBytes''\<rparr>
                else let v = v\<lparr>vd_OutputMatch := (got = vd_ExpectedOutputHex v)\<rparr>
                in if \<not> vd_OutputMatch v
                   then v\<lparr>vd_Kind := verdictFail,
                          vd_Reason := (let msg = guestPanicMsg (er_RawOut r)
                            in if msg \<noteq> [] then ''output mismatch (panic: '' @ msg @ '')''
                               else ''output mismatch'')\<rparr>
                   else v\<lparr>vd_Kind := verdictPass\<rparr>)"

definition bool_text :: "bool \<Rightarrow> string" where
  "bool_text b = (if b then ''true'' else ''false'')"

definition verifyCorpus :: "encoded \<Rightarrow> EmuResult \<Rightarrow> go_error option \<Rightarrow> verdict" where
  "verifyCorpus enc r runErr =
     (let gotSuccess = (runErr = None \<and> er_ExecErr r = []);
          v = \<lparr>vd_Kind = verdictPass, vd_Mode = ''success-flag'', vd_Reason = [],
               vd_ExpectedSuccess = en_ExpectedSuccess enc, vd_GotSuccess = gotSuccess,
               vd_ExpectedOutputHex = [], vd_GotOutputHex = er_OutputHex r, vd_OutputMatch = False\<rparr>
      in case runErr of
           Some e \<Rightarrow> v\<lparr>vd_Kind := verdictError, vd_Reason := error_text e\<rparr>
         | None \<Rightarrow>
             if gotSuccess \<noteq> en_ExpectedSuccess enc
             then v\<lparr>vd_Kind := verdictFail,
                    vd_Reason := ''expected success='' @ bool_text (en_ExpectedSuccess enc)\<rparr>
             else v\<lparr>vd_Kind := verdictPass\<rparr>)"

section \<open>Expansion\<close>

text \<open>\<open>Encode\<close> of a corpus unit: loading and encoding happen here, not in the expansion.\<close>

definition encodeCorpus :: "bench_env \<Rightarrow> string \<Rightarrow> encoded \<times> go_error option" where
  "encodeCorpus E path =
     (case LoadFile (be_syntax E) path (be_read E path) of
        Inl e \<Rightarrow> (zero_encoded, Some (wrap_error ''load'' e))
      | Inr f \<Rightarrow>
          let enc = zero_encoded\<lparr>en_Info := extractBlockInfo f, en_ExpectedSuccess := ff_Success f\<rparr>
          in case ZesuInputSSZ (be_geth E) f of
               Inl e \<Rightarrow> (enc, Some (wrap_error ''encode'' e))
             | Inr input \<Rightarrow> (enc\<lparr>en_Input := input\<rparr>, None))"

definition expandCorpus :: "bench_env \<Rightarrow> fileJob \<Rightarrow> bench_unit list res" where
  "expandCorpus E j =
     (let name = TrimSuffix (path_Base (fj_Path j)) ''.json''
      in Inr [\<lparr>un_Meta = \<lparr>um_Label = name, um_BlockNum = extractBlockNum name, um_Suite = fj_Suite j,
                         um_Network = [], um_Kind = fj_Kind j, um_Info = zero_blockInfo\<rparr>,
              un_Encode = (\<lambda>_. encodeCorpus E (fj_Path j)),
              un_Verify = verifyCorpus\<rparr>])"

definition encodeEEST :: "ZkevmBlock \<Rightarrow> encoded \<times> go_error option" where
  "encodeEEST block =
     (case ZesuInputFromZkevmBlock block of
        (input, _, err) \<Rightarrow>
          let expected = normaliseHex (zb_StatelessOutputBytes block)
          in (\<lparr>en_Input = input, en_Info = eestBlockInfo block,
               en_ExpectedSuccess = expectedSuccessFromOutput expected,
               en_ExpectedOutputHex = expected\<rparr>, err))"

definition unit_label :: "ZkevmTestCase \<Rightarrow> nat \<Rightarrow> string" where
  "unit_label tc bi =
     (if 1 < length (zc_Blocks tc) then zc_Name tc @ ''/block'' @ itoa bi else zc_Name tc)"

definition eest_unit :: "fileJob \<Rightarrow> ZkevmTestCase \<Rightarrow> nat \<Rightarrow> bench_unit" where
  "eest_unit j tc bi =
     (let block = zc_Blocks tc ! bi
      in \<lparr>un_Meta = \<lparr>um_Label = unit_label tc bi, um_BlockNum = Number block, um_Suite = fj_Suite j,
                    um_Network = zc_Network tc, um_Kind = fj_Kind j, um_Info = eestBlockInfo block\<rparr>,
         un_Encode = (\<lambda>_. encodeEEST block),
         un_Verify = verifyEEST\<rparr>)"

definition expandEEST :: "bench_env \<Rightarrow> fileJob \<Rightarrow> bench_unit list res" where
  "expandEEST E j =
     res_bind (LoadZkevmFile (be_order E (fj_Path j)) (be_syntax E) (fj_Path j) (be_read E (fj_Path j))) (\<lambda>tcs.
       Inr (concat (map (\<lambda>tc. map (eest_unit j tc) [0 ..< length (zc_Blocks tc)]) tcs)))"

definition expand :: "bench_env \<Rightarrow> fileJob \<Rightarrow> bench_unit list res" where
  "expand E j =
     (case fj_Kind j of
        FormatCorpus \<Rightarrow> expandCorpus E j
      | FormatZkevm \<Rightarrow> expandEEST E j
      | FormatUnknown \<Rightarrow>
          Inl (Errorf (fj_Path j @ '': unsupported fixture format '' @ Format_String (fj_Kind j))))"

text \<open>An order of keys visits every key once; the units of a file do not depend on it.\<close>

definition key_order :: "(string \<Rightarrow> string list \<Rightarrow> string list) \<Rightarrow> bool" where
  "key_order order \<longleftrightarrow> (\<forall>path keys. mset (order path keys) = mset keys)"

lemma expand_order:
  assumes "key_order (be_order E)" "key_order order"
  shows "expand (E\<lparr>be_order := order\<rparr>) j = expand E j"
proof -
  have "LoadZkevmFile (order p) parse p content = LoadZkevmFile (be_order E p) parse p content" for p parse content
    using assms by (intro load_zkevm_deterministic) (simp_all add: key_order_def)
  moreover have "encodeCorpus (E\<lparr>be_order := order\<rparr>) path = encodeCorpus E path" for path
    by (simp add: encodeCorpus_def Let_def split: sum.split)
  ultimately show ?thesis
    by (cases "fj_Kind j") (simp_all add: expand_def expandEEST_def expandCorpus_def Let_def)
qed

section \<open>Counts of transactions\<close>

text \<open>The kind of a transaction by which both formats count.\<close>

datatype tx_kind = KLegacy | K1559 | K2930 | K4844 | K7702

definition add_kind :: "tx_kind \<Rightarrow> blockInfo \<Rightarrow> blockInfo" where
  "add_kind k info =
     (case k of
        KLegacy \<Rightarrow> info\<lparr>bi_LegacyTxs := bi_LegacyTxs info + 1\<rparr>
      | K1559 \<Rightarrow> info\<lparr>bi_Eip1559Txs := bi_Eip1559Txs info + 1\<rparr>
      | K2930 \<Rightarrow> info\<lparr>bi_Eip2930Txs := bi_Eip2930Txs info + 1\<rparr>
      | K4844 \<Rightarrow> info\<lparr>bi_Eip4844Txs := bi_Eip4844Txs info + 1\<rparr>
      | K7702 \<Rightarrow> info\<lparr>bi_Eip7702Txs := bi_Eip7702Txs info + 1\<rparr>)"

lemma fold_add_kind:
  "fold add_kind ks info =
     info\<lparr>bi_LegacyTxs := bi_LegacyTxs info + count_list ks KLegacy,
          bi_Eip1559Txs := bi_Eip1559Txs info + count_list ks K1559,
          bi_Eip2930Txs := bi_Eip2930Txs info + count_list ks K2930,
          bi_Eip4844Txs := bi_Eip4844Txs info + count_list ks K4844,
          bi_Eip7702Txs := bi_Eip7702Txs info + count_list ks K7702\<rparr>"
  by (induction ks arbitrary: info) (simp_all add: add_kind_def split: tx_kind.split)

lemma count_kinds_total:
  "count_list ks KLegacy + count_list ks K1559 + count_list ks K2930 + count_list ks K4844 +
     count_list ks K7702 = length ks"
proof (induction ks)
  case (Cons k ks)
  then show ?case by (cases k) simp_all
qed simp

fun kind_of_Transaction :: "Transaction \<Rightarrow> tx_kind" where
  "kind_of_Transaction (NewDynamicFeeTx _) = K1559"
| "kind_of_Transaction (NewLegacyTx _) = KLegacy"
| "kind_of_Transaction (NewAccessListTx _) = K2930"
| "kind_of_Transaction (NewBlobTx _) = K4844"
| "kind_of_Transaction (NewSetCodeTx _) = K7702"

lemma count_tx_built:
  "buildTx G ft = Inr t \<Longrightarrow> count_tx (ft_Transaction ft) = add_kind (kind_of_Transaction t)"
  using buildTx_kind [of G ft t] by (cases t) (auto simp: count_tx_def add_kind_def fun_eq_iff)

lemma fold_count_tx_built:
  "res_mapi i (\<lambda>i ft. res_wrap (w i) (buildTx G ft)) txs = Inr built \<Longrightarrow>
     fold (\<lambda>tx. count_tx (ft_Transaction tx)) txs info = fold add_kind (map kind_of_Transaction built) info"
  by (induction txs arbitrary: i built info) (auto simp: res_simps count_tx_built)

definition kind_of_type :: "string \<Rightarrow> tx_kind" where
  "kind_of_type t =
     (if t = ''01'' then K2930 else if t = ''02'' then K1559 else if t = ''03'' then K4844
      else if t = ''04'' then K7702 else KLegacy)"

lemma count_type_kind: "count_type t = add_kind (kind_of_type t)"
  by (auto simp: count_type_def add_kind_def kind_of_type_def fun_eq_iff)

lemma fold_count_type:
  "fold (\<lambda>x. count_type (f x)) xs info = fold add_kind (map (\<lambda>x. kind_of_type (f x)) xs) info"
  by (induction xs arbitrary: info) (simp_all add: count_type_kind)

section \<open>The contract of a rule\<close>

locale verify_rule =
  fixes verify :: "encoded \<Rightarrow> EmuResult \<Rightarrow> go_error option \<Rightarrow> verdict"
  assumes ran: "vd_Kind (verify enc r None) \<in> {verdictPass, verdictFail, verdictUnverified}"
    and not_run: "vd_Kind (verify enc r (Some e)) \<in> {verdictSkip, verdictError}"
    and skip_reason: "vd_Kind (verify enc r (Some e)) = verdictSkip \<Longrightarrow> is_missing_input e"
    and error_reason: "vd_Kind (verify enc r (Some e)) = verdictError \<Longrightarrow>
      vd_Reason (verify enc r (Some e)) = error_text e"
begin

lemma pass_ran: "OK (verify enc r err) \<Longrightarrow> err = None"
  using not_run [of enc r "the err"] by (cases err) (auto simp: OK_def)

lemma error_iff:
  "vd_Kind (verify enc r err) = verdictError \<longleftrightarrow>
     err \<noteq> None \<and> vd_Kind (verify enc r err) \<noteq> verdictSkip"
  using not_run [of enc r "the err"] ran [of enc r] by (cases err) auto

lemma measured_iff:
  "vd_Kind (verify enc r err) \<in> {verdictPass, verdictFail, verdictUnverified} \<longleftrightarrow> err = None"
  using not_run [of enc r "the err"] ran [of enc r] by (cases err) auto

end

interpretation eest_rule: verify_rule verifyEEST
  by unfold_locales (auto simp: verifyEEST_def Let_def split: if_splits)

interpretation corpus_rule: verify_rule verifyCorpus
  by unfold_locales (auto simp: verifyCorpus_def Let_def split: if_splits)

lemma expand_rules:
  assumes "expand E j = Inr us" "u \<in> set us"
  shows "verify_rule (un_Verify u)"
  using assms eest_rule.verify_rule_axioms corpus_rule.verify_rule_axioms
  by (auto simp: expand_def expandCorpus_def expandEEST_def eest_unit_def Let_def res_simps
      split: Format.splits)

text \<open>Trimming the output to the expected length and comparing is a prefix test.\<close>

lemma trim_eq_prefix:
  "(if length e < length g then take (length e) g else g) = e \<longleftrightarrow> (\<exists>rest. g = e @ rest)"
  by (metis append_Nil2 append_eq_conv_conj append_take_drop_id length_append less_add_same_cancel1
      length_greater_0_conv)

lemma verifyEEST_pass_iff:
  "OK (verifyEEST enc r err) \<longleftrightarrow>
     err = None \<and> en_ExpectedOutputHex enc \<noteq> [] \<and>
     (\<exists>rest. normaliseHex (er_OutputHex r) = en_ExpectedOutputHex enc @ rest)"
proof (cases err)
  case (Some e)
  then show ?thesis using eest_rule.pass_ran by blast
next
  case None
  with trim_eq_prefix [of "en_ExpectedOutputHex enc" "normaliseHex (er_OutputHex r)"]
  show ?thesis by (auto simp: verifyEEST_def OK_def Let_def)
qed

section \<open>Properties\<close>

text \<open>
  C19: an EEST unit passes exactly when the guest computed the fixture's result. When the fixture's
  expected output is a serialised validation result and the emulator's output region holds another
  one followed by any padding, the verdict of a completed run is a pass if the two results are equal
  in every field and a failure otherwise, and the reported expectation and outcome are the two
  success flags. The guest's printed error and the block's \<open>expectException\<close> have no influence.
\<close>

theorem eest_judges_result:
  assumes "zb_StatelessOutputBytes block = ''0x'' @ hex_EncodeToString (encode_result v)"
    and "er_OutputHex r = hex_EncodeToString (encode_result w @ pad)"
  shows "vd_Kind (verifyEEST (fst (encodeEEST block)) r None) =
      (if v = w then verdictPass else verdictFail) \<and>
    vd_ExpectedSuccess (verifyEEST (fst (encodeEEST block)) r None) = vr_success v \<and>
    vd_GotSuccess (verifyEEST (fst (encodeEEST block)) r None) = vr_success w"
proof -
  let ?enc = "fst (encodeEEST block)"
  have exp: "en_ExpectedOutputHex ?enc = hex_EncodeToString (encode_result v)"
    "en_ExpectedSuccess ?enc = vr_success v"
    using assms(1) fixture_reader.read_exact [of v]
    by (simp_all add: encodeEEST_def case_prod_unfold Let_def)
  have got: "take 86 (hex_EncodeToString (encode_result w @ pad)) = hex_EncodeToString (encode_result w)"
    using hex_EncodeToString_take [of 43 "encode_result w @ pad"] by simp
  have trimmed: "(if 86 < length (hex_EncodeToString (encode_result w @ pad))
      then take 86 (hex_EncodeToString (encode_result w @ pad))
      else hex_EncodeToString (encode_result w @ pad)) = hex_EncodeToString (encode_result w)"
    using got by auto
  have "hex_EncodeToString (encode_result v) \<noteq> []"
    using length_hex_EncodeToString [of "encode_result v"] by fastforce
  then show ?thesis
    using exp assms(2) trimmed fixture_reader.read_exact [of w]
    by (auto simp: verifyEEST_def Let_def)
qed

theorem eest_judges_result_witness:
  "let v = \<lparr>vr_root = 9, vr_success = True, vr_chain_id = 1, vr_schema_id = 2\<rparr>;
       block = \<lparr>zb_BlockHeader = \<lparr>zh_Number = ''0x1'', zh_GasUsed = ''0x0''\<rparr>, zb_Transactions = [],
                zb_StatelessInputBytes = ''0x00'',
                zb_StatelessOutputBytes = ''0x'' @ hex_EncodeToString (encode_result v),
                zb_ExpectException = ''INVALID_REQUESTS''\<rparr>;
       r = zero_EmuResult\<lparr>er_OutputHex := hex_EncodeToString (encode_result v @ replicate 5 0),
                           er_ExecErr := ''Oops''\<rparr>
   in vd_Kind (verifyEEST (fst (encodeEEST block)) r None) = verdictPass"
proof -
  define v where "v = \<lparr>vr_root = 9, vr_success = True, vr_chain_id = 1, vr_schema_id = 2\<rparr>"
  define block where "block = \<lparr>zb_BlockHeader = \<lparr>zh_Number = ''0x1'', zh_GasUsed = ''0x0''\<rparr>,
    zb_Transactions = [], zb_StatelessInputBytes = ''0x00'',
    zb_StatelessOutputBytes = ''0x'' @ hex_EncodeToString (encode_result v),
    zb_ExpectException = ''INVALID_REQUESTS''\<rparr>"
  define r where "r = zero_EmuResult\<lparr>er_OutputHex := hex_EncodeToString (encode_result v @ replicate 5 0),
    er_ExecErr := ''Oops''\<rparr>"
  have "zb_StatelessOutputBytes block = ''0x'' @ hex_EncodeToString (encode_result v)"
    "er_OutputHex r = hex_EncodeToString (encode_result v @ replicate 5 0)"
    by (simp_all add: block_def r_def)
  from eest_judges_result [OF this]
  have "vd_Kind (verifyEEST (fst (encodeEEST block)) r None) = verdictPass" by simp
  then show ?thesis
    unfolding Let_def v_def [symmetric] block_def [symmetric] r_def [symmetric] .
qed

text \<open>
  The report counts the transactions of a corpus fixture as the encoder builds them: when the
  fixture's transactions build, each column is the number of built transactions of that kind, and the
  five columns add up to the number of transactions.
\<close>

lemma tx_counts_match:
  assumes "buildTransactions G (fb_Transactions (bk_Body (si_Block (ff_StatelessInput f)))) = Inr built"
  shows "let info = extractBlockInfo f; n = (\<lambda>k. count_list (map kind_of_Transaction built) k)
    in bi_LegacyTxs info = n KLegacy \<and> bi_Eip1559Txs info = n K1559 \<and> bi_Eip2930Txs info = n K2930 \<and>
       bi_Eip4844Txs info = n K4844 \<and> bi_Eip7702Txs info = n K7702 \<and>
       bi_LegacyTxs info + bi_Eip1559Txs info + bi_Eip2930Txs info + bi_Eip4844Txs info +
         bi_Eip7702Txs info = bi_TxCount info"
proof -
  let ?txs = "fb_Transactions (bk_Body (si_Block (ff_StatelessInput f)))"
  have "fold (\<lambda>tx. count_tx (ft_Transaction tx)) ?txs info =
      fold add_kind (map kind_of_Transaction built) info" for info
    using assms unfolding buildTransactions_def
    by (rule fold_count_tx_built [where w = "\<lambda>i. ''tx['' @ itoa i @ '']''"])
  moreover have "length built = length ?txs"
    using assms res_mapi_length unfolding buildTransactions_def by blast
  ultimately show ?thesis
    using count_kinds_total [of "map kind_of_Transaction built"]
    by (simp add: extractBlockInfo_def Let_def fold_add_kind zero_blockInfo_def)
qed

lemma tx_counts_match_example:
  "bi_LegacyTxs (extractBlockInfo sample_fixture) = 1 \<and> bi_Eip1559Txs (extractBlockInfo sample_fixture) = 0 \<and>
   bi_TxCount (extractBlockInfo sample_fixture) = 1"
proof -
  obtain t where "buildTransactions sample_geth
      (fb_Transactions (bk_Body (si_Block (ff_StatelessInput sample_fixture)))) = Inr [NewLegacyTx t]"
    using sample_fixture_txs by blast
  from tx_counts_match [OF this] show ?thesis by (simp add: Let_def)
qed

end
