(* ===== verification/Bench_Run.thy ===== *)
theory Bench_Run
  imports Bench_Units
begin

text \<open>
  \<open>bench/run.go\<close>: one unit, and the worker pool that runs all files. The pool is a step relation: the
  loop of \<open>runAll\<close> starts a goroutine per file while the semaphore has room, and a goroutine expands
  its file, runs the units one after the other and stores the rows. The steps are the points at which
  the goroutines touch shared state (the semaphore, the two progress counters, the slice of rows).
  Printing is left out; a unit that panics ends the process.
\<close>

section \<open>One unit\<close>

record BlockResult =
  br_BlockNum :: u64
  br_Name :: string
  br_Label :: string
  br_Suite :: string
  br_Network :: string
  br_Kind :: Format
  br_Verdict :: verdict
  br_Target :: string
  br_Costs :: CostReport
  br_Err :: "go_error option"
  br_ErrOutput :: string
  br_ExecError :: string
  br_Elapsed :: int
  br_ExpectedSuccess :: bool
  br_ValidationOK :: bool
  br_TxCount :: nat
  br_GasUsed :: u64
  br_LegacyTxs :: nat
  br_Eip1559Txs :: nat
  br_Eip2930Txs :: nat
  br_Eip4844Txs :: nat
  br_Eip7702Txs :: nat
  br_OutputHex :: string

type_synonym emuRunner = "bytes \<Rightarrow> EmuResult \<times> go_error option"

definition unit_row ::
  "bench_unit \<Rightarrow> string \<Rightarrow> int \<Rightarrow> encoded \<Rightarrow> EmuResult \<Rightarrow> go_error option \<Rightarrow> BlockResult" where
  "unit_row u target elapsed enc r runErr =
     (let v = un_Verify u enc r runErr;
          m = un_Meta u;
          info = (if en_Info enc \<noteq> zero_blockInfo then en_Info enc else um_Info m);
          isErr = (vd_Kind v = verdictError)
      in \<lparr>br_BlockNum = um_BlockNum m, br_Name = um_Label m, br_Label = um_Label m,
          br_Suite = um_Suite m, br_Network = um_Network m, br_Kind = um_Kind m, br_Verdict = v,
          br_Target = target,
          br_Costs = (if isErr then zero_CostReport else er_Costs r),
          br_Err = (if isErr then runErr else None),
          br_ErrOutput = (if isErr then er_RawOut r else []),
          br_ExecError = (if isErr then [] else er_ExecErr r),
          br_Elapsed = elapsed, br_ExpectedSuccess = vd_ExpectedSuccess v, br_ValidationOK = OK v,
          br_TxCount = bi_TxCount info, br_GasUsed = bi_GasUsed info,
          br_LegacyTxs = bi_LegacyTxs info, br_Eip1559Txs = bi_Eip1559Txs info,
          br_Eip2930Txs = bi_Eip2930Txs info, br_Eip4844Txs = bi_Eip4844Txs info,
          br_Eip7702Txs = bi_Eip7702Txs info, br_OutputHex = er_OutputHex r\<rparr>)"

definition runUnit :: "bench_unit \<Rightarrow> emuRunner \<Rightarrow> string \<Rightarrow> int \<Rightarrow> BlockResult res" where
  "runUnit u run target elapsed =
     (case un_Encode u () of
        (enc, Some e) \<Rightarrow>
          if is_panic e then Inl e
          else Inr (unit_row u target elapsed enc zero_EmuResult (Some e))
      | (enc, None) \<Rightarrow>
          (case run (en_Input enc) of (r, runErr) \<Rightarrow> Inr (unit_row u target elapsed enc r runErr)))"

section \<open>The pool\<close>

datatype worker = Started | Running "bench_unit list" "BlockResult list"

record run_config =
  rc_env :: bench_env
  rc_jobs :: "fileJob list"
  rc_run :: emuRunner
  rc_target :: string
  rc_parallelism :: nat
  rc_elapsed :: "nat \<Rightarrow> nat \<Rightarrow> int"

record run_state =
  rn_next :: nat
  rn_workers :: "nat \<Rightarrow> worker option"
  rn_perFile :: "BlockResult list list"
  rn_done :: int
  rn_total :: int
  rn_crashed :: "go_error option"

definition run_init :: "run_config \<Rightarrow> run_state" where
  "run_init C =
     \<lparr>rn_next = 0, rn_workers = (\<lambda>_. None), rn_perFile = replicate (length (rc_jobs C)) [],
      rn_done = 0, rn_total = int (length (rc_jobs C)), rn_crashed = None\<rparr>"

definition addUnits :: "nat \<Rightarrow> run_state \<Rightarrow> run_state" where
  "addUnits n s = s\<lparr>rn_total := rn_total s + (int n - 1)\<rparr>"

definition set_worker :: "nat \<Rightarrow> worker option \<Rightarrow> run_state \<Rightarrow> run_state" where
  "set_worker i w s = s\<lparr>rn_workers := (rn_workers s)(i := w)\<rparr>"

definition count_done :: "run_state \<Rightarrow> run_state" where
  "count_done s = s\<lparr>rn_done := rn_done s + 1\<rparr>"

inductive bench_step :: "run_config \<Rightarrow> run_state \<Rightarrow> run_state \<Rightarrow> bool" for C where
  start: "\<lbrakk>rn_crashed s = None; rn_next s < length (rc_jobs C);
      card (dom (rn_workers s)) < rc_parallelism C\<rbrakk> \<Longrightarrow>
    bench_step C s ((set_worker (rn_next s) (Some Started) s)\<lparr>rn_next := rn_next s + 1\<rparr>)"
| skip_file: "\<lbrakk>rn_crashed s = None; rn_workers s i = Some Started;
      expand (rc_env C) (rc_jobs C ! i) = Inl e\<rbrakk> \<Longrightarrow>
    bench_step C s (count_done (set_worker i None s))"
| expanded: "\<lbrakk>rn_crashed s = None; rn_workers s i = Some Started;
      expand (rc_env C) (rc_jobs C ! i) = Inr us\<rbrakk> \<Longrightarrow>
    bench_step C s (addUnits (length us) (set_worker i (Some (Running us [])) s))"
| unit_done: "\<lbrakk>rn_crashed s = None; rn_workers s i = Some (Running (u # us) out);
      runUnit u (rc_run C) (rc_target C) (rc_elapsed C i (length out)) = Inr r\<rbrakk> \<Longrightarrow>
    bench_step C s (count_done (set_worker i (Some (Running us (out @ [r]))) s))"
| unit_panics: "\<lbrakk>rn_crashed s = None; rn_workers s i = Some (Running (u # us) out);
      runUnit u (rc_run C) (rc_target C) (rc_elapsed C i (length out)) = Inl e\<rbrakk> \<Longrightarrow>
    bench_step C s (s\<lparr>rn_crashed := Some e\<rparr>)"
| file_done: "\<lbrakk>rn_crashed s = None; rn_workers s i = Some (Running [] out)\<rbrakk> \<Longrightarrow>
    bench_step C s ((set_worker i None s)\<lparr>rn_perFile := (rn_perFile s)[i := out]\<rparr>)"

inductive bench_reach :: "run_config \<Rightarrow> run_state \<Rightarrow> bool" for C where
  init: "bench_reach C (run_init C)"
| step: "bench_reach C s \<Longrightarrow> bench_step C s s' \<Longrightarrow> bench_reach C s'"

inductive_cases bench_stepE: "bench_step C s s'"

text \<open>\<open>wg.Wait\<close> returns when the loop is over and every goroutine has ended.\<close>

definition run_finished :: "run_config \<Rightarrow> run_state \<Rightarrow> bool" where
  "run_finished C s \<longleftrightarrow>
     rn_crashed s = None \<and> rn_next s = length (rc_jobs C) \<and> rn_workers s = (\<lambda>_. None)"

definition run_results :: "run_state \<Rightarrow> BlockResult list" where
  "run_results s = concat (rn_perFile s)"

section \<open>What a file yields\<close>

text \<open>The rows of a file when its units run alone, one after the other.\<close>

fun unit_rows :: "run_config \<Rightarrow> nat \<Rightarrow> nat \<Rightarrow> bench_unit list \<Rightarrow> BlockResult list res" where
  "unit_rows C i k [] = Inr []"
| "unit_rows C i k (u # us) =
     res_bind (runUnit u (rc_run C) (rc_target C) (rc_elapsed C i k)) (\<lambda>r.
     res_bind (unit_rows C i (Suc k) us) (\<lambda>rs. Inr (r # rs)))"

definition file_rows :: "run_config \<Rightarrow> nat \<Rightarrow> BlockResult list res" where
  "file_rows C i =
     (case expand (rc_env C) (rc_jobs C ! i) of Inl _ \<Rightarrow> Inr [] | Inr us \<Rightarrow> unit_rows C i 0 us)"

lemma unit_rows_snoc:
  "unit_rows C i k (us @ [u]) =
     res_bind (unit_rows C i k us) (\<lambda>rs.
     res_bind (runUnit u (rc_run C) (rc_target C) (rc_elapsed C i (k + length us))) (\<lambda>r. Inr (rs @ [r])))"
proof (induction us arbitrary: k)
  case Nil
  then show ?case by (cases "runUnit u (rc_run C) (rc_target C) (rc_elapsed C i k)") simp_all
next
  case (Cons v us)
  then show ?case
    by (cases "runUnit v (rc_run C) (rc_target C) (rc_elapsed C i k)";
        cases "unit_rows C i (Suc k) us";
        cases "runUnit u (rc_run C) (rc_target C) (rc_elapsed C i (Suc (k + length us)))") simp_all
qed

lemma unit_rows_length: "unit_rows C i k us = Inr rs \<Longrightarrow> length rs = length us"
  by (induction us arbitrary: k rs) (auto simp: res_simps)

section \<open>Invariant of the pool\<close>

fun worker_ok :: "run_config \<Rightarrow> nat \<Rightarrow> worker \<Rightarrow> bool" where
  "worker_ok C i Started = True"
| "worker_ok C i (Running us out) =
     (\<exists>pre. expand (rc_env C) (rc_jobs C ! i) = Inr (pre @ us) \<and> unit_rows C i 0 pre = Inr out)"

fun pending :: "worker option \<Rightarrow> int" where
  "pending None = 0"
| "pending (Some Started) = 1"
| "pending (Some (Running us out)) = int (length us)"

definition pool_shape :: "run_config \<Rightarrow> run_state \<Rightarrow> bool" where
  "pool_shape C s \<longleftrightarrow>
     rn_next s \<le> length (rc_jobs C) \<and> length (rn_perFile s) = length (rc_jobs C) \<and>
     dom (rn_workers s) \<subseteq> {..< rn_next s} \<and> card (dom (rn_workers s)) \<le> rc_parallelism C"

definition pool_rows :: "run_config \<Rightarrow> run_state \<Rightarrow> bool" where
  "pool_rows C s \<longleftrightarrow>
     (\<forall>i w. rn_workers s i = Some w \<longrightarrow> worker_ok C i w \<and> rn_perFile s ! i = []) \<and>
     (\<forall>i. rn_next s \<le> i \<longrightarrow> i < length (rc_jobs C) \<longrightarrow> rn_perFile s ! i = []) \<and>
     (\<forall>i < rn_next s. rn_workers s i = None \<longrightarrow> file_rows C i = Inr (rn_perFile s ! i))"

definition pool_progress :: "run_config \<Rightarrow> run_state \<Rightarrow> bool" where
  "pool_progress C s \<longleftrightarrow>
     rn_total s - rn_done s =
       int (length (rc_jobs C) - rn_next s) + (\<Sum>i < length (rc_jobs C). pending (rn_workers s i))"

lemmas pool_defs = set_worker_def addUnits_def count_done_def

lemma sum_upd:
  fixes f :: "'a \<Rightarrow> int" and i n :: nat
  assumes "i < n"
  shows "(\<Sum>j < n. f (if j = i then x else m j)) = (\<Sum>j < n. f (m j)) - f (m i) + f x"
proof -
  have "(\<Sum>j < n. f (if j = i then x else m j)) = f x + (\<Sum>j \<in> {..< n} - {i}. f (if j = i then x else m j))"
    using assms by (subst sum.remove [of _ i]) auto
  also have "(\<Sum>j \<in> {..< n} - {i}. f (if j = i then x else m j)) = (\<Sum>j \<in> {..< n} - {i}. f (m j))"
    by (rule sum.cong) auto
  also have "\<dots> = (\<Sum>j < n. f (m j)) - f (m i)"
    using assms by (subst (2) sum.remove [of _ i]) auto
  finally show ?thesis by simp
qed

lemma shape_worker_bound:
  "pool_shape C s \<Longrightarrow> rn_workers s i = Some w \<Longrightarrow> i < rn_next s \<and> i < length (rc_jobs C)"
  unfolding pool_shape_def by (meson domI lessThan_iff less_le_trans subsetD)

lemma shape_fresh: "pool_shape C s \<Longrightarrow> rn_workers s (rn_next s) = None"
  using shape_worker_bound [of C s "rn_next s"] by (cases "rn_workers s (rn_next s)") auto

lemma finite_workers: "pool_shape C s \<Longrightarrow> finite (dom (rn_workers s))"
  unfolding pool_shape_def by (meson finite_lessThan finite_subset)

lemma step_shape:
  assumes "bench_step C s s'" "pool_shape C s"
  shows "pool_shape C s'"
  using assms(1)
proof (cases rule: bench_step.cases)
  case start
  then show ?thesis
    using assms(2) shape_fresh [OF assms(2)] finite_workers [OF assms(2)]
    by (auto simp: pool_shape_def pool_defs card_insert_if)
next
  case (expanded i us)
  then show ?thesis
    using assms(2) shape_worker_bound [OF assms(2)]
    by (auto simp: pool_shape_def pool_defs card_insert_if finite_workers [OF assms(2)])
next
  case (unit_done i u us out r)
  then show ?thesis
    using assms(2) shape_worker_bound [OF assms(2)]
    by (auto simp: pool_shape_def pool_defs card_insert_if finite_workers [OF assms(2)])
qed (use assms(2) finite_workers [OF assms(2)] in
      \<open>auto simp: pool_shape_def pool_defs intro: le_trans [OF card_Diff1_le]\<close>)

lemma step_progress:
  assumes "bench_step C s s'" "pool_shape C s" "pool_progress C s"
  shows "pool_progress C s'"
  using assms(1)
proof (cases rule: bench_step.cases)
  case start
  then show ?thesis
    using assms(3) shape_fresh [OF assms(2)]
    by (simp add: pool_progress_def pool_defs sum_upd of_nat_diff)
qed (use assms(3) shape_worker_bound [OF assms(2)] in
      \<open>simp_all add: pool_progress_def pool_defs sum_upd\<close>)

lemma step_rows:
  assumes "bench_step C s s'" "pool_shape C s" "pool_rows C s"
  shows "pool_rows C s'"
  using assms(1)
proof (cases rule: bench_step.cases)
  case start
  then show ?thesis using assms(3) by (auto simp: pool_rows_def pool_defs less_Suc_eq)
next
  case (skip_file i e)
  then show ?thesis
    using assms(3) by (auto simp: pool_rows_def pool_defs file_rows_def)
next
  case (expanded i us)
  then show ?thesis using assms(3) by (auto simp: pool_rows_def pool_defs)
next
  case (unit_done i u us out r)
  have "worker_ok C i (Running us (out @ [r]))"
  proof -
    obtain pre where pre: "expand (rc_env C) (rc_jobs C ! i) = Inr (pre @ u # us)"
      "unit_rows C i 0 pre = Inr out"
      using assms(3) unit_done(3) by (fastforce simp: pool_rows_def)
    then have "unit_rows C i 0 (pre @ [u]) = Inr (out @ [r])"
      using unit_done(4) unit_rows_length [OF pre(2)] by (simp add: unit_rows_snoc)
    with pre(1) show ?thesis by (auto intro: exI [of _ "pre @ [u]"])
  qed
  with unit_done show ?thesis using assms(3) by (auto simp: pool_rows_def pool_defs)
next
  case (unit_panics i u us out e)
  then show ?thesis using assms(3) by (simp add: pool_rows_def)
next
  case (file_done i out)
  have "file_rows C i = Inr out"
    using assms(3) file_done(3) by (fastforce simp: pool_rows_def file_rows_def)
  moreover have "i < length (rn_perFile s)" "i < rn_next s"
    using shape_worker_bound [OF assms(2) file_done(3)] assms(2) by (simp_all add: pool_shape_def)
  ultimately show ?thesis
    using file_done assms(3) by (auto simp: pool_rows_def pool_defs nth_list_update)
qed

lemma reach_invariant: "bench_reach C s \<Longrightarrow> pool_shape C s \<and> pool_rows C s \<and> pool_progress C s"
proof (induction rule: bench_reach.induct)
  case init
  show ?case
    by (simp add: run_init_def pool_shape_def pool_rows_def pool_progress_def)
next
  case (step s s')
  then show ?case using step_shape step_rows step_progress by blast
qed

lemma pending_nonneg: "0 \<le> pending w"
  by (cases w rule: pending.cases) simp_all

lemma finished_rows:
  assumes "bench_reach C s" "run_finished C s" "i < length (rc_jobs C)"
  shows "file_rows C i = Inr (rn_perFile s ! i)"
  using reach_invariant [OF assms(1)] assms(2,3) by (simp add: pool_rows_def run_finished_def)

section \<open>Termination\<close>

definition units_of :: "run_config \<Rightarrow> nat \<Rightarrow> nat" where
  "units_of C i = (case expand (rc_env C) (rc_jobs C ! i) of Inl _ \<Rightarrow> 0 | Inr us \<Rightarrow> length us)"

definition file_work :: "run_config \<Rightarrow> run_state \<Rightarrow> nat \<Rightarrow> nat" where
  "file_work C s i =
     (if rn_next s \<le> i then 3 + units_of C i
      else (case rn_workers s i of
              None \<Rightarrow> 0 | Some Started \<Rightarrow> 2 + units_of C i | Some (Running us out) \<Rightarrow> 1 + length us))"

definition steps_left :: "run_config \<Rightarrow> run_state \<Rightarrow> nat" where
  "steps_left C s =
     (if rn_crashed s = None then 1 + (\<Sum>i < length (rc_jobs C). file_work C s i) else 0)"

lemma sum_less_at:
  fixes f g :: "nat \<Rightarrow> nat"
  assumes "i < n" "g i < f i" "\<And>j. j \<noteq> i \<Longrightarrow> g j = f j"
  shows "(\<Sum>j < n. g j) < (\<Sum>j < n. f j)"
proof (rule sum_strict_mono_ex1)
  show "\<forall>j \<in> {..< n}. g j \<le> f j" using assms(2,3) by (metis le_eq_less_or_eq)
  show "\<exists>j \<in> {..< n}. g j < f j" using assms(1,2) by blast
qed simp

lemma step_decreases:
  assumes "bench_step C s s'" "pool_shape C s"
  shows "steps_left C s' < steps_left C s"
proof -
  have less: "steps_left C s' < steps_left C s"
    if "rn_crashed s = None" "i < length (rc_jobs C)" "file_work C s' i < file_work C s i"
      "\<And>j. j \<noteq> i \<Longrightarrow> file_work C s' j = file_work C s j" for i
    using that sum_less_at [of i _ "file_work C s'" "file_work C s"] by (simp add: steps_left_def)
  from assms(1) show ?thesis
  proof (cases rule: bench_step.cases)
    case start
    then show ?thesis
      by (intro less [of "rn_next s"]) (auto simp: file_work_def pool_defs)
  next
    case (skip_file i e)
    then show ?thesis
      using shape_worker_bound [OF assms(2), of i]
      by (intro less [of i]) (auto simp: file_work_def pool_defs)
  next
    case (expanded i us)
    then show ?thesis
      using shape_worker_bound [OF assms(2), of i]
      by (intro less [of i]) (auto simp: file_work_def pool_defs units_of_def)
  next
    case (unit_done i u us out r)
    then show ?thesis
      using shape_worker_bound [OF assms(2), of i]
      by (intro less [of i]) (auto simp: file_work_def pool_defs)
  next
    case (unit_panics i u us out e)
    then show ?thesis by (simp add: steps_left_def)
  next
    case (file_done i out)
    then show ?thesis
      using shape_worker_bound [OF assms(2), of i]
      by (intro less [of i]) (auto simp: file_work_def pool_defs)
  qed
qed

lemma worker_can_step:
  assumes "rn_crashed s = None" "rn_workers s i = Some w"
  shows "\<exists>s'. bench_step C s s'"
proof (cases w)
  case Started
  with assms show ?thesis
    by (cases "expand (rc_env C) (rc_jobs C ! i)") (blast intro: bench_step.intros)+
next
  case (Running us out)
  with assms show ?thesis
  proof (cases us)
    case (Cons u vs)
    with Running assms show ?thesis
      by (cases "runUnit u (rc_run C) (rc_target C) (rc_elapsed C i (length out))")
        (blast intro: bench_step.intros)+
  qed (blast intro: bench_step.intros)
qed

lemma step_or_over:
  assumes "bench_reach C s" "0 < rc_parallelism C" "rn_crashed s = None" "\<not> run_finished C s"
  shows "\<exists>s'. bench_step C s s'"
proof (cases "\<exists>i w. rn_workers s i = Some w")
  case True
  then show ?thesis using worker_can_step assms(3) by blast
next
  case False
  then have none: "rn_workers s = (\<lambda>_. None)" by auto
  moreover have "rn_next s \<le> length (rc_jobs C)"
    using reach_invariant [OF assms(1)] by (simp add: pool_shape_def)
  ultimately have "rn_next s < length (rc_jobs C)" using assms(3,4) by (auto simp: run_finished_def)
  with none assms(2,3) show ?thesis using bench_step.start [of s C] by auto
qed

lemma run_ends:
  assumes "bench_reach C s" "0 < rc_parallelism C"
  shows "\<exists>s'. (bench_step C)\<^sup>*\<^sup>* s s' \<and> (run_finished C s' \<or> rn_crashed s' \<noteq> None)"
  using assms(1)
proof (induction "steps_left C s" arbitrary: s rule: less_induct)
  case less
  show ?case
  proof (cases "run_finished C s \<or> rn_crashed s \<noteq> None")
    case False
    then obtain s1 where s1: "bench_step C s s1" using step_or_over less.prems assms(2) by blast
    moreover have "steps_left C s1 < steps_left C s"
      using step_decreases [OF s1] reach_invariant [OF less.prems] by blast
    ultimately show ?thesis
      using less.hyps [of s1] bench_reach.step [OF less.prems s1]
      by (meson converse_rtranclp_into_rtranclp)
  qed blast
qed

lemma no_infinite_run:
  assumes "bench_reach C (f 0)"
  shows "\<exists>k. \<not> bench_step C (f k) (f (Suc k))"
proof (rule ccontr)
  assume "\<not> ?thesis"
  then have step: "bench_step C (f k) (f (Suc k))" for k by blast
  have reach: "bench_reach C (f k)" for k
    by (induction k) (blast intro: assms step bench_reach.step)+
  have "steps_left C (f k) + k \<le> steps_left C (f 0)" for k
  proof (induction k)
    case (Suc k)
    then show ?case
      using step_decreases [OF step [of k]] reach_invariant [OF reach [of k]] by linarith
  qed simp
  from this [of "Suc (steps_left C (f 0))"] show False by simp
qed

section \<open>Rows\<close>

text \<open>The result and the error on which a unit is judged.\<close>

definition unit_outcome :: "bench_unit \<Rightarrow> emuRunner \<Rightarrow> EmuResult \<times> go_error option" where
  "unit_outcome u run =
     (case un_Encode u () of (enc, Some e) \<Rightarrow> (zero_EmuResult, Some e) | (enc, None) \<Rightarrow> run (en_Input enc))"

lemma runUnit_row:
  "runUnit u run target el = Inr res \<Longrightarrow> unit_outcome u run = (r, err) \<Longrightarrow>
     res = unit_row u target el (fst (un_Encode u ())) r err"
  by (auto simp: runUnit_def unit_outcome_def split: prod.splits option.splits if_splits)

lemma runUnit_ok: "snd (un_Encode u ()) = None \<Longrightarrow> \<exists>res. runUnit u run target el = Inr res"
  by (auto simp: runUnit_def split: prod.splits)

context verify_rule
begin

lemma row_consistent:
  assumes "un_Verify u = verify" "res = unit_row u target el enc r err"
  shows "(br_Err res \<noteq> None \<longleftrightarrow> vd_Kind (br_Verdict res) = verdictError) \<and>
    (br_ValidationOK res \<longrightarrow> err = None \<and> br_Err res = None) \<and>
    (err \<noteq> None \<longrightarrow> vd_Kind (br_Verdict res) \<in> {verdictSkip, verdictError}) \<and>
    (err = None \<longrightarrow> br_Costs res = er_Costs r \<and> br_ExecError res = er_ExecErr r) \<and>
    (br_Err res \<noteq> None \<longrightarrow> br_Costs res = zero_CostReport \<and> br_ExecError res = [])"
proof -
  let ?v = "verify enc r err"
  have row: "br_Verdict res = ?v" "br_Err res = (if vd_Kind ?v = verdictError then err else None)"
    "br_ValidationOK res = OK ?v"
    "br_Costs res = (if vd_Kind ?v = verdictError then zero_CostReport else er_Costs r)"
    "br_ExecError res = (if vd_Kind ?v = verdictError then [] else er_ExecErr r)"
    using assms by (auto simp: unit_row_def Let_def)
  then show ?thesis
    using error_iff [of enc r err] pass_ran [of enc r err] measured_iff [of enc r err]
    by (cases "vd_Kind ?v") (auto simp: OK_def)
qed

end

section \<open>Properties\<close>

text \<open>
  C17: the worker pool returns the rows in discovery order, whatever the interleaving. In every
  reachable state at most the allowed number of workers run and the progress count does not exceed the
  announced total. When all workers have ended, the results are the concatenation, in the order of
  the files, of what each file yields when it is run alone, and the progress count is the total.
\<close>

theorem pool_results_in_order:
  assumes "bench_reach C s"
  shows "card (dom (rn_workers s)) \<le> rc_parallelism C \<and> rn_done s \<le> rn_total s \<and>
    (run_finished C s \<longrightarrow>
      rn_done s = rn_total s \<and>
      (\<exists>rows. list_all2 (\<lambda>i r. file_rows C i = Inr r) [0 ..< length (rc_jobs C)] rows \<and>
        run_results s = concat rows))"
proof -
  note inv = reach_invariant [OF assms]
  have "0 \<le> (\<Sum>i < length (rc_jobs C). pending (rn_workers s i))"
    by (simp add: pending_nonneg sum_nonneg)
  then have le: "rn_done s \<le> rn_total s" using inv by (simp add: pool_progress_def)
  have "rn_done s = rn_total s \<and>
      list_all2 (\<lambda>i r. file_rows C i = Inr r) [0 ..< length (rc_jobs C)] (rn_perFile s)"
    if "run_finished C s"
    using inv that finished_rows [OF assms that]
    by (auto simp: pool_progress_def pool_shape_def run_finished_def list_all2_conv_all_nth)
  with le inv show ?thesis by (auto simp: pool_shape_def run_results_def)
qed

text \<open>
  C20: a run of the pool always ends. With at least one worker allowed, every reachable state can be
  continued to one in which all files are done or a panic has ended the process, and no schedule
  keeps the pool running forever.
\<close>

theorem pool_run_ends:
  assumes "bench_reach C s" "0 < rc_parallelism C"
  shows "(\<exists>s'. (bench_step C)\<^sup>*\<^sup>* s s' \<and> (run_finished C s' \<or> rn_crashed s' \<noteq> None)) \<and>
    (\<forall>f. f 0 = s \<longrightarrow> (\<exists>k. \<not> bench_step C (f k) (f (Suc k))))"
  using run_ends [OF assms] no_infinite_run [of C] assms(1) by blast

text \<open>
  C21: a row of the report never mixes outcomes. For every unit of a fixture file, of either format: the
  row has an error exactly when its verdict is an error, a validated row comes from a run without an
  error, a failed load, encoding or run is never counted as a pass or a validation failure, a measured
  row carries the costs of its run, and an error row carries no costs.
\<close>

theorem row_outcomes_exclusive:
  assumes "expand E j = Inr us" "u \<in> set us" "runUnit u run target el = Inr res"
    and "unit_outcome u run = (r, err)"
  shows "(br_Err res \<noteq> None \<longleftrightarrow> vd_Kind (br_Verdict res) = verdictError) \<and>
    (br_ValidationOK res \<longrightarrow> err = None \<and> br_Err res = None) \<and>
    (err \<noteq> None \<longrightarrow> vd_Kind (br_Verdict res) \<in> {verdictSkip, verdictError}) \<and>
    (err = None \<longrightarrow> br_Costs res = er_Costs r \<and> br_ExecError res = er_ExecErr r) \<and>
    (br_Err res \<noteq> None \<longrightarrow> br_Costs res = zero_CostReport \<and> br_ExecError res = [])"
  using verify_rule.row_consistent [OF expand_rules [OF assms(1,2)] refl runUnit_row [OF assms(3,4)]] .

section \<open>A run\<close>

definition sample_zkevm_json :: json where
  "sample_zkevm_json =
     JObj [(''t'', JObj [(''blocks'', JArr [JObj [(''statelessInputBytes'', JStr ''0x00''),
                                            (''statelessOutputBytes'', JStr ''0x0001'')]])])]"

definition sample_case :: ZkevmTestCase where
  "sample_case =
     \<lparr>zc_Name = ''t'', zc_Network = [],
      zc_Blocks = [\<lparr>zb_BlockHeader = \<lparr>zh_Number = [], zh_GasUsed = []\<rparr>, zb_Transactions = [],
                    zb_StatelessInputBytes = ''0x00'', zb_StatelessOutputBytes = ''0x0001'',
                    zb_ExpectException = []\<rparr>]\<rparr>"

definition sample_job :: fileJob where
  "sample_job = \<lparr>fj_Path = ''f.json'', fj_Kind = FormatZkevm, fj_Suite = ''.'', fj_Bytes = 5\<rparr>"

definition sample_env :: bench_env where
  "sample_env =
     \<lparr>be_geth = sample_geth, be_syntax = (\<lambda>_. Inr sample_zkevm_json), be_order = (\<lambda>_ xs. xs),
      be_read = (\<lambda>_. Inr ''x'')\<rparr>"

definition sample_run :: run_config where
  "sample_run =
     \<lparr>rc_env = sample_env, rc_jobs = [sample_job],
      rc_run = (\<lambda>_. (zero_EmuResult\<lparr>er_OutputHex := ''000100''\<rparr>, None)),
      rc_target = ''zisk'', rc_parallelism = 1, rc_elapsed = (\<lambda>_ _. 7)\<rparr>"

lemma sample_load:
  "LoadZkevmFile (\<lambda>xs. xs) (\<lambda>_. Inr sample_zkevm_json) ''f.json'' (Inr ''x'') = Inr [sample_case]"
  by code_simp

lemma sample_expand: "expand sample_env sample_job = Inr [eest_unit sample_job sample_case 0]"
  using sample_load
  by (simp add: expand_def expandEEST_def sample_env_def sample_job_def)
    (simp add: sample_case_def)

lemma sample_unit:
  "\<exists>res. runUnit (eest_unit sample_job sample_case 0) run target el = Inr res"
proof -
  have "snd (encodeEEST (zc_Blocks sample_case ! 0)) = None" by code_simp
  then show ?thesis by (intro runUnit_ok) (simp add: eest_unit_def Let_def)
qed

lemma sample_finishes_with:
  assumes "C = sample_run\<lparr>rc_parallelism := Suc n, rc_elapsed := el, rc_env := sample_env\<lparr>be_order := order\<rparr>\<rparr>"
    and "key_order order"
  shows "\<exists>s. bench_reach C s \<and> run_finished C s \<and> length (run_results s) = 1"
proof -
  have same: "rc_run C = rc_run sample_run" "rc_jobs C = [sample_job]" "0 < rc_parallelism C"
    by (simp_all add: assms(1) sample_run_def)
  have "key_order (be_order sample_env)" by (simp add: key_order_def sample_env_def)
  then have expand: "expand (rc_env C) j = expand sample_env j" for j
    using expand_order assms by simp
  let ?u = "eest_unit sample_job sample_case 0"
  obtain res where res: "runUnit ?u (rc_run C) (rc_target C)
      (rc_elapsed C 0 (length [])) = Inr res" using sample_unit by blast
  define s0 where "s0 = run_init C"
  define s1 where "s1 = (set_worker 0 (Some Started) s0)\<lparr>rn_next := 1\<rparr>"
  define s2 where "s2 = addUnits 1 (set_worker 0 (Some (Running [?u] [])) s1)"
  define s3 where "s3 = count_done (set_worker 0 (Some (Running [] ([] @ [res]))) s2)"
  define s4 where "s4 = (set_worker 0 None s3)\<lparr>rn_perFile := (rn_perFile s3)[0 := [res]]\<rparr>"
  note defs = s0_def s1_def s2_def s3_def s4_def run_init_def pool_defs
  have "bench_step C s0 s1"
    using bench_step.start [of s0 C]
    by (simp add: s1_def) (simp add: s0_def run_init_def same)
  moreover have "bench_step C s1 s2"
    using bench_step.expanded [of s1 0 C "[?u]"] sample_expand
    by (simp add: s2_def) (simp add: s1_def s0_def run_init_def pool_defs same expand)
  moreover have "bench_step C s2 s3"
    unfolding s3_def using res
    by (intro bench_step.unit_done [where u = ?u]) (simp_all add: s2_def s1_def s0_def run_init_def pool_defs)
  moreover have "bench_step C s3 s4"
    unfolding s4_def
    by (intro bench_step.file_done) (simp_all add: s3_def s2_def s1_def s0_def run_init_def pool_defs)
  ultimately have "bench_reach C s4"
    unfolding s0_def by (meson bench_reach.intros)
  moreover have "run_finished C s4" "length (run_results s4) = 1"
    by (simp_all add: defs run_finished_def run_results_def same fun_eq_iff)
  ultimately show ?thesis by blast
qed

lemma sample_finishes:
  "\<exists>s. bench_reach sample_run s \<and> run_finished sample_run s \<and> length (run_results s) = 1"
  by (rule sample_finishes_with [where n = 0 and el = "rc_elapsed sample_run" and order = "be_order sample_env"])
    (simp_all add: sample_run_def key_order_def sample_env_def)

theorem pool_results_in_order_witness:
  "\<exists>s. bench_reach sample_run s \<and> rn_done s = rn_total s \<and> length (run_results s) = 1"
proof -
  obtain s where s: "bench_reach sample_run s" "run_finished sample_run s" "length (run_results s) = 1"
    using sample_finishes by blast
  with pool_results_in_order [OF s(1)] show ?thesis by blast
qed

theorem pool_run_ends_witness:
  "\<exists>s. (bench_step sample_run)\<^sup>*\<^sup>* (run_init sample_run) s \<and>
     (run_finished sample_run s \<or> rn_crashed s \<noteq> None)"
  using pool_run_ends [OF bench_reach.init [of sample_run]] by (simp add: sample_run_def)

theorem row_outcomes_exclusive_witness:
  "\<exists>res. runUnit (eest_unit sample_job sample_case 0) (\<lambda>_. (zero_EmuResult, Some (Errorf ''exit status 1'')))
      ''zisk'' 7 = Inr res \<and> vd_Kind (br_Verdict res) \<in> {verdictSkip, verdictError}"
proof -
  let ?run = "\<lambda>_ :: bytes. (zero_EmuResult, Some (Errorf ''exit status 1''))"
  obtain res where res: "runUnit (eest_unit sample_job sample_case 0) ?run ''zisk'' 7 = Inr res"
    using sample_unit by blast
  have "snd (encodeEEST (zc_Blocks sample_case ! 0)) = None" by code_simp
  then have "unit_outcome (eest_unit sample_job sample_case 0) ?run =
      (zero_EmuResult, Some (Errorf ''exit status 1''))"
    by (auto simp: unit_outcome_def eest_unit_def Let_def split: prod.splits)
  from row_outcomes_exclusive [OF sample_expand _ res this] res show ?thesis by auto
qed

end
