(* ===== verification/Bench_Stats.thy ===== *)
theory Bench_Stats
  imports Bench_Run "HOL-Library.Product_Lexorder"
begin

text \<open>
  The order and the statistics of \<open>bench/main.go\<close>: sorting rows, the cost statistics, the split by gas
  and the numbers of the printed summary. \<open>sort.SliceStable\<close> is insertion sort, which is what Go runs
  on up to twenty elements; where the comparison is an order, every stable sort gives the same rows.
\<close>

section \<open>Sorting\<close>

text \<open>
  \<open>sort_back x rs\<close> moves \<open>x\<close> towards the front while it is less than its neighbour; \<open>rs\<close> is the sorted
  part, its last element first.
\<close>

fun sort_back :: "('a \<Rightarrow> 'a \<Rightarrow> bool) \<Rightarrow> 'a \<Rightarrow> 'a list \<Rightarrow> 'a list" where
  "sort_back lt x [] = [x]"
| "sort_back lt x (y # rs) = (if lt x y then y # sort_back lt x rs else x # y # rs)"

definition sort_SliceStable :: "('a \<Rightarrow> 'a \<Rightarrow> bool) \<Rightarrow> 'a list \<Rightarrow> 'a list" where
  "sort_SliceStable lt xs = rev (fold (sort_back lt) xs [])"

definition row_less :: "BlockResult \<Rightarrow> BlockResult \<Rightarrow> bool" where
  "row_less a b =
     (if br_Kind a = FormatZkevm \<or> br_Kind b = FormatZkevm
      then if br_Suite a \<noteq> br_Suite b then br_Suite a < br_Suite b
           else if br_Label a \<noteq> br_Label b then br_Label a < br_Label b
           else br_BlockNum a < br_BlockNum b
      else br_BlockNum a < br_BlockNum b)"

definition sortResults :: "BlockResult list \<Rightarrow> BlockResult list" where
  "sortResults rs = sort_SliceStable row_less rs"

section \<open>Statistics\<close>

record costStats =
  cs_Min :: u64
  cs_P50 :: u64
  cs_Max :: u64
  cs_Avg :: u64

definition computeStats :: "u64 list \<Rightarrow> costStats" where
  "computeStats vals =
     (if length vals = 0 then \<lparr>cs_Min = 0, cs_P50 = 0, cs_Max = 0, cs_Avg = 0\<rparr>
      else let sorted = sort vals;
               sum = fold (\<lambda>v s. s + v) sorted 0
           in \<lparr>cs_Min = sorted ! 0, cs_P50 = sorted ! (length sorted div 2),
               cs_Max = sorted ! (length sorted - 1), cs_Avg = sum div of_nat (length sorted)\<rparr>)"

definition partitionByGas :: "BlockResult list \<Rightarrow> BlockResult list \<times> BlockResult list" where
  "partitionByGas good = (filter (\<lambda>r. br_GasUsed r \<noteq> 0) good, filter (\<lambda>r. br_GasUsed r = 0) good)"

definition cost_columns :: "(string \<times> (CostReport \<Rightarrow> u64)) list" where
  "cost_columns =
     [(''BASE'', cr_Base), (''MAIN'', cr_Main), (''OPCODES'', cr_Opcodes),
      (''PRECOMPILES'', cr_Precompiles), (''MEMORY'', cr_Memory), (''TOTAL'', cr_Total)]"

definition stat_rows :: "string \<Rightarrow> BlockResult list \<Rightarrow> (string \<times> costStats) list" where
  "stat_rows target good =
     (if target = ''openvm''
      then [(''INSTRUCTIONS'', computeStats (map (\<lambda>r. cr_Instructions (br_Costs r)) good))]
      else map (\<lambda>(label, fn). (label, computeStats (map (\<lambda>r. fn (br_Costs r)) good))) cost_columns)"

text \<open>
  What \<open>printSummary\<close> prints: the counts, the split when there are units without gas, the table, and
  the row of the units without gas.
\<close>

record summary =
  sm_Good :: nat
  sm_Total :: nat
  sm_Validated :: int
  sm_Split :: "(nat \<times> nat) option"
  sm_Rows :: "(string \<times> costStats) list"
  sm_ZeroGas :: "(nat \<times> costStats) option"

definition printSummary :: "BlockResult list \<Rightarrow> nat \<Rightarrow> nat \<Rightarrow> string \<Rightarrow> summary" where
  "printSummary good allCount validationFailures target =
     (let validated = int (length good) - int validationFailures;
          (worked, empty) = partitionByGas good;
          shown = (if 0 < length empty then worked else good)
      in \<lparr>sm_Good = length good, sm_Total = allCount, sm_Validated = validated,
          sm_Split = (if 0 < length empty then Some (length worked, length empty) else None),
          sm_Rows = stat_rows target shown,
          sm_ZeroGas = (if target \<noteq> ''openvm'' \<and> 0 < length empty
                        then Some (length empty, computeStats (map (\<lambda>r. cr_Total (br_Costs r)) empty))
                        else None)\<rparr>)"

text \<open>Suites in order with their median total cost; the order of Go's map does not matter.\<close>

definition suiteMedians :: "BlockResult list \<Rightarrow> string list \<times> u64 list" where
  "suiteMedians good =
     (let names = sort (remdups (map br_Suite good))
      in (names,
          map (\<lambda>s. cs_P50 (computeStats (map (\<lambda>r. cr_Total (br_Costs r)) (filter (\<lambda>r. br_Suite r = s) good))))
            names))"

section \<open>Lemmas on sorting\<close>

lemma mset_sort_back [simp]: "mset (sort_back lt x rs) = add_mset x (mset rs)"
  by (induction rs) auto

lemma set_sort_back [simp]: "set (sort_back lt x rs) = insert x (set rs)"
  by (metis mset_sort_back set_mset_add_mset_insert set_mset_mset)

lemma mset_fold_sort_back: "mset (fold (sort_back lt) xs rs) = mset xs + mset rs"
  by (induction xs arbitrary: rs) auto

lemma sort_back_sorted:
  assumes "\<And>y. y \<in> set rs \<Longrightarrow> lt x y = (key x < (key y :: 'k :: linorder))"
    and "sorted (map key (rev rs))"
  shows "sorted (map key (rev (sort_back lt x rs)))"
  using assms by (induction rs) (auto simp: sorted_append)

lemma sort_back_stable:
  assumes "\<And>y. y \<in> set rs \<Longrightarrow> lt x y = (key x < (key y :: 'k :: linorder))"
  shows "filter (\<lambda>z. k = key z) (rev (sort_back lt x rs)) =
    filter (\<lambda>z. k = key z) (rev rs) @ (if k = key x then [x] else [])"
  using assms by (induction rs) auto

lemma fold_sort_back:
  assumes "\<And>x y. x \<in> set xs \<union> set rs \<Longrightarrow> y \<in> set xs \<union> set rs \<Longrightarrow>
      lt x y = (key x < (key y :: 'k :: linorder))"
    and "sorted (map key (rev rs))"
  shows "sorted (map key (rev (fold (sort_back lt) xs rs))) \<and>
    filter (\<lambda>z. k = key z) (rev (fold (sort_back lt) xs rs)) =
      filter (\<lambda>z. k = key z) (rev rs @ xs)"
  using assms
proof (induction xs arbitrary: rs)
  case (Cons x xs)
  have "sorted (map key (rev (sort_back lt x rs)))"
    using Cons.prems by (intro sort_back_sorted) auto
  moreover have "filter (\<lambda>z. k = key z) (rev (sort_back lt x rs)) =
      filter (\<lambda>z. k = key z) (rev rs) @ (if k = key x then [x] else [])"
    using Cons.prems by (intro sort_back_stable) auto
  moreover have "\<And>a b. a \<in> set xs \<union> set (sort_back lt x rs) \<Longrightarrow>
      b \<in> set xs \<union> set (sort_back lt x rs) \<Longrightarrow> lt a b = (key a < key b)"
    using Cons.prems(1) by auto
  ultimately show ?case using Cons.IH [of "sort_back lt x rs"] by auto
qed simp

lemma sort_SliceStable_key:
  assumes "\<And>x y. x \<in> set xs \<Longrightarrow> y \<in> set xs \<Longrightarrow> lt x y = (key x < (key y :: 'k :: linorder))"
  shows "sort_SliceStable lt xs = sort_key key xs"
proof -
  have "sorted (map key (sort_SliceStable lt xs)) \<and>
      filter (\<lambda>z. k = key z) (sort_SliceStable lt xs) = filter (\<lambda>z. k = key z) xs" for k
    using fold_sort_back [of xs "[]" lt key k] assms by (simp add: sort_SliceStable_def)
  then show ?thesis
    by (intro properties_for_sort_key [symmetric])
      (auto simp: sort_SliceStable_def mset_fold_sort_back)
qed

definition row_key :: "BlockResult \<Rightarrow> string \<times> string \<times> u64" where
  "row_key r = (br_Suite r, br_Label r, br_BlockNum r)"

lemma sortResults_corpus:
  "\<forall>r \<in> set rs. br_Kind r \<noteq> FormatZkevm \<Longrightarrow> sortResults rs = sort_key br_BlockNum rs"
  unfolding sortResults_def by (rule sort_SliceStable_key) (auto simp: row_less_def)

lemma sortResults_zkevm:
  "\<forall>r \<in> set rs. br_Kind r = FormatZkevm \<Longrightarrow> sortResults rs = sort_key row_key rs"
  unfolding sortResults_def
  by (rule sort_SliceStable_key) (auto simp: row_less_def row_key_def less_prod_def)

lemma sort_key_mset_inj:
  fixes key :: "'a \<Rightarrow> 'k :: linorder"
  assumes "mset xs = mset ys" "distinct (map key xs)"
  shows "sort_key key xs = sort_key key ys"
proof (rule properties_for_sort_key)
  show "mset (sort_key key ys) = mset xs" using assms(1) by simp
  show "sorted (map key (sort_key key ys))" by simp
  fix k assume "k \<in> set (sort_key key ys)"
  then have k: "k \<in> set xs" using assms(1) mset_eq_setD by fastforce
  have one: "filter (\<lambda>x. key k = key x) zs = [k]" if "mset zs = mset xs" for zs
  proof -
    have d: "distinct (map key zs)" using that assms(2)
      by (metis mset_eq_imp_distinct_iff mset_map)
    have "k \<in> set zs" using k that mset_eq_setD by blast
    then obtain as bs where zs: "zs = as @ k # bs" by (auto simp: in_set_conv_decomp)
    have "filter (\<lambda>x. key k = key x) as = []" "filter (\<lambda>x. key k = key x) bs = []"
      using d unfolding zs by (force simp: filter_empty_conv image_iff)+
    with zs show ?thesis by simp
  qed
  show "filter (\<lambda>x. key k = key x) (sort_key key ys) = filter (\<lambda>x. key k = key x) xs"
    using one [of xs] one [of "sort_key key ys"] assms(1) by simp
qed

section \<open>Lemmas on statistics\<close>

lemma fold_plus_sum: "fold (\<lambda>v s. s + v) xs (a :: u64) = a + sum_list xs"
  by (induction xs arbitrary: a) (simp_all add: add.assoc)

lemma unat_sum_list:
  fixes xs :: "u64 list"
  shows "sum_list (map unat xs) < 2 ^ 64 \<Longrightarrow> unat (sum_list xs) = sum_list (map unat xs)"
proof (induction xs)
  case (Cons x xs)
  then have "unat (sum_list xs) = sum_list (map unat xs)" by simp
  with Cons.prems show ?case by (simp add: unat_add_lem [THEN iffD1])
qed simp

lemma count_below:
  fixes xs :: "'a :: linorder list"
  assumes "sorted xs" "k < length xs"
  shows "length (filter (\<lambda>v. v < xs ! k) xs) \<le> k" "length (filter (\<lambda>v. xs ! k < v) xs) < length xs - k"
proof -
  have split: "length (filter P xs) = length (filter P (take k xs)) + length (filter P (drop k xs))" for P
    by (metis append_take_drop_id filter_append length_append)
  have "\<forall>v \<in> set (drop k xs). xs ! k \<le> v"
    using assms sorted_nth_mono by (fastforce simp: in_set_conv_nth)
  then have "filter (\<lambda>v. v < xs ! k) (drop k xs) = []" by (auto simp: filter_empty_conv)
  then show "length (filter (\<lambda>v. v < xs ! k) xs) \<le> k"
    using split [of "\<lambda>v. v < xs ! k"] length_filter_le [of "\<lambda>v. v < xs ! k" "take k xs"] by simp
  have "\<forall>v \<in> set (take (Suc k) xs). v \<le> xs ! k"
    using assms sorted_nth_mono by (fastforce simp: in_set_conv_nth)
  then have "filter (\<lambda>v. xs ! k < v) (take (Suc k) xs) = []" by (auto simp: filter_empty_conv)
  then have "length (filter (\<lambda>v. xs ! k < v) xs) = length (filter (\<lambda>v. xs ! k < v) (drop (Suc k) xs))"
    by (metis append_Nil append_take_drop_id filter_append)
  also have "\<dots> \<le> length xs - Suc k" using length_filter_le le_trans length_drop by metis
  finally show "length (filter (\<lambda>v. xs ! k < v) xs) < length xs - k" using assms(2) by linarith
qed

lemma computeStats_sorted:
  assumes "vals \<noteq> []"
  shows "computeStats vals =
    \<lparr>cs_Min = sort vals ! 0, cs_P50 = sort vals ! (length vals div 2),
     cs_Max = sort vals ! (length vals - 1), cs_Avg = sum_list vals div of_nat (length vals)\<rparr>"
proof -
  have "sum_list (sort vals) = sum_list vals"
    by (metis mset_sort sum_mset_sum_list)
  with assms show ?thesis by (simp add: computeStats_def Let_def fold_plus_sum)
qed

lemma avg_exact:
  fixes vals :: "u64 list"
  assumes "vals \<noteq> []" "length vals < 2 ^ 64" "sum_list (map unat vals) < 2 ^ 64"
  shows "unat (sum_list vals div of_nat (length vals)) = sum_list (map unat vals) div length vals"
proof -
  have "unat (of_nat (length vals) :: u64) = length vals"
    using assms(2) by (simp add: unat_of_nat take_bit_nat_eq_self)
  then show ?thesis using unat_sum_list [OF assms(3)] by (simp add: unat_div)
qed

lemma sum_list_between:
  fixes f :: "'a \<Rightarrow> nat"
  assumes "\<forall>x \<in> set xs. a \<le> f x \<and> f x \<le> b"
  shows "a * length xs \<le> sum_list (map f xs)" "sum_list (map f xs) \<le> b * length xs"
  using assms by (induction xs) auto

text \<open>
  In a run with both formats the comparison is no order: three rows can each come before the next.
\<close>

lemma mixed_rows_cyclic:
  assumes "br_Kind a = FormatCorpus" "br_Suite a = ''z''" "br_BlockNum a = 1"
    and "br_Kind b = FormatCorpus" "br_Suite b = ''a''" "br_BlockNum b = 2"
    and "br_Kind c = FormatZkevm" "br_Suite c = ''m''"
  shows "row_less a b \<and> row_less b c \<and> row_less c a"
  using assms by (simp add: row_less_def)

section \<open>Properties\<close>

text \<open>
  The order of the report is reproducible. Rows of corpus runs are stably sorted by block number,
  rows of EEST runs by suite, label and block number; and an EEST run whose rows differ in one of the
  three comes out the same for every order in which the rows were produced.
\<close>

lemma sortResults_reproducible:
  "((\<forall>r \<in> set rs. br_Kind r \<noteq> FormatZkevm) \<longrightarrow> sortResults rs = sort_key br_BlockNum rs) \<and>
   ((\<forall>r \<in> set rs. br_Kind r = FormatZkevm) \<longrightarrow>
      sortResults rs = sort_key row_key rs \<and>
      (distinct (map row_key rs) \<longrightarrow>
        (\<forall>rs'. mset rs' = mset rs \<longrightarrow> sortResults rs' = sortResults rs)))"
proof (intro conjI impI allI)
  fix rs'
  assume zk: "\<forall>r \<in> set rs. br_Kind r = FormatZkevm" and d: "distinct (map row_key rs)"
    and m: "mset rs' = mset rs"
  from zk m have "\<forall>r \<in> set rs'. br_Kind r = FormatZkevm" by (metis mset_eq_setD)
  then show "sortResults rs' = sortResults rs"
    using sortResults_zkevm [of rs'] sortResults_zkevm [OF zk] sort_key_mset_inj [OF m [symmetric] d] by simp
qed (simp_all add: sortResults_corpus sortResults_zkevm)

definition sample_row :: "string \<Rightarrow> BlockResult" where
  "sample_row label =
     (unit_row (eest_unit sample_job sample_case 0) ''zisk'' 7 zero_encoded zero_EmuResult None)
       \<lparr>br_Label := label\<rparr>"

lemma sortResults_reproducible_example:
  "sortResults [sample_row ''b'', sample_row ''a''] = sortResults [sample_row ''a'', sample_row ''b''] \<and>
   sortResults [sample_row ''b'', sample_row ''a''] = [sample_row ''a'', sample_row ''b'']"
proof -
  have kind: "br_Kind (sample_row l) = FormatZkevm" for l
    by (simp add: sample_row_def unit_row_def eest_unit_def Let_def sample_job_def)
  have label: "br_Label (sample_row l) = l" "br_Suite (sample_row l) = ''.''" for l
    by (simp_all add: sample_row_def unit_row_def eest_unit_def sample_job_def Let_def)
  let ?rs = "[sample_row ''a'', sample_row ''b'']"
  have "distinct (map row_key ?rs)" by (simp add: row_key_def label)
  moreover have "\<forall>r \<in> set ?rs. br_Kind r = FormatZkevm" by (simp add: kind)
  moreover have "mset [sample_row ''b'', sample_row ''a''] = mset ?rs" by simp
  ultimately have "sortResults [sample_row ''b'', sample_row ''a''] = sortResults ?rs"
    "sortResults ?rs = sort_key row_key ?rs"
    using sortResults_reproducible [of ?rs] by blast+
  moreover have "row_key (sample_row ''a'') < row_key (sample_row ''b'')"
    by (simp add: row_key_def less_prod_def label)
  ultimately show ?thesis by simp
qed

text \<open>
  C35: the cost statistics are what they are called. The minimum and the maximum bound the values and are
  among them, the median is a value with at most half of the values below it and fewer than half, rounded
  up, above it; and the average is the rounded-down mean, between minimum and maximum, as long as the
  sum of the values fits into 64 bits.
\<close>

theorem computeStats_sound:
  assumes "vals \<noteq> []" "length vals < 2 ^ 64"
  shows "let s = computeStats vals in
    cs_Min s \<in> set vals \<and> cs_Max s \<in> set vals \<and> cs_P50 s \<in> set vals \<and>
    (\<forall>v \<in> set vals. cs_Min s \<le> v \<and> v \<le> cs_Max s) \<and>
    length (filter (\<lambda>v. v < cs_P50 s) vals) \<le> length vals div 2 \<and>
    length (filter (\<lambda>v. cs_P50 s < v) vals) < length vals - length vals div 2 \<and>
    (sum_list (map unat vals) < 2 ^ 64 \<longrightarrow>
      unat (cs_Avg s) = sum_list (map unat vals) div length vals \<and>
      cs_Min s \<le> cs_Avg s \<and> cs_Avg s \<le> cs_Max s)"
proof -
  define s where "s = computeStats vals"
  let ?n = "length vals" and ?xs = "sort vals"
  have n: "0 < ?n" "?n div 2 < ?n" using assms(1) by auto
  note s = computeStats_sorted [OF assms(1), folded s_def]
  have mem: "?xs ! i \<in> set vals" if "i < ?n" for i
    using that nth_mem [of i ?xs] by simp
  have bounds: "cs_Min s \<le> v \<and> v \<le> cs_Max s" if "v \<in> set vals" for v
  proof -
    have "v \<in> set ?xs" using that by simp
    then obtain i where i: "i < ?n" "v = ?xs ! i" unfolding in_set_conv_nth by auto
    then show ?thesis
      using sorted_nth_mono [OF sorted_sort [of vals], of 0 i] sorted_nth_mono [OF sorted_sort [of vals], of i "?n - 1"]
      by (simp add: s)
  qed
  have half: "length (filter P vals) = length (filter P ?xs)" for P
    by (rule mset_eq_length) (simp add: mset_filter)
  have avg: "unat (cs_Avg s) = sum_list (map unat vals) div ?n \<and> cs_Min s \<le> cs_Avg s \<and> cs_Avg s \<le> cs_Max s"
    if "sum_list (map unat vals) < 2 ^ 64"
  proof -
    have a: "unat (cs_Avg s) = sum_list (map unat vals) div ?n"
      using avg_exact [OF assms(1,2) that] by (simp add: s)
    have "\<forall>v \<in> set vals. unat (cs_Min s) \<le> unat v \<and> unat v \<le> unat (cs_Max s)"
      using bounds by (simp add: word_le_nat_alt)
    from sum_list_between [OF this] n(1)
    have "unat (cs_Min s) \<le> sum_list (map unat vals) div ?n \<and>
        sum_list (map unat vals) div ?n \<le> unat (cs_Max s)"
      by (metis div_le_mono nonzero_mult_div_cancel_right less_numeral_extra(3))
    with a show ?thesis by (simp add: word_le_nat_alt)
  qed
  show ?thesis
    unfolding Let_def s_def [symmetric]
    using mem [of 0] mem [of "?n div 2"] mem [of "?n - 1"] n bounds avg
      count_below [OF sorted_sort, of "?n div 2" vals]
    by (simp add: s half)
qed

theorem computeStats_sound_witness:
  "cs_P50 (computeStats [5, 1, 9]) \<in> {5, 1, 9} \<and> unat (cs_Avg (computeStats [5, 1, 9])) = 5"
  using computeStats_sound [of "[5, 1, 9]"] by (simp add: Let_def)

end
