(* ===== verification/Go_Time.thy ===== *)
theory Go_Time
  imports Go_Strings
begin

text \<open>
  \<open>time.Duration\<close> as the source uses it: a number of nanoseconds, its milliseconds, and the text of a
  duration rounded to milliseconds. Durations of more than 292 years, which do not fit into 64 bits,
  are left out.
\<close>

definition format_int :: "int \<Rightarrow> string" where
  "format_int i = (if i < 0 then CHR ''-'' # itoa (nat (- i)) else itoa (nat i))"

text \<open>\<open>Duration.Milliseconds\<close>: nanoseconds divided towards zero.\<close>

definition Milliseconds :: "int \<Rightarrow> int" where
  "Milliseconds d = (if d < 0 then - (- d div 1000000) else d div 1000000)"

text \<open>\<open>d.Round(time.Millisecond)\<close> in milliseconds, halfway cases away from zero.\<close>

definition round_ms :: "int \<Rightarrow> int" where
  "round_ms d = (if d < 0 then - ((- d + 500000) div 1000000) else (d + 500000) div 1000000)"

definition frac_text :: "nat \<Rightarrow> string" where
  "frac_text ms =
     (if ms = 0 then []
      else CHR ''.'' # rev (dropWhile (\<lambda>c. c = CHR ''0'')
             (rev [digit_char (ms div 100), digit_char (ms div 10 mod 10), digit_char (ms mod 10)])))"

text \<open>\<open>Duration.String\<close> of a whole number of milliseconds.\<close>

definition ms_text :: "nat \<Rightarrow> string" where
  "ms_text ms =
     (if ms = 0 then ''0s''
      else if ms < 1000 then itoa ms @ ''ms''
      else let s = ms div 1000; h = s div 3600; m = s div 60
           in (if 0 < h then itoa h @ ''h'' else []) @
              (if 0 < m then itoa (m mod 60) @ ''m'' else []) @
              itoa (s mod 60) @ frac_text (ms mod 1000) @ ''s'')"

definition round_text :: "int \<Rightarrow> string" where
  "round_text d = (if round_ms d < 0 then CHR ''-'' # ms_text (nat (- round_ms d)) else ms_text (nat (round_ms d)))"

lemma duration_examples:
  "round_text 1499999 = ''1ms''" "round_text 0 = ''0s''" "round_text 61500000000 = ''1m1.5s''"
  by (simp add: round_text_def round_ms_def ms_text_def frac_text_def format_digits.simps digit_char_def
      Let_def; code_simp)+

end
