(* ===== verification/Go_Files.thy ===== *)
theory Go_Files
  imports Prelude
begin

text \<open>
  Writing a new file, as \<open>writeCSV\<close> and \<open>writeReport\<close> of \<open>bench/main.go\<close> do: \<open>os.Create\<close>, then writes
  to the open file. The operating system is an argument; \<open>writer_law\<close> says what its documentation promises.
\<close>

text \<open>The contents of the files there are. A path names a file, and two paths may name the same one.\<close>

type_synonym disk = "string \<rightharpoonup> string"

text \<open>
  \<open>fw_create\<close> is \<open>os.Create\<close>; \<open>fw_write\<close> hands a whole text to the open file, in as many calls of
  \<open>Write\<close> as the caller makes, and returns the first error. A failed call may leave anything behind.
\<close>

record file_writer =
  fw_file :: "string \<Rightarrow> string"
  fw_create :: "string \<Rightarrow> disk \<Rightarrow> go_error option \<times> disk"
  fw_write :: "string \<Rightarrow> string \<Rightarrow> disk \<Rightarrow> go_error option \<times> disk"

text \<open>
  \<open>os.Create\<close> without an error leaves an empty file; a write without an error has appended all of
  its text, since \<open>Write\<close> returns an error whenever it wrote less. Nothing else changes.
\<close>

definition writer_law :: "file_writer \<Rightarrow> bool" where
  "writer_law W \<longleftrightarrow>
     (\<forall>path d d'. fw_create W path d = (None, d') \<longrightarrow> d' = d(fw_file W path \<mapsto> [])) \<and>
     (\<forall>path new d d' old. d (fw_file W path) = Some old \<longrightarrow> fw_write W path new d = (None, d') \<longrightarrow>
        d' = d(fw_file W path \<mapsto> old @ new))"

definition write_new :: "file_writer \<Rightarrow> string \<Rightarrow> string \<Rightarrow> disk \<Rightarrow> go_error option \<times> disk" where
  "write_new W path new d =
     (case fw_create W path d of
        (Some e, d') \<Rightarrow> (Some e, d')
      | (None, d') \<Rightarrow> fw_write W path new d')"

lemma write_new_ok:
  assumes "writer_law W" "write_new W path new d = (None, d')"
  shows "d' = d(fw_file W path \<mapsto> new)"
proof -
  obtain d0 where create: "fw_create W path d = (None, d0)" and wrote: "fw_write W path new d0 = (None, d')"
    using assms(2) by (auto simp: write_new_def split: prod.splits option.splits)
  have d0: "d0 = d(fw_file W path \<mapsto> [])"
    using assms(1) create unfolding writer_law_def by blast
  then have "d0 (fw_file W path) = Some []" by simp
  then have "d' = d0(fw_file W path \<mapsto> [] @ new)"
    using assms(1) wrote unfolding writer_law_def by blast
  then show ?thesis by (simp add: d0)
qed

text \<open>A file system on which every write succeeds.\<close>

definition sample_writer :: file_writer where
  "sample_writer =
     \<lparr>fw_file = (\<lambda>path. path), fw_create = (\<lambda>path d. (None, d(path \<mapsto> []))),
      fw_write = (\<lambda>path new d. (None, d(path \<mapsto> the (d path) @ new)))\<rparr>"

lemma sample_writer_law: "writer_law sample_writer"
  by (auto simp: writer_law_def sample_writer_def)

lemma write_new_sample: "write_new sample_writer path new d = (None, d(path \<mapsto> new))"
  by (simp add: write_new_def sample_writer_def)

end
