(* ===== verification/Bench_Csv.thy ===== *)
theory Bench_Csv
  imports Bench_Stats Go_Time Go_Files
begin

text \<open>
  \<open>writeCSV\<close> of \<open>bench/main.go\<close> with the writer of \<open>encoding/csv\<close> it uses, and a reader of RFC 4180
  files against which the written text is judged. Creating and writing a file are those of \<open>Go_Files\<close>.
\<close>

section \<open>The writer of encoding/csv\<close>

definition csv_special :: "char \<Rightarrow> bool" where
  "csv_special c \<longleftrightarrow> c \<in> {CHR '','', CHR 0x22, CHR 13, CHR 10}"

definition fieldNeedsQuotes :: "string \<Rightarrow> bool" where
  "fieldNeedsQuotes f \<longleftrightarrow>
     f \<noteq> [] \<and> (f = [CHR 0x5C, CHR ''.''] \<or> list_ex csv_special f \<or> 0 < lead_len space_seqs f)"

definition csv_quote :: "string \<Rightarrow> string" where
  "csv_quote f =
     [CHR 0x22] @ concat (map (\<lambda>c. if c = CHR 0x22 then [CHR 0x22, CHR 0x22] else [c]) f) @ [CHR 0x22]"

definition csv_field :: "string \<Rightarrow> string" where
  "csv_field f = (if fieldNeedsQuotes f then csv_quote f else f)"

definition csv_Write :: "string list \<Rightarrow> string" where
  "csv_Write cells = str_Join '','' (map csv_field cells) @ [CHR 10]"

section \<open>The columns\<close>

definition boolCell :: "bool \<Rightarrow> string" where
  "boolCell b = (if b then ''1'' else ''0'')"

definition csvHeader :: "string list" where
  "csvHeader =
     [''block_num'', ''tx_count'', ''gas_used'',
      ''legacy'', ''eip1559'', ''eip2930'', ''eip4844'', ''eip7702'',
      ''base'', ''main'', ''opcodes'', ''precompiles'', ''memory'', ''total'', ''elapsed_ms'',
      ''steps'', ''suite'', ''label'', ''payload_root'', ''success'']"

definition csv_row :: "BlockResult \<Rightarrow> string list" where
  "csv_row r =
     (let out = decodeStatelessOutput (br_OutputHex r); u = (\<lambda>v :: u64. itoa (unat v)); c = br_Costs r
      in [u (br_BlockNum r), itoa (br_TxCount r), u (br_GasUsed r),
          itoa (br_LegacyTxs r), itoa (br_Eip1559Txs r), itoa (br_Eip2930Txs r),
          itoa (br_Eip4844Txs r), itoa (br_Eip7702Txs r),
          u (cr_Base c), u (cr_Main c), u (cr_Opcodes c), u (cr_Precompiles c), u (cr_Memory c),
          u (cr_Total c), format_int (Milliseconds (br_Elapsed r)),
          u (cr_Steps c), br_Suite r, br_Label r,
          so_PayloadRoot out, boolCell (so_Success out)])"

text \<open>
  The text goes to the file through a buffer; an error of a flush in between ends a later \<open>Write\<close>, one of
  the last flush is what \<open>Error\<close> returns, so the first error is returned in either case.
\<close>

definition csv_text :: "BlockResult list \<Rightarrow> string" where
  "csv_text results = concat (map csv_Write (csvHeader # map csv_row results))"

definition writeCSV ::
  "file_writer \<Rightarrow> string \<Rightarrow> BlockResult list \<Rightarrow> disk \<Rightarrow> go_error option \<times> disk" where
  "writeCSV W path results d =
     (case fw_create W path d of
        (Some e, d') \<Rightarrow> (Some e, d')
      | (None, d') \<Rightarrow> fw_write W path (csv_text results) d')"

section \<open>A reader\<close>

datatype csv_mode = FieldStart | Plain | Quoted | Closed

text \<open>The field and the record being read are kept reversed, as are the records already read.\<close>

fun csv_read :: "csv_mode \<Rightarrow> string \<Rightarrow> string list \<Rightarrow> string list list \<Rightarrow> string \<Rightarrow> string list list" where
  "csv_read m f r out [] = rev out"
| "csv_read m f r out (c # cs) =
     (if m = Quoted then
        (if c = CHR 0x22 then csv_read Closed f r out cs else csv_read Quoted (c # f) r out cs)
      else if m = FieldStart \<and> c = CHR 0x22 then csv_read Quoted f r out cs
      else if m = Closed \<and> c = CHR 0x22 then csv_read Quoted (c # f) r out cs
      else if c = CHR '','' then csv_read FieldStart [] (rev f # r) out cs
      else if c = CHR 10 then csv_read FieldStart [] [] (rev (rev f # r) # out) cs
      else csv_read Plain (c # f) r out cs)"

definition csv_parse :: "string \<Rightarrow> string list list" where
  "csv_parse s = csv_read FieldStart [] [] [] s"

section \<open>Lemmas\<close>

definition ends_field :: "char \<Rightarrow> bool" where
  "ends_field d \<longleftrightarrow> d = CHR '','' \<or> d = CHR 10"

text \<open>What the reader does at the end of a field.\<close>

definition after_field :: "string \<Rightarrow> string list \<Rightarrow> string list list \<Rightarrow> char \<Rightarrow> string \<Rightarrow> string list list" where
  "after_field f r out d cs =
     (if d = CHR '','' then csv_read FieldStart [] (f # r) out cs
      else csv_read FieldStart [] [] (rev (f # r) # out) cs)"

lemma read_plain:
  assumes "\<not> list_ex csv_special f" "ends_field d"
  shows "csv_read Plain acc r out (f @ d # cs) = after_field (rev acc @ f) r out d cs"
  using assms
proof (induction f arbitrary: acc)
  case Nil
  then show ?case by (auto simp: ends_field_def after_field_def)
next
  case (Cons c f)
  then show ?case by (simp add: csv_special_def)
qed

lemma read_quoted:
  assumes "ends_field d"
  shows "csv_read Quoted acc r out
      (concat (map (\<lambda>c. if c = CHR 0x22 then [CHR 0x22, CHR 0x22] else [c]) f) @ CHR 0x22 # d # cs) =
    after_field (rev acc @ f) r out d cs"
  using assms
proof (induction f arbitrary: acc)
  case Nil
  then show ?case by (auto simp: ends_field_def after_field_def)
qed simp

lemma read_field:
  assumes "ends_field d"
  shows "csv_read FieldStart [] r out (csv_field f @ d # cs) = after_field f r out d cs"
proof (cases "fieldNeedsQuotes f")
  case True
  then show ?thesis
    using read_quoted [OF assms, of "[]" r out f cs] by (simp add: csv_field_def csv_quote_def)
next
  case False
  then have plain: "\<not> list_ex csv_special f" by (cases f) (auto simp: fieldNeedsQuotes_def)
  show ?thesis
  proof (cases f)
    case Nil
    then show ?thesis using False assms
      by (auto simp: csv_field_def ends_field_def after_field_def)
  next
    case (Cons c g)
    with plain have "c \<noteq> CHR 0x22" "c \<noteq> CHR '',''" "c \<noteq> CHR 10" "\<not> list_ex csv_special g"
      by (simp_all add: csv_special_def)
    with False Cons show ?thesis
      using read_plain [OF _ assms, of g "[c]" r out cs] by (simp add: csv_field_def)
  qed
qed

lemma read_fields:
  "cells \<noteq> [] \<Longrightarrow>
     csv_read FieldStart [] r out (str_Join '','' (map csv_field cells) @ CHR 10 # cs) =
     csv_read FieldStart [] [] ((rev r @ cells) # out) cs"
proof (induction cells arbitrary: r rule: induct_list012)
  case (2 f)
  have "ends_field (CHR 10)" by (simp add: ends_field_def)
  from read_field [OF this, of r out f cs] show ?case by (simp add: after_field_def)
next
  case (3 f g fs)
  have "ends_field (CHR '','')" by (simp add: ends_field_def)
  from read_field [OF this, of r out f "str_Join '','' (map csv_field (g # fs)) @ CHR 10 # cs"]
  show ?case using "3.IH"(2) [of "f # r"] by (simp add: after_field_def)
qed simp

lemma read_records:
  "list_all (\<lambda>rec. rec \<noteq> []) records \<Longrightarrow>
     csv_read FieldStart [] [] out (concat (map csv_Write records)) = rev out @ records"
proof (induction records arbitrary: out)
  case (Cons rec records)
  then show ?case
    using read_fields [of rec "[]" out "concat (map csv_Write records)"]
    by (simp add: csv_Write_def [of rec])
qed simp

lemma csv_row_nonempty: "csv_row r \<noteq> []"
  by (simp add: csv_row_def Let_def)

lemma csv_parse_report: "csv_parse (csv_text rows) = csvHeader # map csv_row rows"
proof -
  have "list_all (\<lambda>rec. rec \<noteq> []) (csvHeader # map csv_row rows)"
    by (auto simp: list_all_iff csv_row_nonempty csvHeader_def)
  then show ?thesis
    unfolding csv_parse_def csv_text_def using read_records [of "csvHeader # map csv_row rows" "[]"] by simp
qed

section \<open>Properties\<close>

text \<open>
  A CSV report can be read back. When \<open>writeCSV\<close> returns no error, the file holds a text that reads, whatever
  suites and labels contain (commas, quotes, line breaks), as the header followed by one record per row, in
  order, with the header's number of fields; the fields at the documented positions are the row's
  total cost and elapsed time, and the last two are the guest's payload root and verdict.
\<close>

lemma writeCSV_write_new: "writeCSV W path rows d = write_new W path (csv_text rows) d"
  by (simp add: writeCSV_def write_new_def)

lemma csv_report_roundtrip:
  assumes "writer_law W" "writeCSV W path rows d = (None, d')"
  shows "\<exists>text. d' = d(fw_file W path \<mapsto> text) \<and>
     csv_parse text = csvHeader # map csv_row rows \<and>
     list_all (\<lambda>rec. length rec = length csvHeader) (csv_parse text) \<and>
     (\<forall>i < length rows.
        csv_parse text ! Suc i ! 13 = itoa (unat (cr_Total (br_Costs (rows ! i)))) \<and>
        csv_parse text ! Suc i ! 14 = format_int (Milliseconds (br_Elapsed (rows ! i))) \<and>
        (\<forall>v pad. br_OutputHex (rows ! i) = hex_EncodeToString (encode_result v @ pad) \<longrightarrow>
           csv_parse text ! Suc i ! 18 = hex_EncodeToString (be_bytes 32 (unat (vr_root v))) \<and>
           csv_parse text ! Suc i ! 19 = (if vr_success v then ''1'' else ''0'')))"
proof (intro exI conjI)
  show "d' = d(fw_file W path \<mapsto> csv_text rows)"
    using write_new_ok [OF assms(1)] assms(2) by (simp add: writeCSV_write_new)
qed (auto simp: csv_parse_report list_all_iff csv_row_def csvHeader_def Let_def decode_result boolCell_def)

lemma csv_report_roundtrip_example:
  "\<exists>text. writeCSV sample_writer ''u.csv'' [sample_row ''a,b'', sample_row (quoted ''c'')] Map.empty =
      (None, [''u.csv'' \<mapsto> text]) \<and>
     csv_parse text = csvHeader # map csv_row [sample_row ''a,b'', sample_row (quoted ''c'')]"
  using csv_parse_report [of "[sample_row ''a,b'', sample_row (quoted ''c'')]"]
  by (intro exI conjI) (simp_all add: writeCSV_write_new write_new_sample)

end
