(* ===== verification/Bench_Report.thy ===== *)
theory Bench_Report
  imports Bench_Csv
begin

text \<open>
  The command \<open>bench\<close> of \<open>bench/main.go\<close>: what the flags lead to, the classification of results, and
  the data of the HTML report. Chart series are lists; \<open>toJS\<close> renders a missing list as the empty one.
  The template that lays the data out, the log lines and the time stamp are left out.
\<close>

section \<open>Flags\<close>

record bench_flags =
  bf_fixtures :: string
  bf_elf :: string
  bf_target :: string
  bf_zkvmPath :: string
  bf_jobs :: int
  bf_dryRun :: bool
  bf_maxSteps :: u64

record run_setup =
  su_Jobs :: "fileJob list"
  su_Skipped :: "skippedFile list"
  su_Opts :: Opts
  su_Target :: string
  su_Parallelism :: nat

datatype bench_plan = Usage | Fatalf string | Census found | Ready run_setup

definition zkvm_binary :: "bench_flags \<Rightarrow> string" where
  "zkvm_binary f =
     (if bf_zkvmPath f = [] then if bf_target f = ''openvm'' then ''zesu-openvm-runner'' else ''ziskemu''
      else bf_zkvmPath f)"

definition plan_run :: "bench_flags \<Rightarrow> found \<Rightarrow> bench_plan" where
  "plan_run f jobs_skipped =
     (case jobs_skipped of (jobs, skipped) \<Rightarrow>
        if length jobs = 0 then
          Fatalf (''no runnable JSON fixtures found in '' @ bf_fixtures f @ '' ('' @ itoa (length skipped) @
                  '' skipped)'')
        else (case (if bf_target f = ''openvm'' then find (\<lambda>j. fj_Kind j \<noteq> FormatCorpus) jobs else None) of
                Some j \<Rightarrow> Fatalf (fj_Path j @ '': --target openvm does not support '' @
                                 Format_String (fj_Kind j) @ '' fixtures'')
              | None \<Rightarrow>
                  Ready \<lparr>su_Jobs = jobs, su_Skipped = skipped,
                         su_Opts = \<lparr>op_ELF = bf_elf f, op_Bin = zkvm_binary f, op_MaxSteps = bf_maxSteps f,
                                    op_RequireCosts = False\<rparr>,
                         su_Target = bf_target f, su_Parallelism = nat (bf_jobs f)\<rparr>))"

definition plan_bench :: "file_system \<Rightarrow> bench_flags \<Rightarrow> bench_plan" where
  "plan_bench fs f =
     (if bf_fixtures f = [] then Usage
      else if bf_elf f = [] \<and> \<not> bf_dryRun f then Usage
      else if bf_target f \<noteq> ''zisk'' \<and> bf_target f \<noteq> ''openvm'' then
        Fatalf (''unknown target '' @ go_quote (bf_target f) @ '': must be zisk or openvm'')
      else if bf_jobs f < 1 then Fatalf (''--jobs must be at least 1, got '' @ format_int (bf_jobs f))
      else (case (if bf_dryRun f then Inr (False, 0) else fs_stat fs (bf_elf f)) of
              Inl e \<Rightarrow> Fatalf (''ELF not found at '' @ bf_elf f @ '': '' @ error_text e)
            | Inr _ \<Rightarrow>
                (case discover fs (bf_fixtures f) of
                   (_, Some e) \<Rightarrow> Fatalf (''collect fixtures: '' @ error_text e)
                 | (jobs_skipped, None) \<Rightarrow>
                     if bf_dryRun f then Census jobs_skipped else plan_run f jobs_skipped)))"

definition setup_runner :: "emu_world \<Rightarrow> run_setup \<Rightarrow> emuRunner" where
  "setup_runner W su input =
     (if su_Target su = ''openvm'' then RunOpenVM W (su_Opts su) input else runEmu W (su_Opts su) input)"

definition setup_config :: "bench_env \<Rightarrow> emu_world \<Rightarrow> (nat \<Rightarrow> nat \<Rightarrow> int) \<Rightarrow> run_setup \<Rightarrow> run_config" where
  "setup_config E W elapsed su =
     \<lparr>rc_env = E, rc_jobs = su_Jobs su, rc_run = setup_runner W su, rc_target = su_Target su,
      rc_parallelism = su_Parallelism su, rc_elapsed = elapsed\<rparr>"

section \<open>Classification\<close>

record classes =
  cl_Good :: "BlockResult list"
  cl_Failures :: "BlockResult list"
  cl_Skipped :: nat
  cl_Unverified :: nat

definition classify_row :: "BlockResult \<Rightarrow> classes \<Rightarrow> classes" where
  "classify_row r c =
     (case vd_Kind (br_Verdict r) of
        verdictSkip \<Rightarrow> c\<lparr>cl_Skipped := cl_Skipped c + 1\<rparr>
      | verdictError \<Rightarrow> c
      | verdictFail \<Rightarrow> c\<lparr>cl_Good := cl_Good c @ [r], cl_Failures := cl_Failures c @ [r]\<rparr>
      | verdictUnverified \<Rightarrow> c\<lparr>cl_Unverified := cl_Unverified c + 1, cl_Good := cl_Good c @ [r]\<rparr>
      | verdictPass \<Rightarrow> c\<lparr>cl_Good := cl_Good c @ [r]\<rparr>)"

definition classify :: "BlockResult list \<Rightarrow> classes" where
  "classify results =
     fold classify_row results \<lparr>cl_Good = [], cl_Failures = [], cl_Skipped = 0, cl_Unverified = 0\<rparr>"

section \<open>The data of the report\<close>

record skipRow =
  sk_Unit :: string
  sk_Suite :: string
  sk_Network :: string
  sk_Reason :: string

record rawBlockRow =
  rw_Unit :: string
  rw_Suite :: string
  rw_Network :: string
  rw_BlockNum :: u64
  rw_TxCount :: nat
  rw_GasUsed :: u64
  rw_Base :: u64
  rw_Main :: u64
  rw_Opcodes :: u64
  rw_Precompiles :: u64
  rw_Memory :: u64
  rw_Total :: u64
  rw_PayloadRoot :: string
  rw_Success :: bool
  rw_ChainID :: u64
  rw_SchemaID :: u16

record execFailedRow =
  xf_BlockNum :: u64
  xf_Name :: string
  xf_Unit :: string
  xf_Reason :: string

record validationFailRow =
  vf_BlockNum :: u64
  vf_Name :: string
  vf_Unit :: string
  vf_ExpectedSuccess :: bool
  vf_ExecError :: string
  vf_Reason :: string

record errorRow =
  ew_BlockNum :: u64
  ew_Name :: string
  ew_Unit :: string
  ew_ErrMsg :: string
  ew_Output :: string

record statRow =
  st_Label :: string
  st_Min :: u64
  st_P50 :: u64
  st_Max :: u64
  st_Avg :: u64

definition unitCell :: "BlockResult \<Rightarrow> string" where
  "unitCell r = (if br_Kind r = FormatZkevm then br_Label r else itoa (unat (br_BlockNum r)))"

definition suiteChartHeight :: "nat \<Rightarrow> nat" where
  "suiteChartHeight suites = (let h = suites * 30 + 90 in if h < 320 then 320 else h)"

definition maxChartUnits :: nat where
  "maxChartUnits = 1500"

definition exec_failed_rows :: "BlockResult list \<Rightarrow> execFailedRow list" where
  "exec_failed_rows results =
     sort_SliceStable (\<lambda>a b. xf_Unit a < xf_Unit b) (map (\<lambda>r. \<lparr>xf_BlockNum = br_BlockNum r, xf_Name = br_Name r, xf_Unit = unitCell r,
                                  xf_Reason = br_ExecError r\<rparr>)
       (filter (\<lambda>r. br_Err r = None \<and> br_ExecError r \<noteq> [] \<and> br_ValidationOK r) results))"

definition validation_fail_rows :: "BlockResult list \<Rightarrow> validationFailRow list" where
  "validation_fail_rows results =
     sort_SliceStable (\<lambda>a b. vf_Unit a < vf_Unit b) (map (\<lambda>r. \<lparr>vf_BlockNum = br_BlockNum r, vf_Name = br_Name r, vf_Unit = unitCell r,
                                  vf_ExpectedSuccess = br_ExpectedSuccess r, vf_ExecError = br_ExecError r,
                                  vf_Reason = vd_Reason (br_Verdict r)\<rparr>)
       (filter (\<lambda>r. br_Err r = None \<and> vd_Kind (br_Verdict r) = verdictFail) results))"

definition error_rows :: "BlockResult list \<Rightarrow> errorRow list" where
  "error_rows results =
     sort_SliceStable (\<lambda>a b. ew_Unit a < ew_Unit b) (map (\<lambda>r. \<lparr>ew_BlockNum = br_BlockNum r, ew_Name = br_Name r, ew_Unit = unitCell r,
                                  ew_ErrMsg = error_text (the (br_Err r)), ew_Output = br_ErrOutput r\<rparr>)
       (filter (\<lambda>r. br_Err r \<noteq> None) results))"

definition skip_rows :: "verdictKind \<Rightarrow> BlockResult list \<Rightarrow> skipRow list" where
  "skip_rows kind results =
     sort_SliceStable (\<lambda>a b. sk_Unit a < sk_Unit b) (map (\<lambda>r. \<lparr>sk_Unit = unitCell r, sk_Suite = br_Suite r, sk_Network = br_Network r,
                                  sk_Reason = vd_Reason (br_Verdict r)\<rparr>)
       (filter (\<lambda>r. vd_Kind (br_Verdict r) = kind) results))"

definition raw_row :: "BlockResult \<Rightarrow> rawBlockRow" where
  "raw_row r =
     (let out = decodeStatelessOutput (br_OutputHex r); c = br_Costs r
      in \<lparr>rw_Unit = unitCell r, rw_Suite = br_Suite r, rw_Network = br_Network r,
          rw_BlockNum = br_BlockNum r, rw_TxCount = br_TxCount r, rw_GasUsed = br_GasUsed r,
          rw_Base = cr_Base c, rw_Main = cr_Main c, rw_Opcodes = cr_Opcodes c,
          rw_Precompiles = cr_Precompiles c, rw_Memory = cr_Memory c, rw_Total = cr_Total c,
          rw_PayloadRoot = (if so_OK out then so_PayloadRoot out else []),
          rw_Success = (so_OK out \<and> so_Success out),
          rw_ChainID = (if so_OK out then so_ChainID out else 0),
          rw_SchemaID = (if so_OK out then so_SchemaID out else 0)\<rparr>)"

text \<open>The map from suite to index; a suite that is not in it has index 0.\<close>

fun store_index :: "nat \<times> string \<Rightarrow> (string \<Rightarrow> nat option) \<Rightarrow> string \<Rightarrow> nat option" where
  "store_index (i, n) m = m(n := Some i)"

definition suite_index :: "string list \<Rightarrow> string \<Rightarrow> nat" where
  "suite_index names s =
     (case fold store_index (enumerate 0 names) (\<lambda>_. None) s of None \<Rightarrow> 0 | Some i \<Rightarrow> i)"

datatype labels = UnitLabels "string list" | BlockNumbers "u64 list"

record reportData =
  rd_Target :: string
  rd_Total :: nat
  rd_Good :: nat
  rd_Failed :: nat
  rd_ValidationFailed :: nat
  rd_Skipped :: nat
  rd_Unverified :: nat
  rd_IsEEST :: bool
  rd_UnitColumn :: string
  rd_UnitAxis :: string
  rd_SuiteChartHeight :: nat
  rd_HasEmptyUnits :: bool
  rd_EmptyCount :: nat
  rd_GasUsed :: "u64 list"
  rd_UnitSuiteIdx :: "nat list"
  rd_Scaled :: bool
  rd_ScaleNote :: string
  rd_RankCosts :: "u64 list"
  rd_SuiteLabels :: "string list"
  rd_SuiteMedians :: "u64 list"
  rd_StatRows :: "statRow list"
  rd_Labels :: labels
  rd_ElapsedMs :: "u64 list"
  rd_InstructionCounts :: "u64 list"
  rd_TotalCosts :: "u64 list"
  rd_BaseCosts :: "u64 list"
  rd_MainCosts :: "u64 list"
  rd_OpCosts :: "u64 list"
  rd_PreCosts :: "u64 list"
  rd_MemCosts :: "u64 list"
  rd_ExecFailed :: "execFailedRow list"
  rd_ValidationFails :: "validationFailRow list"
  rd_Errors :: "errorRow list"
  rd_Skips :: "skipRow list"
  rd_Unverifieds :: "skipRow list"
  rd_RawBlocks :: "rawBlockRow list"

definition scale_note :: "nat \<Rightarrow> string" where
  "scale_note n =
     itoa n @ '' units exceeds the '' @ itoa maxChartUnits @
     ''-unit per-unit chart limit; showing the cost distribution and per-suite medians instead.''"

definition report_data :: "BlockResult list \<Rightarrow> BlockResult list \<Rightarrow> string \<Rightarrow> reportData" where
  "report_data good results target =
     (let isEEST = list_ex (\<lambda>r. br_Kind r = FormatZkevm) results;
          extract = (\<lambda>fn. map (\<lambda>r. fn (br_Costs r)) good);
          scaled = maxChartUnits < length good;
          (suiteNames, suiteMeds) = suiteMedians good;
          emptyCount = length (filter (\<lambda>r. br_GasUsed r = 0) good);
          execFailed = exec_failed_rows results;
          fails = validation_fail_rows results;
          skips = skip_rows verdictSkip results;
          unverifieds = skip_rows verdictUnverified results
      in \<lparr>rd_Target = target, rd_Total = length results, rd_Good = length good,
          rd_Failed = length execFailed, rd_ValidationFailed = length fails,
          rd_Skipped = length skips, rd_Unverified = length unverifieds, rd_IsEEST = isEEST,
          rd_UnitColumn = (if isEEST then ''Test'' else ''Block''),
          rd_UnitAxis = (if isEEST then ''Test'' else ''Block Number''),
          rd_SuiteChartHeight = suiteChartHeight (length suiteNames),
          rd_HasEmptyUnits = (0 < emptyCount), rd_EmptyCount = emptyCount,
          rd_GasUsed = map br_GasUsed good,
          rd_UnitSuiteIdx = map (\<lambda>r. suite_index suiteNames (br_Suite r)) good,
          rd_Scaled = scaled, rd_ScaleNote = (if scaled then scale_note (length good) else []),
          rd_RankCosts = (if scaled then sort (extract cr_Total) else []),
          rd_SuiteLabels = suiteNames, rd_SuiteMedians = (if scaled then suiteMeds else []),
          rd_StatRows = map (\<lambda>(label, s). \<lparr>st_Label = label, st_Min = cs_Min s, st_P50 = cs_P50 s,
                                           st_Max = cs_Max s, st_Avg = cs_Avg s\<rparr>) (stat_rows target good),
          rd_Labels = (if isEEST then UnitLabels (map br_Label good) else BlockNumbers (map br_BlockNum good)),
          rd_ElapsedMs = map (\<lambda>r. of_int (Milliseconds (br_Elapsed r))) good,
          rd_InstructionCounts = extract cr_Instructions,
          rd_TotalCosts = extract cr_Total, rd_BaseCosts = extract cr_Base, rd_MainCosts = extract cr_Main,
          rd_OpCosts = extract cr_Opcodes, rd_PreCosts = extract cr_Precompiles,
          rd_MemCosts = extract cr_Memory,
          rd_ExecFailed = execFailed, rd_ValidationFails = fails, rd_Errors = error_rows results,
          rd_Skips = skips, rd_Unverifieds = unverifieds, rd_RawBlocks = map raw_row good\<rparr>)"

text \<open>What \<open>main\<close> makes of the results: the sorted rows, the printed summary and the report.\<close>

definition bench_report ::
  "string \<Rightarrow> nat \<Rightarrow> BlockResult list \<Rightarrow> (BlockResult list \<times> summary option \<times> reportData) res" where
  "bench_report target nFiles results =
     (if length results = 0
      then Inl (Errorf (''no runnable units across '' @ itoa nFiles @ '' file(s)''))
      else let c = classify results; good = sortResults (cl_Good c)
           in Inr (good,
                   if 0 < length good
                   then Some (printSummary good (length results) (length (cl_Failures c)) target) else None,
                   report_data good results target))"

section \<open>Lemmas\<close>

definition measured :: "BlockResult \<Rightarrow> bool" where
  "measured r \<longleftrightarrow> vd_Kind (br_Verdict r) \<in> {verdictPass, verdictFail, verdictUnverified}"

lemma fold_classify:
  "fold classify_row results c =
     c\<lparr>cl_Good := cl_Good c @ filter measured results,
       cl_Failures := cl_Failures c @ filter (\<lambda>r. vd_Kind (br_Verdict r) = verdictFail) results,
       cl_Skipped := cl_Skipped c + length (filter (\<lambda>r. vd_Kind (br_Verdict r) = verdictSkip) results),
       cl_Unverified := cl_Unverified c +
         length (filter (\<lambda>r. vd_Kind (br_Verdict r) = verdictUnverified) results)\<rparr>"
proof (induction results arbitrary: c)
  case (Cons r results)
  then show ?case
    by (cases "vd_Kind (br_Verdict r)") (simp_all add: classify_row_def measured_def)
qed simp

lemma classify_eq:
  "classify results =
     \<lparr>cl_Good = filter measured results,
      cl_Failures = filter (\<lambda>r. vd_Kind (br_Verdict r) = verdictFail) results,
      cl_Skipped = length (filter (\<lambda>r. vd_Kind (br_Verdict r) = verdictSkip) results),
      cl_Unverified = length (filter (\<lambda>r. vd_Kind (br_Verdict r) = verdictUnverified) results)\<rparr>"
  by (simp add: classify_def fold_classify)

lemma mset_sort_SliceStable [simp]: "mset (sort_SliceStable lt xs) = mset xs"
  by (simp add: sort_SliceStable_def mset_fold_sort_back)

lemma length_sort_SliceStable [simp]: "length (sort_SliceStable lt xs) = length xs"
  by (rule mset_eq_length) simp

lemma mset_sortResults [simp]: "mset (sortResults rs) = mset rs"
  by (simp add: sortResults_def)

lemma length_sortResults [simp]: "length (sortResults rs) = length rs"
  by (simp add: sortResults_def)

lemma outcome_count:
  assumes "\<forall>r \<in> set results. (br_Err r \<noteq> None) = (vd_Kind (br_Verdict r) = verdictError)"
  shows "length (filter measured results) +
      length (filter (\<lambda>r. vd_Kind (br_Verdict r) = verdictSkip) results) +
      length (filter (\<lambda>r. br_Err r \<noteq> None) results) = length results"
  using assms
proof (induction results)
  case (Cons r results)
  then show ?case by (cases "vd_Kind (br_Verdict r)") (auto simp: measured_def)
qed simp

lemma suite_fold:
  assumes "distinct names" "k < length names"
  shows "fold store_index (enumerate j names) m (names ! k) = Some (j + k)"
  using assms
proof (induction names arbitrary: j k m)
  case (Cons n names)
  have other: "fold store_index (enumerate i xs) m n = m n" if "n \<notin> set xs" for i xs m
    using that by (induction xs arbitrary: i m) auto
  show ?case
  proof (cases k)
    case 0
    with Cons.prems show ?thesis by (simp add: other)
  next
    case (Suc k')
    with Cons show ?thesis by simp
  qed
qed simp

lemma suite_index_nth: "distinct names \<Longrightarrow> k < length names \<Longrightarrow> suite_index names (names ! k) = k"
  by (simp add: suite_index_def suite_fold)

lemma suite_index_name:
  assumes "distinct names" "s \<in> set names"
  shows "suite_index names s < length names \<and> names ! suite_index names s = s"
  using assms by (auto simp: in_set_conv_nth suite_index_nth)

text \<open>Rows of a pool run come from \<open>runUnit\<close>.\<close>

lemma unit_rows_origin:
  "unit_rows C i k us = Inr rs \<Longrightarrow> r \<in> set rs \<Longrightarrow>
     \<exists>u \<in> set us. \<exists>el. runUnit u (rc_run C) (rc_target C) el = Inr r"
  by (induction us arbitrary: k rs) (fastforce simp: res_simps)+

lemma run_rows_consistent:
  assumes "bench_reach C s" "run_finished C s" "r \<in> set (run_results s)"
  shows "(br_Err r \<noteq> None) = (vd_Kind (br_Verdict r) = verdictError)"
proof -
  obtain i where i: "i < length (rn_perFile s)" "r \<in> set (rn_perFile s ! i)"
    using assms(3) unfolding run_results_def by (metis in_set_conv_nth UN_E set_concat)
  then have "i < length (rc_jobs C)"
    using reach_invariant [OF assms(1)] by (simp add: pool_shape_def)
  from finished_rows [OF assms(1,2) this] i(2)
  obtain us where us: "expand (rc_env C) (rc_jobs C ! i) = Inr us" "unit_rows C i 0 us = Inr (rn_perFile s ! i)"
    by (auto simp: file_rows_def split: sum.splits)
  from unit_rows_origin [OF us(2) i(2)] obtain u el where u: "u \<in> set us"
    "runUnit u (rc_run C) (rc_target C) el = Inr r" by blast
  obtain e er where "unit_outcome u (rc_run C) = (e, er)" by (rule prod.exhaust)
  from runUnit_row [OF u(2) this] verify_rule.row_consistent [OF expand_rules [OF us(1) u(1)] refl]
  show ?thesis by blast
qed

lemma plan_ready:
  assumes "plan_bench fs f = Ready su"
  shows "\<exists>skipped. discover fs (bf_fixtures f) = ((su_Jobs su, skipped), None) \<and> su_Jobs su \<noteq> [] \<and>
    su_Target su = bf_target f \<and> bf_target f \<in> {''zisk'', ''openvm''} \<and> \<not> bf_dryRun f \<and>
    1 \<le> bf_jobs f \<and> su_Parallelism su = nat (bf_jobs f) \<and> op_Bin (su_Opts su) = zkvm_binary f \<and>
    (bf_target f = ''openvm'' \<longrightarrow> (\<forall>j \<in> set (su_Jobs su). fj_Kind j = FormatCorpus))"
  using assms
  by (auto simp: plan_bench_def plan_run_def find_None_iff split: if_splits sum.splits prod.splits option.splits)

section \<open>Properties\<close>

text \<open>
  C23: the report accounts for every unit that was run. After a finished pool run the measured rows, the
  skipped units and the errors add up to the number of results; the sorted rows are exactly the
  measured ones; the counts of validation failures and unverified units are those of the verdicts;
  and the suite index shipped with each row points at its suite.
\<close>

theorem report_accounts_for_all:
  assumes "bench_reach C s" "run_finished C s"
    and "bench_report target n (run_results s) = Inr (good, sm, D)"
  shows "mset good = mset (filter measured (run_results s)) \<and>
    rd_Good D + rd_Skipped D + length (rd_Errors D) = length (run_results s) \<and>
    rd_Total D = length (run_results s) \<and>
    rd_ValidationFailed D = length (filter (\<lambda>r. vd_Kind (br_Verdict r) = verdictFail) (run_results s)) \<and>
    rd_Unverified D = length (filter (\<lambda>r. vd_Kind (br_Verdict r) = verdictUnverified) (run_results s)) \<and>
    (\<forall>i < length good. rd_UnitSuiteIdx D ! i < length (rd_SuiteLabels D) \<and>
       rd_SuiteLabels D ! (rd_UnitSuiteIdx D ! i) = br_Suite (good ! i))"
proof -
  let ?rs = "run_results s"
  have cons: "\<forall>r \<in> set ?rs. (br_Err r \<noteq> None) = (vd_Kind (br_Verdict r) = verdictError)"
    using run_rows_consistent [OF assms(1,2)] by blast
  have good: "good = sortResults (filter measured ?rs)" and D: "D = report_data good ?rs target"
    using assms(3) by (auto simp: bench_report_def classify_eq Let_def split: if_splits)
  have fails: "filter (\<lambda>r. br_Err r = None \<and> vd_Kind (br_Verdict r) = verdictFail) ?rs =
      filter (\<lambda>r. vd_Kind (br_Verdict r) = verdictFail) ?rs"
    using cons by (intro filter_cong refl) auto
  have names: "distinct (fst (suiteMedians good))" "set (fst (suiteMedians good)) = br_Suite ` set good"
    by (simp_all add: suiteMedians_def Let_def)
  have lens: "rd_Good D = length (filter measured ?rs)" "rd_Total D = length ?rs"
    "rd_Skipped D = length (filter (\<lambda>r. vd_Kind (br_Verdict r) = verdictSkip) ?rs)"
    "length (rd_Errors D) = length (filter (\<lambda>r. br_Err r \<noteq> None) ?rs)"
    "rd_ValidationFailed D = length (filter (\<lambda>r. vd_Kind (br_Verdict r) = verdictFail) ?rs)"
    "rd_Unverified D = length (filter (\<lambda>r. vd_Kind (br_Verdict r) = verdictUnverified) ?rs)"
    by (simp_all add: D report_data_def Let_def case_prod_unfold good skip_rows_def error_rows_def
        validation_fail_rows_def fails)
  have index: "rd_UnitSuiteIdx D = map (\<lambda>r. suite_index (fst (suiteMedians good)) (br_Suite r)) good"
    "rd_SuiteLabels D = fst (suiteMedians good)"
    by (simp_all add: D report_data_def Let_def case_prod_unfold)
  show ?thesis
    using lens outcome_count [OF cons] suite_index_name [OF names(1)] names(2)
    by (simp add: good index)
qed

theorem report_accounts_for_all_witness:
  "\<exists>s good sm D. bench_reach sample_run s \<and> bench_report ''zisk'' 1 (run_results s) = Inr (good, sm, D) \<and>
     rd_Good D + rd_Skipped D + length (rd_Errors D) = 1"
proof -
  obtain s where s: "bench_reach sample_run s" "run_finished sample_run s" "length (run_results s) = 1"
    using sample_finishes by blast
  then obtain good sm D where D: "bench_report ''zisk'' 1 (run_results s) = Inr (good, sm, D)"
    by (auto simp: bench_report_def Let_def)
  from report_accounts_for_all [OF s(1,2) D] s D show ?thesis by (intro exI) auto
qed

text \<open>
  A command line that leads to a run leads to one that makes sense and ends. The fixtures are those
  discovery found, at least one, all of a recognised format, and with the target \<open>openvm\<close> only corpus
  fixtures; at least one worker runs; and the pool set up from the plan comes to an end.
\<close>

lemma planned_run_ends:
  assumes "plan_bench fs f = Ready su"
  shows "su_Jobs su \<noteq> [] \<and> (\<forall>j \<in> set (su_Jobs su). fj_Kind j \<noteq> FormatUnknown) \<and>
    (su_Target su = ''openvm'' \<longrightarrow> (\<forall>j \<in> set (su_Jobs su). fj_Kind j = FormatCorpus)) \<and>
    0 < su_Parallelism su \<and>
    (\<exists>s. (bench_step (setup_config E W el su))\<^sup>*\<^sup>* (run_init (setup_config E W el su)) s \<and>
       (run_finished (setup_config E W el su) s \<or> rn_crashed s \<noteq> None))"
proof -
  note plan = plan_ready [OF assms]
  then have "0 < rc_parallelism (setup_config E W el su)" by (auto simp: setup_config_def)
  with run_ends [OF bench_reach.init] plan discover_kinds show ?thesis by (fastforce simp: setup_config_def)
qed

definition sample_flags :: bench_flags where
  "sample_flags =
     \<lparr>bf_fixtures = ''t'', bf_elf = ''guest.elf'', bf_target = ''zisk'', bf_zkvmPath = [], bf_jobs = 4,
      bf_dryRun = False, bf_maxSteps = 0\<rparr>"

lemma planned_run_ends_example:
  "\<exists>su. plan_bench sample_fs sample_flags = Ready su \<and> map fj_Path (su_Jobs su) = [''t/d/x.json''] \<and>
     0 < su_Parallelism su"
proof -
  have "case plan_bench sample_fs sample_flags of
      Ready su \<Rightarrow> map fj_Path (su_Jobs su) = [''t/d/x.json''] | _ \<Rightarrow> False" by code_simp
  then obtain su where su: "plan_bench sample_fs sample_flags = Ready su"
    "map fj_Path (su_Jobs su) = [''t/d/x.json'']" by (auto split: bench_plan.splits)
  have "0 < su_Parallelism su"
    by (rule planned_run_ends [OF su(1), of sample_env sample_emu "\<lambda>_ _. 0",
          THEN conjunct2, THEN conjunct2, THEN conjunct2, THEN conjunct1])
  with su show ?thesis by (intro exI conjI)
qed

end
