(* ===== verification/Zkevm_Runner.thy ===== *)
theory Zkevm_Runner
  imports Bench_Report
begin

text \<open>
  \<open>cmd/zkevm-runner/main.go\<close>: running the blocks of zkevm fixtures and comparing the outputs. The
  goroutines write to distinct slots of the result slice; the order in which they end is an argument.
  Files and emulators are the environment; the HTML template and the progress lines are left out.
\<close>

section \<open>Collecting files\<close>

text \<open>\<open>collectJSON\<close>: the first error of the walk ends it.\<close>

fun collect :: "string \<Rightarrow> fs_node \<Rightarrow> string list \<Rightarrow> string list \<times> go_error option"
  and collect_entries :: "string \<Rightarrow> (string \<times> fs_node) list \<Rightarrow> string list \<Rightarrow> string list \<times> go_error option" where
  "collect path Leaf paths = (if HasSuffix path ''.json'' then paths @ [path] else paths, None)"
| "collect path (Dir (Inl e)) paths = (paths, Some e)"
| "collect path (Dir (Inr es)) paths = collect_entries path es paths"
| "collect_entries path [] paths = (paths, None)"
| "collect_entries path ((n, d) # es) paths =
     (case collect (path_Join [path, n]) d paths of
        (paths, Some e) \<Rightarrow> (paths, Some e)
      | (paths, None) \<Rightarrow> collect_entries path es paths)"

definition collectJSON :: "file_system \<Rightarrow> string \<Rightarrow> string list \<times> go_error option" where
  "collectJSON fs dir =
     (case fs_lstat fs dir of Inl e \<Rightarrow> ([], Some e) | Inr d \<Rightarrow> collect dir d [])"

section \<open>Work items\<close>

record workItem =
  wi_path :: string
  wi_tc :: ZkevmTestCase
  wi_block :: ZkevmBlock
  wi_name :: string
  wi_network :: string

definition case_items :: "string \<Rightarrow> ZkevmTestCase \<Rightarrow> workItem list" where
  "case_items p tc =
     map (\<lambda>bi. \<lparr>wi_path = p, wi_tc = tc, wi_block = zc_Blocks tc ! bi,
                wi_name = (if 1 < length (zc_Blocks tc) then zc_Name tc @ ''/block'' @ itoa bi else zc_Name tc),
                wi_network = zc_Network tc\<rparr>) [0 ..< length (zc_Blocks tc)]"

text \<open>The items of a file; a file that does not load is skipped.\<close>

definition file_items :: "bench_env \<Rightarrow> string \<Rightarrow> workItem list" where
  "file_items E p =
     (case LoadZkevmFile (be_order E p) (be_syntax E) p (be_read E p) of
        Inl _ \<Rightarrow> [] | Inr tcs \<Rightarrow> concat (map (case_items p) tcs))"

definition expand_items :: "bench_env \<Rightarrow> string list \<Rightarrow> workItem list" where
  "expand_items E paths = concat (map (file_items E) paths)"

section \<open>One block\<close>

definition isSkipped :: "go_error option \<Rightarrow> bool" where
  "isSkipped err \<longleftrightarrow> (case err of None \<Rightarrow> False | Some e \<Rightarrow> is_missing_input e)"

text \<open>Success, the output, what was printed, and the error.\<close>

definition runOne ::
  "emu_world \<Rightarrow> ZkevmBlock \<Rightarrow> string \<Rightarrow> string \<Rightarrow> string \<Rightarrow> bool \<times> string \<times> string \<times> go_error option" where
  "runOne W block elfPath zkvmPath target =
     (case ZesuInputFromZkevmBlock block of
        (_, _, Some e) \<Rightarrow> (False, [], [], Some (wrap_error ''encode'' e))
      | (input, _, None) \<Rightarrow>
          let opts = \<lparr>op_ELF = elfPath, op_Bin = zkvmPath, op_MaxSteps = 0, op_RequireCosts = False\<rparr>
          in if target = ''openvm'' \<or> target = ''pico'' then
               (case (if target = ''pico'' then RunPico W opts input else RunOpenVM W opts input) of
                  (r, runErr) \<Rightarrow>
                    (runErr = None \<and> er_ExecErr r = [], er_OutputHex r, er_RawOut r, runErr))
             else
               (case emu_Run W opts input of
                  (r, Some e) \<Rightarrow> (False, er_OutputHex r, er_RawOut r, Some e)
                | (r, None) \<Rightarrow>
                    (str_Contains (er_RawOut r) ''success=1'' \<and> \<not> str_Contains (er_RawOut r) ''success=0'',
                     er_OutputHex r, er_RawOut r, None)))"

text \<open>What follows the last slash or backslash, with unsafe characters replaced, at most 80 bytes.\<close>

definition safe_name :: "string \<Rightarrow> string" where
  "safe_name name =
     (let base = rev (takeWhile (\<lambda>c. c \<noteq> CHR ''/'' \<and> c \<noteq> CHR 0x5C) (rev name));
          safe = concat (map (\<lambda>c. if c = CHR '':'' \<or> c = CHR ''['' \<or> c = CHR 32 then ''_''
                                  else if c = CHR '']'' then [] else [c]) base)
      in take 80 safe)"

definition dump_dest :: "ZkevmTestCase \<Rightarrow> nat \<Rightarrow> string \<Rightarrow> string" where
  "dump_dest tc idx dir = path_Join [dir, safe_name (zc_Name tc) @ ''_'' @ itoa idx @ ''.bin'']"

text \<open>The file to write with its content, and the error; \<open>write\<close> is \<open>os.WriteFile\<close>.\<close>

definition dumpOne ::
  "(string \<Rightarrow> bytes \<Rightarrow> go_error option) \<Rightarrow> ZkevmTestCase \<Rightarrow> ZkevmBlock \<Rightarrow> nat \<Rightarrow> string \<Rightarrow>
   (string \<times> bytes) option \<times> go_error option" where
  "dumpOne write tc block idx dir =
     (case ZesuInputFromZkevmBlock block of
        (_, _, Some e) \<Rightarrow> (None, Some (wrap_error ''encode'' e))
      | (input, _, None) \<Rightarrow>
          let dest = dump_dest tc idx dir in (Some (dest, input), write dest input))"

definition filterUARTLog :: "string \<Rightarrow> string" where
  "filterUARTLog rawOut =
     str_Join [CHR 10]
       (filter (\<lambda>t. str_Contains t ''input_len='' \<or> str_Contains t ''block='' \<or> str_Contains t ''root:'' \<or>
                    str_Contains t ''output:'' \<or> t = ''info: ok'')
         (map TrimSpace (str_Split (CHR 10) rawOut)))"

definition truncateName :: "string \<Rightarrow> string" where
  "truncateName s = (if length s \<le> 83 then s else take 40 s @ ''...'' @ drop (length s - 40) s)"

record runner_flags =
  rf_fixtures :: string
  rf_elf :: string
  rf_target :: string
  rf_zkvmPath :: string
  rf_ziskemu :: string
  rf_dumpDir :: string

record TestResult =
  tr_Name :: string
  tr_Network :: string
  tr_ExpectedSuccess :: bool
  tr_GotSuccess :: bool
  tr_ExpectedOutputHex :: string
  tr_GotOutputHex :: string
  tr_OutputMatch :: bool
  tr_ValidationOK :: bool
  tr_Err :: "go_error option"
  tr_ErrOutput :: string
  tr_Elapsed :: int

definition zero_TestResult :: TestResult where
  "zero_TestResult =
     \<lparr>tr_Name = [], tr_Network = [], tr_ExpectedSuccess = False, tr_GotSuccess = False,
      tr_ExpectedOutputHex = [], tr_GotOutputHex = [], tr_OutputMatch = False, tr_ValidationOK = False,
      tr_Err = None, tr_ErrOutput = [], tr_Elapsed = 0\<rparr>"

definition judge :: "workItem \<Rightarrow> bool \<Rightarrow> bool \<times> string \<times> string \<times> go_error option \<Rightarrow> int \<Rightarrow> TestResult" where
  "judge it dumping outcome elapsed =
     (case outcome of (gotSuccess, gotOutputHex, rawOut, runErr) \<Rightarrow>
        let expectedOutputHex = ToLower (TrimPrefix (zb_StatelessOutputBytes (wi_block it)) ''0x'');
            n = length expectedOutputHex;
            gotOutputCmp = (if 0 < n \<and> n < length gotOutputHex then take n gotOutputHex else gotOutputHex);
            expectedSuccess = (n < 66 \<or> go_slice 64 66 expectedOutputHex \<noteq> ''00'');
            outputMatch = (expectedOutputHex = [] \<or> gotOutputCmp = expectedOutputHex)
        in \<lparr>tr_Name = wi_name it, tr_Network = wi_network it, tr_ExpectedSuccess = expectedSuccess,
            tr_GotSuccess = gotSuccess, tr_ExpectedOutputHex = expectedOutputHex,
            tr_GotOutputHex = gotOutputHex, tr_OutputMatch = outputMatch,
            tr_ValidationOK = (dumping \<or> (runErr = None \<and> outputMatch)),
            tr_Err = runErr, tr_ErrOutput = rawOut, tr_Elapsed = elapsed\<rparr>)"

definition run_item ::
  "emu_world \<Rightarrow> (string \<Rightarrow> bytes \<Rightarrow> go_error option) \<Rightarrow> runner_flags \<Rightarrow> string \<Rightarrow> (nat \<Rightarrow> int) \<Rightarrow> nat \<Rightarrow> workItem \<Rightarrow>
   TestResult" where
  "run_item W write f bin elapsed idx it =
     (let dumping = (rf_dumpDir f \<noteq> []);
          outcome = (if dumping
                     then (False, [], [], snd (dumpOne write (wi_tc it) (wi_block it) idx (rf_dumpDir f)))
                     else runOne W (wi_block it) (rf_elf f) bin (rf_target f))
      in judge it dumping outcome (elapsed idx))"

definition status_text :: "TestResult \<Rightarrow> string" where
  "status_text t =
     (case tr_Err t of
        Some e \<Rightarrow> (if isSkipped (tr_Err t) then ''SKIP: '' else ''ERROR: '') @ error_text e
      | None \<Rightarrow> if \<not> tr_ValidationOK t then ''VALIDATION FAILED (output mismatch)'' else ''OK'')"

section \<open>All blocks\<close>

text \<open>
  The result slice after the goroutines ended in the given order. The loop sends to a channel of
  capacity \<open>jobs\<close> before it starts a goroutine: a negative capacity panics, and capacity 0 blocks the
  first send with nobody to receive.
\<close>

definition run_items ::
  "int \<Rightarrow> nat list \<Rightarrow> (nat \<Rightarrow> workItem \<Rightarrow> TestResult) \<Rightarrow> workItem list \<Rightarrow> TestResult list res" where
  "run_items jobs order run its =
     (if jobs < 0 then Inl (Panic ''makechan: size out of range'')
      else if jobs = 0 \<and> its \<noteq> [] then Inl (Panic ''all goroutines are asleep - deadlock!'')
      else Inr (fold (\<lambda>i rs. rs[i := run i (its ! i)]) order (replicate (length its) zero_TestResult)))"

record runner_counts =
  rq_passed :: nat
  rq_failed :: nat
  rq_errored :: nat
  rq_skipped :: nat

definition count_result :: "TestResult \<Rightarrow> runner_counts \<Rightarrow> runner_counts" where
  "count_result r c =
     (if isSkipped (tr_Err r) then c\<lparr>rq_skipped := rq_skipped c + 1\<rparr>
      else if tr_Err r \<noteq> None then c\<lparr>rq_errored := rq_errored c + 1\<rparr>
      else if tr_ValidationOK r then c\<lparr>rq_passed := rq_passed c + 1\<rparr>
      else c\<lparr>rq_failed := rq_failed c + 1\<rparr>)"

text \<open>The counts, and the failures in the order of their names (equal names in either order).\<close>

definition runner_printSummary :: "TestResult list \<Rightarrow> runner_counts \<times> TestResult list" where
  "runner_printSummary results =
     (fold count_result results \<lparr>rq_passed = 0, rq_failed = 0, rq_errored = 0, rq_skipped = 0\<rparr>,
      filter (\<lambda>r. tr_Err r = None \<and> \<not> tr_ValidationOK r) (sort_key tr_Name results))"

record failureRow =
  fl_Name :: string
  fl_Network :: string
  fl_ExpectedSuccess :: bool
  fl_GotSuccess :: bool
  fl_ExpectedOutputHex :: string
  fl_GotOutputHex :: string
  fl_OutputMatch :: bool
  fl_Elapsed :: string
  fl_ErrLine :: string

record runner_errorRow =
  re_Name :: string
  re_Network :: string
  re_ErrMsg :: string
  re_Output :: string

record runner_reportData =
  rp_Total :: nat
  rp_Passed :: nat
  rp_Failed :: nat
  rp_Errored :: nat
  rp_Skipped :: nat
  rp_Failures :: "failureRow list"
  rp_Errors :: "runner_errorRow list"
  rp_Skips :: "runner_errorRow list"

definition error_line :: "string \<Rightarrow> string" where
  "error_line out =
     (case find (\<lambda>l. HasPrefix (TrimSpace l) ''error:'') (str_Split (CHR 10) out) of
        None \<Rightarrow> [] | Some l \<Rightarrow> TrimSpace l)"

definition failure_row :: "TestResult \<Rightarrow> failureRow" where
  "failure_row r =
     \<lparr>fl_Name = tr_Name r, fl_Network = tr_Network r, fl_ExpectedSuccess = tr_ExpectedSuccess r,
      fl_GotSuccess = tr_GotSuccess r, fl_ExpectedOutputHex = tr_ExpectedOutputHex r,
      fl_GotOutputHex = tr_GotOutputHex r, fl_OutputMatch = tr_OutputMatch r,
      fl_Elapsed = round_text (tr_Elapsed r), fl_ErrLine = error_line (tr_ErrOutput r)\<rparr>"

definition runner_error_row :: "TestResult \<Rightarrow> runner_errorRow" where
  "runner_error_row r =
     \<lparr>re_Name = tr_Name r, re_Network = tr_Network r, re_ErrMsg = error_text (the (tr_Err r)),
      re_Output = tr_ErrOutput r\<rparr>"

definition runner_report :: "TestResult list \<Rightarrow> runner_reportData" where
  "runner_report results =
     (let skips = map runner_error_row (filter (\<lambda>r. isSkipped (tr_Err r)) results);
          errors = map runner_error_row (filter (\<lambda>r. \<not> isSkipped (tr_Err r) \<and> tr_Err r \<noteq> None) results);
          failures = map failure_row (filter (\<lambda>r. tr_Err r = None \<and> \<not> tr_ValidationOK r) results);
          passed = length (filter (\<lambda>r. tr_Err r = None \<and> tr_ValidationOK r) results)
      in \<lparr>rp_Total = length results, rp_Passed = passed, rp_Failed = length failures,
          rp_Errored = length errors, rp_Skipped = length skips,
          rp_Failures = sort_key fl_Name failures, rp_Errors = sort_key re_Name errors,
          rp_Skips = sort_key re_Name skips\<rparr>)"

section \<open>The command\<close>

datatype runner_plan = RunnerUsage | RunnerFatal string | RunnerItems string "workItem list"

definition runner_binary :: "runner_flags \<Rightarrow> string option" where
  "runner_binary f =
     (let def = (if rf_target f = ''zisk'' then Some (rf_ziskemu f)
                 else if rf_target f = ''openvm'' then Some ''zesu-openvm-runner''
                 else if rf_target f = ''pico'' then Some ''zesu-pico-runner'' else None)
      in case def of None \<Rightarrow> None
         | Some d \<Rightarrow> Some (if rf_zkvmPath f = [] then d else rf_zkvmPath f))"

definition plan_items ::
  "bench_env \<Rightarrow> (string \<Rightarrow> go_error option) \<Rightarrow> runner_flags \<Rightarrow> string \<Rightarrow> string list \<Rightarrow> runner_plan" where
  "plan_items E mkdir f bin paths =
     (if length paths = 0 then RunnerFatal (''no JSON fixtures found in '' @ rf_fixtures f)
      else (case (if rf_dumpDir f \<noteq> [] then mkdir (rf_dumpDir f) else None) of
              Some e \<Rightarrow> RunnerFatal (''create dump-dir: '' @ error_text e)
            | None \<Rightarrow>
                let its = expand_items E paths
                in if length its = 0 then RunnerFatal ''no test blocks found'' else RunnerItems bin its))"

definition plan_runner ::
  "bench_env \<Rightarrow> file_system \<Rightarrow> (string \<Rightarrow> go_error option) \<Rightarrow> runner_flags \<Rightarrow> runner_plan" where
  "plan_runner E fs mkdir f =
     (if rf_fixtures f = [] then RunnerUsage
      else (case runner_binary f of
              None \<Rightarrow> RunnerFatal (''unknown target '' @ go_quote (rf_target f) @
                                  '': must be zisk, openvm or pico'')
            | Some bin \<Rightarrow>
                if rf_dumpDir f = [] \<and> rf_elf f = []
                then RunnerFatal ''-elf is required when -dump-dir is not set''
                else (case (if rf_elf f \<noteq> [] then fs_stat fs (rf_elf f) else Inr (False, 0)) of
                        Inl e \<Rightarrow> RunnerFatal (''ELF not found at '' @ rf_elf f @ '': '' @ error_text e)
                      | Inr _ \<Rightarrow>
                          (case collectJSON fs (rf_fixtures f) of
                             (_, Some e) \<Rightarrow> RunnerFatal (''collect fixtures: '' @ error_text e)
                           | (paths, None) \<Rightarrow> plan_items E mkdir f bin paths))))"

text \<open>
  The whole command: its last fatal message, or the summary with the report. The summary leaves the
  results sorted by name for the report.
\<close>

definition runner_main ::
  "bench_env \<Rightarrow> file_system \<Rightarrow> (string \<Rightarrow> go_error option) \<Rightarrow> emu_world \<Rightarrow> (string \<Rightarrow> bytes \<Rightarrow> go_error option) \<Rightarrow>
   runner_flags \<Rightarrow> int \<Rightarrow> nat list \<Rightarrow> (nat \<Rightarrow> int) \<Rightarrow>
   (runner_counts \<times> TestResult list \<times> runner_reportData) res" where
  "runner_main E fs mkdir W write f jobs order elapsed =
     (case plan_runner E fs mkdir f of
        RunnerUsage \<Rightarrow> Inl (Errorf ''usage'')
      | RunnerFatal msg \<Rightarrow> Inl (Errorf msg)
      | RunnerItems bin its \<Rightarrow>
          res_bind (run_items jobs order (run_item W write f bin elapsed) its) (\<lambda>results.
            case runner_printSummary results of (c, failures) \<Rightarrow>
              Inr (c, failures, runner_report (sort_key tr_Name results))))"

text \<open>
  The files after a run with a dump directory whose goroutines wrote in the given order; \<open>left\<close> is what a
  failed write leaves behind.
\<close>

definition dump_item ::
  "(string \<Rightarrow> bytes \<Rightarrow> go_error option) \<Rightarrow> (string \<Rightarrow> bytes \<Rightarrow> bytes option) \<Rightarrow> string \<Rightarrow> workItem list \<Rightarrow> nat \<Rightarrow>
   (string \<rightharpoonup> bytes) \<Rightarrow> (string \<rightharpoonup> bytes)" where
  "dump_item write left dir its i files =
     (case dumpOne write (wi_tc (its ! i)) (wi_block (its ! i)) i dir of
        (None, _) \<Rightarrow> files
      | (Some (dest, input), None) \<Rightarrow> files(dest \<mapsto> input)
      | (Some (dest, input), Some _) \<Rightarrow> files(dest := left dest input))"

section \<open>Lemmas\<close>

lemma run_items_slots:
  assumes "set order \<subseteq> {..< length its}" "length rs = length its" "k < length its"
  shows "fold (\<lambda>i rs. rs[i := run i (its ! i)]) order rs ! k =
    (if k \<in> set order then run k (its ! k) else rs ! k)"
  using assms by (induction order arbitrary: rs) (auto simp: nth_list_update)

lemma run_items_length: "length (fold (\<lambda>i rs. rs[i := run i (its ! i)]) order rs) = length rs"
  by (induction order arbitrary: rs) auto

lemma run_items_eq:
  assumes "0 < jobs" "mset order = mset [0 ..< length its]"
  shows "run_items jobs order run its = Inr (map (\<lambda>i. run i (its ! i)) [0 ..< length its])"
proof -
  have "set order = set [0 ..< length its]" using assms(2) by (rule mset_eq_setD)
  then have set: "set order = {..< length its}" by (simp add: atLeast0LessThan)
  have "fold (\<lambda>i rs. rs[i := run i (its ! i)]) order (replicate (length its) zero_TestResult) =
      map (\<lambda>i. run i (its ! i)) [0 ..< length its]"
    by (rule nth_equalityI) (simp_all add: run_items_length run_items_slots set)
  with assms(1) show ?thesis by (simp add: run_items_def)
qed

lemma count_results:
  "fold count_result results c =
     c\<lparr>rq_passed := rq_passed c + length (filter (\<lambda>r. tr_Err r = None \<and> tr_ValidationOK r) results),
       rq_failed := rq_failed c + length (filter (\<lambda>r. tr_Err r = None \<and> \<not> tr_ValidationOK r) results),
       rq_errored := rq_errored c +
         length (filter (\<lambda>r. \<not> isSkipped (tr_Err r) \<and> tr_Err r \<noteq> None) results),
       rq_skipped := rq_skipped c + length (filter (\<lambda>r. isSkipped (tr_Err r)) results)\<rparr>"
proof (induction results arbitrary: c)
  case (Cons r results)
  then show ?case by (cases "tr_Err r") (simp_all add: count_result_def isSkipped_def)
qed simp

lemma item_labels:
  "map wi_name (case_items p tc) = map (um_Label \<circ> un_Meta \<circ> eest_unit j tc) [0 ..< length (zc_Blocks tc)]"
  by (simp add: case_items_def eest_unit_def unit_label_def Let_def)

lemma emu_Run_costs:
  "emu_Run W (opts\<lparr>op_RequireCosts := True\<rparr>) input =
     (case emu_Run W (opts\<lparr>op_RequireCosts := False\<rparr>) input of
        (r, Some e) \<Rightarrow> (r, Some e)
      | (r, None) \<Rightarrow>
          if snd (ParseCostReport (er_RawOut r)) then (r, None)
          else (r, Some (Errorf ''no cost report in emulator output'')))"
proof (cases "ew_prepare W input")
  case (Inr io)
  obtain i p where io: "io = (i, p)" by (rule prod.exhaust)
  have args: "emu_args (opts\<lparr>op_RequireCosts := b\<rparr>) i p = emu_args opts i p"
    "EffectiveMaxSteps (opts\<lparr>op_RequireCosts := b\<rparr>) = EffectiveMaxSteps opts" for b
    by (simp_all add: emu_args_def EffectiveMaxSteps_def)
  show ?thesis
    using Inr io by (cases "snd (ew_exec W (op_Bin opts) (emu_args opts i p) input)")
      (simp_all add: emu_Run_def Let_def args case_prod_unfold)
qed (simp add: emu_Run_def)

lemma emu_Run_output: "\<exists>bs. er_OutputHex (fst (emu_Run W opts input)) = hex_EncodeToString bs"
proof (cases "ew_prepare W input")
  case (Inl e)
  then have "er_OutputHex (fst (emu_Run W opts input)) = hex_EncodeToString []"
    by (simp add: emu_Run_def zero_EmuResult_def hex_EncodeToString_def)
  then show ?thesis by blast
next
  case (Inr io)
  obtain i p where io: "io = (i, p)" by (rule prod.exhaust)
  let ?read = "ew_readOut W (op_Bin opts) (emu_args opts i p) input"
  have "er_OutputHex (fst (emu_Run W opts input)) =
      (case ?read of Inl _ \<Rightarrow> hex_EncodeToString [] | Inr b \<Rightarrow> hex_EncodeToString b)"
    using Inr io
    by (simp add: emu_Run_def Let_def case_prod_unfold hex_EncodeToString_def split: sum.splits option.splits)
  then show ?thesis by (cases ?read) auto
qed

lemma judge_ok:
  "tr_ValidationOK (judge it False (got, out, raw, err) el) \<and>
     tr_ExpectedOutputHex (judge it False (got, out, raw, err) el) \<noteq> [] \<longleftrightarrow>
   err = None \<and> normaliseHex (zb_StatelessOutputBytes (wi_block it)) \<noteq> [] \<and>
     (\<exists>rest. out = normaliseHex (zb_StatelessOutputBytes (wi_block it)) @ rest)"
  using trim_eq_prefix [of "normaliseHex (zb_StatelessOutputBytes (wi_block it))" out]
  by (auto simp: judge_def Let_def normaliseHex_def)

definition zisk_opts :: "string \<Rightarrow> string \<Rightarrow> Opts" where
  "zisk_opts elf bin = \<lparr>op_ELF = elf, op_Bin = bin, op_MaxSteps = 0, op_RequireCosts = False\<rparr>"

text \<open>One block under both tools.\<close>

lemma block_verdicts_agree:
  assumes "un_Encode u () = encodeEEST (wi_block it)" "unit_outcome u (runEmu W (zisk_opts elf bin)) = (r, err)"
  shows "OK (verifyEEST (fst (encodeEEST (wi_block it))) r err) \<longleftrightarrow>
    tr_ValidationOK (judge it False (runOne W (wi_block it) elf bin ''zisk'') el) \<and>
    tr_ExpectedOutputHex (judge it False (runOne W (wi_block it) elf bin ''zisk'') el) \<noteq> [] \<and>
    snd (ParseCostReport (er_RawOut r))"
proof -
  obtain input ok e where z: "ZesuInputFromZkevmBlock (wi_block it) = (input, ok, e)" by (metis prod_cases3)
  have enc: "en_ExpectedOutputHex (fst (encodeEEST (wi_block it))) =
      normaliseHex (zb_StatelessOutputBytes (wi_block it))"
    "snd (encodeEEST (wi_block it)) = e" "en_Input (fst (encodeEEST (wi_block it))) = input"
    by (simp_all add: encodeEEST_def z Let_def)
  show ?thesis
  proof (cases e)
    case (Some x)
    then have "err = Some x" using assms enc(2) by (auto simp: unit_outcome_def split: prod.splits)
    moreover have "runOne W (wi_block it) elf bin ''zisk'' = (False, [], [], Some (wrap_error ''encode'' x))"
      using z Some by (simp add: runOne_def)
    ultimately show ?thesis using eest_rule.pass_ran judge_ok by (metis option.distinct(1))
  next
    case None
    obtain r0 e0 where run: "emu_Run W (zisk_opts elf bin) input = (r0, e0)" by (rule prod.exhaust)
    have same: "(zisk_opts elf bin)\<lparr>op_RequireCosts := False\<rparr> = zisk_opts elf bin" by (simp add: zisk_opts_def)
    have "(r, err) = emu_Run W ((zisk_opts elf bin)\<lparr>op_RequireCosts := True\<rparr>) input"
      using assms None enc(2,3) by (auto simp: unit_outcome_def runEmu_def split: prod.splits)
    then have r: "r = r0" "err = (case e0 of Some x \<Rightarrow> Some x | None \<Rightarrow>
        if snd (ParseCostReport (er_RawOut r0)) then None
        else Some (Errorf ''no cost report in emulator output''))"
      unfolding emu_Run_costs same run by (auto split: option.splits if_splits)
    obtain got where one: "runOne W (wi_block it) elf bin ''zisk'' = (got, er_OutputHex r0, er_RawOut r0, e0)"
      using z None run by (cases e0) (auto simp: runOne_def zisk_opts_def)
    obtain bs where "er_OutputHex r0 = hex_EncodeToString bs"
      using emu_Run_output [of W "zisk_opts elf bin" input] run by auto
    then have "normaliseHex (er_OutputHex r0) = er_OutputHex r0" by simp
    then show ?thesis
      unfolding verifyEEST_pass_iff enc(1) one r(1)
      using judge_ok [of it got "er_OutputHex r0" "er_RawOut r0" e0 el] r(2)
      by (cases e0) auto
  qed
qed

lemma safe_name_no_slash: "CHR ''/'' \<notin> set (safe_name name)"
proof -
  have "CHR ''/'' \<notin> set (takeWhile (\<lambda>c. c \<noteq> CHR ''/'' \<and> c \<noteq> CHR 0x5C) (rev name))"
    by (auto dest: set_takeWhileD)
  then show ?thesis
    unfolding safe_name_def Let_def by (auto dest!: in_set_takeD split: if_splits)
qed

lemma dump_name_plain: "plain_name (safe_name name @ ''_'' @ itoa idx @ ''.bin'')"
proof -
  have "CHR ''/'' \<notin> set (itoa idx)" using itoa_chars(1) by blast
  then show ?thesis using safe_name_no_slash [of name] by (auto simp: plain_name_def append_eq_Cons_conv)
qed

lemma suffix_digits:
  assumes "a @ ''_'' @ itoa m @ ''.bin'' = b @ ''_'' @ itoa n @ ''.bin''"
  shows "m = n"
proof -
  have "takeWhile (\<lambda>c. c \<noteq> CHR ''_'') (rev (x @ ''_'' @ itoa k)) = rev (itoa k)" for k x
  proof -
    have "c \<noteq> CHR ''_''" if "c \<in> set (rev (itoa k))" for c
      using itoa_chars(2) [of c k] that by (simp del: format_digits.simps)
    then have "takeWhile (\<lambda>c. c \<noteq> CHR ''_'') (rev (itoa k) @ CHR ''_'' # rev x) = rev (itoa k) @
        takeWhile (\<lambda>c. c \<noteq> CHR ''_'') (CHR ''_'' # rev x)" by (rule takeWhile_append2)
    then show ?thesis by (simp del: format_digits.simps)
  qed
  moreover have "a @ ''_'' @ itoa m = b @ ''_'' @ itoa n"
    using assms by (simp del: format_digits.simps)
  ultimately have "itoa m = itoa n" by (metis rev_rev_ident)
  then show ?thesis by (rule iffD1 [OF itoa_inject])
qed

lemma dump_dest_inject:
  assumes "dump_dest tc i dir = dump_dest tc' j dir"
  shows "i = j"
  using assms unfolding dump_dest_def path_Join_name [OF dump_name_plain] same_append_eq
  by (rule suffix_digits)

lemma dump_item_other:
  assumes "i \<noteq> j"
  shows "dump_item write left dir its j files (dump_dest tc i dir) = files (dump_dest tc i dir)"
proof -
  have "dump_dest tc i dir \<noteq> dump_dest tc' j dir" for tc' using assms dump_dest_inject by blast
  then show ?thesis
    by (auto simp: dump_item_def dumpOne_def Let_def split: prod.splits option.splits)
qed

lemma dump_items_keep:
  assumes "i \<notin> set order"
  shows "fold (dump_item write left dir its) order files (dump_dest tc i dir) = files (dump_dest tc i dir)"
  using assms by (induction order arbitrary: files) (auto simp: dump_item_other)

lemma results_total:
  "length (filter (\<lambda>r. tr_Err r = None \<and> tr_ValidationOK r) rs) +
     length (filter (\<lambda>r. tr_Err r = None \<and> \<not> tr_ValidationOK r) rs) +
     length (filter (\<lambda>r. \<not> isSkipped (tr_Err r) \<and> tr_Err r \<noteq> None) rs) +
     length (filter (\<lambda>r. isSkipped (tr_Err r)) rs) = length rs"
proof (induction rs)
  case (Cons r rs)
  then show ?case by (cases "tr_Err r") (auto simp: isSkipped_def)
qed simp

lemma length_filter_sort_key: "length (filter P (sort_key k xs)) = length (filter P xs)"
  by (metis mset_filter mset_sort size_mset)

section \<open>Properties\<close>

text \<open>
  C22: the two test tools agree. For every zkevm fixture file that loads, \<open>bench\<close> and \<open>zkevm-runner\<close> see
  the same blocks under the same labels in the same order; and for the same emulator, \<open>bench\<close> counts
  a block as passed exactly when \<open>zkevm-runner\<close> does, the fixture has an expected output and the
  emulator printed a cost table.
\<close>

theorem tools_agree:
  assumes "expandEEST E j = Inr us"
  shows "map (\<lambda>u. um_Label (un_Meta u)) us = map wi_name (file_items E (fj_Path j)) \<and>
    (\<forall>k < length us. \<forall>r err.
       unit_outcome (us ! k) (runEmu W (zisk_opts elf bin)) = (r, err) \<longrightarrow>
       (OK (un_Verify (us ! k) (fst (un_Encode (us ! k) ())) r err) \<longleftrightarrow>
         (let it = file_items E (fj_Path j) ! k;
              t = judge it False (runOne W (wi_block it) elf bin ''zisk'') el
          in tr_ValidationOK t \<and> tr_ExpectedOutputHex t \<noteq> [] \<and> snd (ParseCostReport (er_RawOut r)))))"
proof -
  obtain tcs where tcs: "LoadZkevmFile (be_order E (fj_Path j)) (be_syntax E) (fj_Path j) (be_read E (fj_Path j)) = Inr tcs"
    and us: "us = concat (map (\<lambda>tc. map (eest_unit j tc) [0 ..< length (zc_Blocks tc)]) tcs)"
    using assms by (auto simp: expandEEST_def res_simps)
  let ?its = "file_items E (fj_Path j)"
  have its: "?its = concat (map (case_items (fj_Path j)) tcs)" by (simp add: file_items_def tcs)
  have "list_all2 (\<lambda>u it. um_Label (un_Meta u) = wi_name it \<and> un_Verify u = verifyEEST \<and>
      un_Encode u () = encodeEEST (wi_block it)) us ?its"
    unfolding us its
    by (induction tcs)
      (simp_all add: list_all2_appendI case_items_def eest_unit_def unit_label_def Let_def
        list_all2_map1 list_all2_map2 list.rel_refl)
  then have len: "length us = length ?its"
    and same: "\<And>k. k < length us \<Longrightarrow> um_Label (un_Meta (us ! k)) = wi_name (?its ! k) \<and>
      un_Verify (us ! k) = verifyEEST \<and> un_Encode (us ! k) () = encodeEEST (wi_block (?its ! k))"
    by (auto simp: list_all2_conv_all_nth)
  have "map (\<lambda>u. um_Label (un_Meta u)) us = map wi_name ?its"
    using len same by (intro nth_equalityI) simp_all
  moreover have "OK (un_Verify (us ! k) (fst (un_Encode (us ! k) ())) r err) \<longleftrightarrow>
      tr_ValidationOK (judge (?its ! k) False (runOne W (wi_block (?its ! k)) elf bin ''zisk'') el) \<and>
      tr_ExpectedOutputHex (judge (?its ! k) False (runOne W (wi_block (?its ! k)) elf bin ''zisk'') el) \<noteq> [] \<and>
      snd (ParseCostReport (er_RawOut r))"
    if "k < length us" "unit_outcome (us ! k) (runEmu W (zisk_opts elf bin)) = (r, err)" for k r err
  proof -
    from same [OF that(1)] have "un_Verify (us ! k) = verifyEEST"
      "un_Encode (us ! k) () = encodeEEST (wi_block (?its ! k))" by simp_all
    with block_verdicts_agree [OF this(2) that(2)] show ?thesis by simp
  qed
  ultimately show ?thesis unfolding Let_def by blast
qed

theorem tools_agree_witness:
  "\<exists>us. expandEEST sample_env sample_job = Inr us \<and>
     map (\<lambda>u. um_Label (un_Meta u)) us = map wi_name (file_items sample_env ''f.json'') \<and> length us = 1"
proof -
  have us: "expandEEST sample_env sample_job = Inr [eest_unit sample_job sample_case 0]"
    using sample_expand by (simp add: expand_def sample_job_def)
  have "map (\<lambda>u. um_Label (un_Meta u)) [eest_unit sample_job sample_case 0] =
      map wi_name (file_items sample_env (fj_Path sample_job))"
    using tools_agree [OF us, of sample_emu "''e''" "''b''" 0] by (rule conjunct1)
  with us show ?thesis by (simp add: sample_job_def)
qed

text \<open>
  C27: \<open>zkevm-runner\<close> loses no block and counts each once. With at least one job, whatever the order in
  which the goroutines end, the command comes to its summary; the blocks it counts as passed are those
  whose own run ended without an error and was judged valid; the four counts add up to the number of
  blocks and are those of the report.
\<close>

theorem runner_counts_every_block:
  assumes "plan_runner E fs mkdir f = RunnerItems bin its" "0 < jobs" "mset order = mset [0 ..< length its]"
  shows "\<exists>c failures D. runner_main E fs mkdir W write f jobs order el = Inr (c, failures, D) \<and>
    rq_passed c = length (filter (\<lambda>i. let t = run_item W write f bin el i (its ! i)
      in tr_Err t = None \<and> tr_ValidationOK t) [0 ..< length its]) \<and>
    rq_passed c + rq_failed c + rq_errored c + rq_skipped c = length its \<and>
    rp_Passed D = rq_passed c \<and> rp_Failed D = rq_failed c \<and> rp_Errored D = rq_errored c \<and>
    rp_Skipped D = rq_skipped c \<and> rp_Total D = length its"
proof -
  let ?rs = "map (\<lambda>i. run_item W write f bin el i (its ! i)) [0 ..< length its]"
  have "runner_main E fs mkdir W write f jobs order el =
      Inr (fst (runner_printSummary ?rs), snd (runner_printSummary ?rs), runner_report (sort_key tr_Name ?rs))"
    by (simp add: runner_main_def assms(1) run_items_eq [OF assms(2,3)] case_prod_unfold)
  then show ?thesis
    using results_total [of ?rs]
    by (simp add: runner_printSummary_def count_results runner_report_def Let_def
        length_filter_sort_key filter_map comp_def)
qed

text \<open>Without a job the first send to the semaphore has nobody to wait for.\<close>

lemma runner_needs_jobs:
  "its \<noteq> [] \<Longrightarrow> run_items 0 order run its = Inl (Panic ''all goroutines are asleep - deadlock!'')"
  by (simp add: run_items_def)

definition sample_runner :: runner_flags where
  "sample_runner = \<lparr>rf_fixtures = ''t'', rf_elf = [], rf_target = ''zisk'', rf_zkvmPath = [],
     rf_ziskemu = ''ziskemu'', rf_dumpDir = ''out''\<rparr>"

definition sample_tree :: file_system where
  "sample_tree = sample_fs\<lparr>fs_lstat := (\<lambda>_. Inr (Dir (Inr [(''x.json'', Leaf), (''y'', Leaf)])))\<rparr>"

theorem runner_counts_every_block_witness:
  "\<exists>c failures D. runner_main sample_env sample_tree (\<lambda>_. None) sample_emu (\<lambda>_ _. None) sample_runner 2 [0]
       (\<lambda>_. 5) = Inr (c, failures, D) \<and>
     rq_passed c + rq_failed c + rq_errored c + rq_skipped c = 1"
proof -
  have "case plan_runner sample_env sample_tree (\<lambda>_. None) sample_runner of
      RunnerItems bin its \<Rightarrow> length its = 1 | _ \<Rightarrow> False" by code_simp
  then obtain bin its where plan: "plan_runner sample_env sample_tree (\<lambda>_. None) sample_runner = RunnerItems bin its"
    "length its = 1" by (auto split: runner_plan.splits)
  then have "mset [0] = mset [0 ..< length its]" by simp
  from runner_counts_every_block [OF plan(1) _ this, of 2 sample_emu "\<lambda>_ _. None" "\<lambda>_. 5"]
  show ?thesis using plan(2) by auto
qed

text \<open>
  C26: a dump keeps every input. With a dump directory the goroutines write concurrently into one
  directory; whatever the order, and whatever other writes fail, each block whose bytes decode and whose
  write succeeds has its own file afterwards, and below 2^64 bytes its \<open>statelessInputBytes\<close> are read
  back from it.
\<close>

theorem dump_keeps_every_input:
  assumes "mset order = mset [0 ..< length its]" "i < length its"
    and "zb_StatelessInputBytes (wi_block (its ! i)) = hex_text ssz" "length ssz < 2 ^ 64"
    and "write (dump_dest (wi_tc (its ! i)) i dir) (ZkvmFrame ssz) = None"
  shows "\<exists>data. fold (dump_item write left dir its) order files (dump_dest (wi_tc (its ! i)) i dir) = Some data \<and>
    take (le_nat (take 8 data)) (drop 8 data) = ssz"
proof -
  have "set order = {..< length its}" "distinct order"
    using assms(1) mset_eq_setD [OF assms(1)] mset_eq_imp_distinct_iff [OF assms(1)]
    by (simp_all add: atLeast0LessThan)
  with assms(2) obtain xs ys where order: "order = xs @ i # ys" "i \<notin> set ys"
    by (metis distinct.simps(2) distinct_append in_set_conv_decomp lessThan_iff)
  have "hex_text ssz \<noteq> []" by (simp add: hex_text_def)
  then have "ZesuInputFromZkevmBlock (wi_block (its ! i)) =
      (ZkvmFrame ssz, zb_ExpectException (wi_block (its ! i)) = [], None)"
    by (simp add: ZesuInputFromZkevmBlock_def assms(3) hexStrToBytes_hex_text)
  then have "dump_item write left dir its i fs (dump_dest (wi_tc (its ! i)) i dir) = Some (ZkvmFrame ssz)" for fs
    by (simp add: dump_item_def dumpOne_def assms(5) Let_def)
  then show ?thesis
    using unframe_ZkvmFrame [OF assms(4)] by (simp add: order dump_items_keep)
qed

theorem dump_keeps_every_input_witness:
  "\<exists>data. fold (dump_item (\<lambda>_ _. None) (\<lambda>_ _. None) ''out''
        [\<lparr>wi_path = ''f'', wi_tc = sample_case, wi_block = sample_zkevm_block, wi_name = ''a'', wi_network = ''b''\<rparr>])
        [0] Map.empty (dump_dest sample_case 0 ''out'') = Some data \<and>
     take (le_nat (take 8 data)) (drop 8 data) = [1, 2, 3]"
proof -
  let ?it = "\<lparr>wi_path = ''f'', wi_tc = sample_case, wi_block = sample_zkevm_block, wi_name = ''a'',
    wi_network = ''b''\<rparr>"
  have "mset [0] = mset [0 ..< length [?it]]" "zb_StatelessInputBytes (wi_block ([?it] ! 0)) = hex_text [1, 2, 3]"
    by (simp_all add: sample_zkevm_block_def)
  from dump_keeps_every_input [OF this(1) _ this(2), of "\<lambda>_ _. None" "''out''" "\<lambda>_ _. None" Map.empty]
  show ?thesis by simp
qed

end
