(* ===== verification/Html.thy ===== *)
theory Html
  imports Go_Strings
begin

text \<open>
  HTML as \<open>html/template\<close> writes it: a page is a tree of elements whose texts and attribute values are
  escaped. White space between the elements of a template is left out. Reading is that of a browser's
  tokenizer: a tag runs from \<open><\<close> to \<open>>\<close>, between tags is character data with its references resolved.
\<close>

section \<open>Escaping\<close>

text \<open>The replacement table of \<open>html/template\<close> for text and for quoted attributes; a NUL becomes U+FFFD.\<close>

definition escape_char :: "char \<Rightarrow> string" where
  "escape_char c =
     (if c = CHR 0x00 then [CHR 0xEF, CHR 0xBF, CHR 0xBD]
      else if c = CHR 0x22 then ''&#34;''
      else if c = CHR ''&'' then ''&amp;''
      else if c = CHR 39 then ''&#39;''
      else if c = CHR ''+'' then ''&#43;''
      else if c = CHR ''<'' then ''&lt;''
      else if c = CHR ''>'' then ''&gt;''
      else [c])"

definition html_escape :: "string \<Rightarrow> string" where
  "html_escape s = concat (map escape_char s)"

definition html_clean :: "string \<Rightarrow> string" where
  "html_clean s = concat (map (\<lambda>c. if c = CHR 0x00 then [CHR 0xEF, CHR 0xBF, CHR 0xBD] else [c]) s)"

text \<open>The character references that the escaping writes, and the reader of character data.\<close>

definition references :: "(string \<times> char) list" where
  "references = [(''&#34;'', CHR 0x22), (''&amp;'', CHR ''&''), (''&#39;'', CHR 39), (''&#43;'', CHR ''+''),
                 (''&lt;'', CHR ''<''), (''&gt;'', CHR ''>'')]"

function html_unescape :: "string \<Rightarrow> string" where
  "html_unescape [] = []"
| "html_unescape (c # cs) =
     (case find (\<lambda>(w, d). HasPrefix (c # cs) w) references of
        None \<Rightarrow> c # html_unescape cs
      | Some (w, d) \<Rightarrow> d # html_unescape (drop (length w - 1) cs))"
  by pat_completeness auto

termination
  by (relation "measure length") auto

section \<open>Pages\<close>

datatype html =
    Text string
  | Void string "(string \<times> string) list"
  | Elem string "(string \<times> string) list" "html list"

definition tag_text :: "string \<Rightarrow> (string \<times> string) list \<Rightarrow> string" where
  "tag_text t as = t @ concat (map (\<lambda>(k, v). '' '' @ k @ [CHR ''='', CHR 0x22] @ html_escape v @ [CHR 0x22]) as)"

fun render :: "html \<Rightarrow> string" where
  "render (Text s) = html_escape s"
| "render (Void t as) = ''<'' @ tag_text t as @ ''>''"
| "render (Elem t as ks) = ''<'' @ tag_text t as @ ''>'' @ concat (map render ks) @ ''</'' @ t @ ''>''"

section \<open>Reading\<close>

datatype token = Tag string | Chars string

function tokenise :: "string \<Rightarrow> token list" where
  "tokenise [] = []"
| "tokenise (c # cs) =
     (if c = CHR ''<'' then Tag (takeWhile (\<lambda>c. c \<noteq> CHR ''>'') cs) # tokenise (drop 1 (dropWhile (\<lambda>c. c \<noteq> CHR ''>'') cs))
      else Chars (html_unescape (takeWhile (\<lambda>c. c \<noteq> CHR ''<'') (c # cs))) #
             tokenise (dropWhile (\<lambda>c. c \<noteq> CHR ''<'') (c # cs)))"
  by pat_completeness auto

termination
  by (relation "measure length") (auto simp: less_Suc_eq_le length_dropWhile_le le_SucI intro: le_trans [OF diff_le_self])

text \<open>The rows of the tables of a page: the texts of the cells, row by row.\<close>

definition tag_name :: "string \<Rightarrow> string" where
  "tag_name t = takeWhile (\<lambda>c. c \<noteq> CHR '' '') t"

fun table_rows :: "token list \<Rightarrow> string list \<Rightarrow> string \<Rightarrow> string list list" where
  "table_rows [] row cell = []"
| "table_rows (Chars s # ts) row cell = table_rows ts row (cell @ s)"
| "table_rows (Tag t # ts) row cell =
     (if tag_name t = ''tr'' then table_rows ts [] []
      else if tag_name t \<in> {''td'', ''th''} then table_rows ts row []
      else if t \<in> {''/td'', ''/th''} then table_rows ts (row @ [cell]) []
      else if t = ''/tr'' then row # table_rows ts [] []
      else table_rows ts row cell)"

definition page_rows :: "string \<Rightarrow> string list list" where
  "page_rows text = table_rows (tokenise text) [] []"

section \<open>Reading back what was written\<close>

declare html_unescape.simps [simp del] tokenise.simps [simp del]

lemma no_reference: "c \<noteq> CHR ''&'' \<Longrightarrow> html_unescape (c # cs) = c # html_unescape cs"
  by (simp add: html_unescape.simps references_def HasPrefix_def)

lemma unescape_reference:
  "(w, d) \<in> set references \<Longrightarrow> html_unescape (w @ x) = d # html_unescape x"
  unfolding references_def
  by (auto simp: html_unescape.simps(2) references_def HasPrefix_def)

lemma unescape_escape_char: "html_unescape (escape_char c @ x) = html_clean [c] @ html_unescape x"
proof -
  have "html_unescape (escape_char c @ x) = c # html_unescape x" if "c \<noteq> CHR 0x00"
  proof (cases "c \<in> snd ` set references")
    case True
    then have "(escape_char c, c) \<in> set references" by (auto simp: references_def escape_char_def)
    then show ?thesis by (rule unescape_reference)
  next
    case False
    then have "escape_char c = [c]" "c \<noteq> CHR ''&''" using that by (auto simp: references_def escape_char_def)
    then show ?thesis by (simp add: no_reference)
  qed
  moreover have "html_unescape ([CHR 0xEF, CHR 0xBF, CHR 0xBD] @ x) = [CHR 0xEF, CHR 0xBF, CHR 0xBD] @ html_unescape x"
    by (simp add: no_reference)
  ultimately show ?thesis by (cases "c = CHR 0x00") (simp_all add: html_clean_def escape_char_def)
qed

lemma unescape_escape: "html_unescape (html_escape s @ x) = html_clean s @ html_unescape x"
proof (induction s)
  case (Cons c s)
  have "html_escape (c # s) @ x = escape_char c @ (html_escape s @ x)" by (simp add: html_escape_def)
  moreover have "html_clean (c # s) = html_clean [c] @ html_clean s" by (simp add: html_clean_def)
  ultimately show ?case using unescape_escape_char [of c "html_escape s @ x"] Cons by simp
qed (simp add: html_escape_def html_clean_def)

lemma html_clean_text: "CHR 0x00 \<notin> set s \<Longrightarrow> html_clean s = s"
  by (induction s) (auto simp: html_clean_def)

lemma escape_no_markup: "c \<in> {CHR ''<'', CHR ''>'', CHR 0x22} \<Longrightarrow> c \<notin> set (html_escape s)"
  by (auto simp: html_escape_def escape_char_def split: if_splits)

lemma html_escape_Nil: "html_escape s = [] \<longleftrightarrow> s = []"
  by (cases s) (auto simp: html_escape_def escape_char_def)

text \<open>Neighbouring texts become one; an empty text leaves no trace.\<close>

fun join :: "token list \<Rightarrow> token list" where
  "join [] = []"
| "join (Tag t # ts) = Tag t # join ts"
| "join (Chars s # ts) =
     (if s = [] then join ts
      else case join ts of Chars s' # ts' \<Rightarrow> Chars (s @ s') # ts' | ts' \<Rightarrow> Chars s # ts')"

fun html_tokens :: "html \<Rightarrow> token list" where
  "html_tokens (Text s) = [Chars (html_clean s)]"
| "html_tokens (Void t as) = [Tag (tag_text t as)]"
| "html_tokens (Elem t as ks) = Tag (tag_text t as) # concat (map html_tokens ks) @ [Tag (CHR ''/'' # t)]"

fun token_text :: "token \<Rightarrow> string" where
  "token_text (Tag t) = ''<'' @ t @ ''>''"
| "token_text (Chars s) = html_escape s"

fun token_ok :: "token \<Rightarrow> bool" where
  "token_ok (Tag t) = (CHR ''>'' \<notin> set t)"
| "token_ok (Chars s) = (CHR 0x00 \<notin> set s)"

lemma tokenise_tag: "CHR ''>'' \<notin> set t \<Longrightarrow> tokenise (''<'' @ t @ ''>'' @ x) = Tag t # tokenise x"
proof -
  assume t: "CHR ''>'' \<notin> set t"
  then have "takeWhile (\<lambda>c. c \<noteq> CHR ''>'') (t @ CHR ''>'' # x) = t" "dropWhile (\<lambda>c. c \<noteq> CHR ''>'') (t @ CHR ''>'' # x) = CHR ''>'' # x"
    by (auto simp: takeWhile_append dropWhile_append)
  then show ?thesis by (simp add: tokenise.simps)
qed

lemma tokenise_chars:
  assumes "CHR 0x00 \<notin> set s" "s \<noteq> []"
  shows "tokenise (html_escape s @ x) =
    (case tokenise x of Chars s' # ts \<Rightarrow> Chars (s @ s') # ts | ts \<Rightarrow> Chars s # ts)"
proof -
  obtain a as where esc: "html_escape s = a # as" using assms(2) html_escape_Nil by (cases "html_escape s") auto
  have plain: "CHR ''<'' \<notin> set (html_escape s)" by (rule escape_no_markup) simp
  then have a: "a \<noteq> CHR ''<''" by (auto simp: esc)
  have "takeWhile (\<lambda>c. c \<noteq> CHR ''<'') (html_escape s @ x) = html_escape s @ takeWhile (\<lambda>c. c \<noteq> CHR ''<'') x"
    "dropWhile (\<lambda>c. c \<noteq> CHR ''<'') (html_escape s @ x) = dropWhile (\<lambda>c. c \<noteq> CHR ''<'') x"
    using plain by (auto simp: takeWhile_append dropWhile_append)
  then have "tokenise (html_escape s @ x) =
      Chars (s @ html_unescape (takeWhile (\<lambda>c. c \<noteq> CHR ''<'') x)) # tokenise (dropWhile (\<lambda>c. c \<noteq> CHR ''<'') x)"
    using a unescape_escape [of s] html_clean_text [OF assms(1)]
    by (simp add: esc tokenise.simps(2))
  then show ?thesis by (cases x) (simp_all add: tokenise.simps html_unescape.simps(1))
qed

lemma tokenise_tokens: "list_all token_ok ts \<Longrightarrow> tokenise (concat (map token_text ts)) = join ts"
proof (induction ts)
  case (Cons t ts)
  show ?case
  proof (cases t)
    case (Tag u)
    then show ?thesis using Cons tokenise_tag [of u] by simp
  next
    case (Chars u)
    then show ?thesis using Cons tokenise_chars [of u] by (cases "u = []") (simp_all add: html_escape_def)
  qed
qed (simp add: tokenise.simps)

text \<open>Names of elements and attributes come from the template.\<close>

fun html_ok :: "html \<Rightarrow> bool" where
  "html_ok (Text s) = True"
| "html_ok (Void t as) = (CHR ''>'' \<notin> set t \<and> list_all (\<lambda>(k, v). CHR ''>'' \<notin> set k) as)"
| "html_ok (Elem t as ks) = (CHR ''>'' \<notin> set t \<and> list_all (\<lambda>(k, v). CHR ''>'' \<notin> set k) as \<and> list_all html_ok ks)"

lemma tag_text_ok:
  "CHR ''>'' \<notin> set t \<Longrightarrow> list_all (\<lambda>(k, v). CHR ''>'' \<notin> set k) as \<Longrightarrow> CHR ''>'' \<notin> set (tag_text t as)"
  using escape_no_markup [of "CHR ''>''"] by (auto simp: tag_text_def list_all_iff)

lemma html_clean_no_nul: "CHR 0x00 \<notin> set (html_clean s)"
  by (auto simp: html_clean_def)

lemma html_tokens_ok: "html_ok h \<Longrightarrow> list_all token_ok (html_tokens h)"
  by (induction h) (auto simp: tag_text_ok html_clean_no_nul list_all_iff)

lemma escape_clean: "html_escape (html_clean s) = html_escape s"
  by (induction s) (auto simp: html_escape_def html_clean_def escape_char_def)

lemma render_tokens: "render h = concat (map token_text (html_tokens h))"
proof (induction h)
  case (Elem t as ks)
  then have "concat (map render ks) = concat (map (\<lambda>h. concat (map token_text (html_tokens h))) ks)"
    by (metis (no_types, lifting) map_cong)
  also have "\<dots> = concat (map token_text (concat (map html_tokens ks)))" by (induction ks) simp_all
  finally show ?case by simp
qed (simp_all add: escape_clean)

text \<open>A browser sees the tags of the template, with the strings of the report as character data.\<close>

lemma tokenise_render: "html_ok h \<Longrightarrow> tokenise (render h) = join (html_tokens h)"
  by (simp add: render_tokens tokenise_tokens html_tokens_ok)

lemma table_rows_join: "table_rows (join ts) row cell = table_rows ts row cell"
proof (induction ts arbitrary: row cell rule: join.induct)
  case (3 s ts)
  then show ?case by (auto split: list.splits token.splits) (metis append.assoc table_rows.simps(2))+
qed simp_all

lemma page_rows_render: "html_ok h \<Longrightarrow> page_rows (render h) = table_rows (html_tokens h) [] []"
  by (simp add: page_rows_def tokenise_render table_rows_join)

section \<open>Tables\<close>

text \<open>The text of what a cell holds, and content without rows and cells of its own.\<close>

fun text_of :: "html \<Rightarrow> string" where
  "text_of (Text s) = html_clean s"
| "text_of (Void t as) = []"
| "text_of (Elem t as ks) = concat (map text_of ks)"

definition table_tag :: "string \<Rightarrow> bool" where
  "table_tag t \<longleftrightarrow> t \<in> {''tr'', ''td'', ''th''} \<or> CHR '' '' \<in> set t \<or> CHR ''/'' \<in> set t"

fun inline :: "html \<Rightarrow> bool" where
  "inline (Text s) = True"
| "inline (Void t as) = (\<not> table_tag t)"
| "inline (Elem t as ks) = (\<not> table_tag t \<and> list_all inline ks)"

lemma tag_text_split: "\<exists>r. tag_text t as = t @ r \<and> (r = [] \<or> hd r = CHR '' '')"
  by (cases as) (auto simp: tag_text_def)

lemma tag_name_text:
  assumes "CHR '' '' \<notin> set t"
  shows "tag_name (tag_text t as) = t"
proof -
  obtain r where r: "tag_text t as = t @ r" "r = [] \<or> hd r = CHR '' ''" using tag_text_split by blast
  have "takeWhile (\<lambda>c. c \<noteq> CHR '' '') r = []" using r(2) by (cases r) auto
  moreover have "\<forall>c \<in> set t. c \<noteq> CHR '' ''" using assms by blast
  ultimately show ?thesis by (simp add: tag_name_def r(1) takeWhile_append)
qed

lemma skip_tag:
  assumes "\<not> table_tag t"
  shows "table_rows (Tag (tag_text t as) # ts) row cell = table_rows ts row cell"
    and "table_rows (Tag (CHR ''/'' # t) # ts) row cell = table_rows ts row cell"
proof -
  have t: "t \<notin> {''tr'', ''td'', ''th''}" "CHR '' '' \<notin> set t" "CHR ''/'' \<notin> set t"
    using assms by (auto simp: table_tag_def)
  have "tag_text t as \<noteq> CHR ''/'' # u" for u
  proof -
    obtain r where "tag_text t as = t @ r" "r = [] \<or> hd r = CHR '' ''" using tag_text_split by blast
    then show ?thesis using t(3) by (cases t; cases r) auto
  qed
  then show "table_rows (Tag (tag_text t as) # ts) row cell = table_rows ts row cell"
    using t tag_name_text [OF t(2), of as] by simp
  have "tag_name (CHR ''/'' # t) = CHR ''/'' # t"
    using t(2) by (simp add: tag_name_def takeWhile_eq_all_conv) blast
  then show "table_rows (Tag (CHR ''/'' # t) # ts) row cell = table_rows ts row cell"
    using t by simp
qed

lemma inline_rows:
  "inline h \<Longrightarrow> table_rows (html_tokens h @ ts) row cell = table_rows ts row (cell @ text_of h)"
proof (induction h arbitrary: ts cell)
  case (Elem t as ks)
  have "table_rows (concat (map html_tokens ks) @ ts) row cell = table_rows ts row (cell @ concat (map text_of ks))"
    if "list_all inline ks" "\<And>h ts cell. h \<in> set ks \<Longrightarrow> inline h \<Longrightarrow>
      table_rows (html_tokens h @ ts) row cell = table_rows ts row (cell @ text_of h)" for ts cell
    using that by (induction ks arbitrary: cell) simp_all
  with Elem show ?case by (simp add: skip_tag del: table_rows.simps)
qed (simp_all add: skip_tag del: table_rows.simps(3))

lemma inline_list_rows:
  "list_all inline hs \<Longrightarrow>
     table_rows (concat (map html_tokens hs) @ ts) row cell = table_rows ts row (cell @ concat (map text_of hs))"
  by (induction hs arbitrary: cell) (simp_all add: inline_rows)

lemma cell_tags:
  "tag_name (tag_text ''td'' as) = ''td''" "tag_name (tag_text ''th'' as) = ''th''" "tag_name (tag_text ''tr'' as) = ''tr''"
  "tag_name ''/td'' = ''/td''" "tag_name ''/th'' = ''/th''" "tag_name ''/tr'' = ''/tr''"
  by (simp_all add: tag_name_text) (simp_all add: tag_name_def)

text \<open>
  The rows of a page as a tree: rows hold cells, cells hold inline content, and other elements are neither
  rows nor cells.
\<close>

fun cell :: "html \<Rightarrow> bool" where
  "cell (Elem t as hs) = (t \<in> {''td'', ''th''} \<and> list_all inline hs)"
| "cell _ = False"

fun cell_text :: "html \<Rightarrow> string" where
  "cell_text (Elem t as hs) = concat (map text_of hs)"
| "cell_text _ = []"

fun block :: "html \<Rightarrow> bool" where
  "block (Text s) = True"
| "block (Void t as) = (\<not> table_tag t)"
| "block (Elem t as ks) = (if t = ''tr'' then list_all cell ks else \<not> table_tag t \<and> list_all block ks)"

fun rows_of :: "html \<Rightarrow> string list list" where
  "rows_of (Elem t as ks) = (if t = ''tr'' then [map cell_text ks] else concat (map rows_of ks))"
| "rows_of _ = []"

lemma cell_rows:
  assumes "cell h"
  shows "table_rows (html_tokens h @ ts) row c = table_rows ts (row @ [cell_text h]) []"
proof -
  obtain t as hs where h: "h = Elem t as hs" "t = ''td'' \<or> t = ''th''" "list_all inline hs"
    using assms by (cases h) auto
  then show ?thesis by (elim disjE) (simp_all add: cell_tags inline_list_rows)
qed

lemma cells_rows:
  "list_all cell hs \<Longrightarrow> \<exists>c'. table_rows (concat (map html_tokens hs) @ ts) row c = table_rows ts (row @ map cell_text hs) c'"
proof (induction hs arbitrary: row c)
  case (Cons h hs)
  then show ?case using cell_rows [of h] Cons.IH [of "row @ [cell_text h]" "[]"] by simp
qed auto

lemma block_rows: "block h \<Longrightarrow> \<exists>c'. table_rows (html_tokens h @ ts) [] c = rows_of h @ table_rows ts [] c'"
proof (induction h arbitrary: ts c)
  case (Elem t as ks)
  show ?case
  proof (cases "t = ''tr''")
    case True
    with Elem.prems have "list_all cell ks" by simp
    from cells_rows [OF this, of "Tag ''/tr'' # ts" "[]" "[]"] obtain c' where
      "table_rows (concat (map html_tokens ks) @ Tag ''/tr'' # ts) [] [] = map cell_text ks # table_rows ts [] []"
      by (auto simp: cell_tags)
    then show ?thesis using True by (auto simp: cell_tags)
  next
    case False
    with Elem.prems have t: "\<not> table_tag t" "list_all block ks" by auto
    have "\<exists>c'. table_rows (concat (map html_tokens hs) @ ts) [] c = concat (map rows_of hs) @ table_rows ts [] c'"
      if "set hs \<subseteq> set ks" for hs ts c
      using that
    proof (induction hs arbitrary: c)
      case (Cons h hs)
      then have "h \<in> set ks" "block h" using t(2) by (auto simp: list_all_iff)
      then show ?case using Elem.IH [of h "concat (map html_tokens hs) @ ts" c] Cons by fastforce
    qed auto
    from this [of ks "Tag (CHR ''/'' # t) # ts" c] False t(1) show ?thesis
      by (simp add: skip_tag del: table_rows.simps)
  qed
qed (auto simp: skip_tag simp del: table_rows.simps(3))

lemma page_rows_of:
  assumes "html_ok h" "block h"
  shows "page_rows (render h) = rows_of h"
  using page_rows_render [OF assms(1)] block_rows [OF assms(2), of "[]" "[]"] by auto

text \<open>The parts of a table.\<close>

definition td :: "(string \<times> string) list \<Rightarrow> html list \<Rightarrow> html" where
  "td as hs = Elem ''td'' as hs"

definition table ::
  "(string \<times> string) list \<Rightarrow> ((string \<times> string) list \<times> string) list \<Rightarrow> (string \<times> string) list \<Rightarrow> html list \<Rightarrow> html" where
  "table as columns body rows =
     Elem ''table'' as
       [Elem ''thead'' [] [Elem ''tr'' [] (map (\<lambda>(a, n). Elem ''th'' a [Text n]) columns)], Elem ''tbody'' body rows]"

definition plain_columns :: "string list \<Rightarrow> ((string \<times> string) list \<times> string) list" where
  "plain_columns ns = map (\<lambda>n. ([], n)) ns"

lemma html_clean_append: "html_clean (a @ b) = html_clean a @ html_clean b"
  by (simp add: html_clean_def)

lemma page_tags:
  "\<not> table_tag ''span''" "\<not> table_tag ''details''" "\<not> table_tag ''summary''" "\<not> table_tag ''pre''"
  "\<not> table_tag ''table''" "\<not> table_tag ''thead''" "\<not> table_tag ''tbody''" "\<not> table_tag ''div''" "\<not> table_tag ''body''"
  "\<not> table_tag ''h1''" "\<not> table_tag ''h2''" "\<not> table_tag ''p''" "\<not> table_tag ''button''" "\<not> table_tag ''label''"
  "\<not> table_tag ''input''" "\<not> table_tag ''canvas''"
  by code_simp+

abbreviation attrs_ok :: "(string \<times> string) list \<Rightarrow> bool" where
  "attrs_ok as \<equiv> list_all (\<lambda>(k, v). CHR ''>'' \<notin> set k) as"

lemma table_page:
  assumes "\<And>r. r \<in> set rs \<Longrightarrow> html_ok (f r) \<and> block (f r) \<and> rows_of (f r) = [g r]"
    and "attrs_ok as" "attrs_ok body" "list_all (\<lambda>(a, n). attrs_ok a) columns"
  shows "html_ok (table as columns body (map f rs))" "block (table as columns body (map f rs))"
    "rows_of (table as columns body (map f rs)) = map (\<lambda>(a, n). html_clean n) columns # map g rs"
proof -
  have "concat (map (rows_of \<circ> f) rs) = map g rs" using assms(1) by (induction rs) auto
  then show "rows_of (table as columns body (map f rs)) = map (\<lambda>(a, n). html_clean n) columns # map g rs"
    by (simp add: table_def comp_def case_prod_unfold)
  show "html_ok (table as columns body (map f rs))"
    using assms by (simp add: table_def list.pred_map comp_def case_prod_unfold) (simp add: list_all_iff)
  show "block (table as columns body (map f rs))"
    using assms by (simp add: table_def page_tags list.pred_map comp_def case_prod_unfold) (simp add: list_all_iff)
qed

lemma plain_columns_page:
  "list_all (\<lambda>(a, n). attrs_ok a) (plain_columns ns)" "map (\<lambda>(a, n). html_clean n) (plain_columns ns) = map html_clean ns"
  by (simp_all add: plain_columns_def list_all_iff comp_def)

text \<open>Marks in cells.\<close>

definition check_mark :: string where
  "check_mark = [CHR 0xE2, CHR 0x9C, CHR 0x93]"

definition cross_mark :: string where
  "cross_mark = [CHR 0xE2, CHR 0x9C, CHR 0x97]"

lemma marks_clean: "html_clean check_mark = check_mark" "html_clean cross_mark = cross_mark"
  by (simp_all add: html_clean_def check_mark_def cross_mark_def)

end
