(* ===== verification/Runner_Page.thy ===== *)
theory Runner_Page
  imports Zkevm_Runner Html
begin

text \<open>
  The report of \<open>zkevm-runner\<close> as a page: the template in \<open>cmd/zkevm-runner/main.go\<close> with its tabs. The head
  with the style sheet is left out.
\<close>

section \<open>The page\<close>

definition mark :: "bool \<Rightarrow> string \<Rightarrow> string \<Rightarrow> html" where
  "mark b yes no =
     (if b then Elem ''span'' [(''class'', ''tag-pass'')] [Text (check_mark @ yes)]
      else Elem ''span'' [(''class'', ''tag-fail'')] [Text (cross_mark @ no)])"

definition mono :: "string \<Rightarrow> html" where
  "mono s = td [(''class'', ''mono'')] [Text s]"

definition network_cell :: "string \<Rightarrow> html" where
  "network_cell s = td [] [Elem ''span'' [(''class'', ''tag-network'')] [Text s]]"

definition failure_tr :: "failureRow \<Rightarrow> html" where
  "failure_tr r =
     Elem ''tr'' []
       [mono (fl_Name r), network_cell (fl_Network r),
        td [] [mark (fl_ExpectedSuccess r) '' success'' '' failure''],
        td [] [mark (fl_GotSuccess r) '' success'' '' failure''],
        td [] [if fl_OutputMatch r then Elem ''span'' [(''class'', ''tag-pass'')] [Text (check_mark @ '' match'')]
               else Elem ''details'' []
                 [Elem ''summary'' [(''class'', ''tag-fail mono'')] [Text (cross_mark @ '' mismatch'')],
                  Elem ''pre'' [] [Text ''expected: '', Text (fl_ExpectedOutputHex r), Text ([CHR 10] @ ''got:      ''),
                                 Text (fl_GotOutputHex r)]]],
        mono (fl_ErrLine r), td [(''style'', ''white-space:nowrap'')] [Text (fl_Elapsed r)]]"

definition error_tr :: "runner_errorRow \<Rightarrow> html" where
  "error_tr r =
     Elem ''tr'' []
       [mono (re_Name r), network_cell (re_Network r),
        td [] [Elem ''details'' []
                 [Elem ''summary'' [(''class'', ''mono'')] [Text (re_ErrMsg r)], Elem ''pre'' [] [Text (re_Output r)]]]]"

definition skip_tr :: "runner_errorRow \<Rightarrow> html" where
  "skip_tr r = Elem ''tr'' [] [mono (re_Name r), network_cell (re_Network r), mono (re_ErrMsg r)]"

text \<open>A tab of the page: its name, and whether it is active when the page is loaded.\<close>

definition runner_tabs :: "runner_reportData \<Rightarrow> (string \<times> bool) list" where
  "runner_tabs D =
     (if rp_Failures D \<noteq> [] then [(''failures'', True)] else []) @
     (if rp_Errors D \<noteq> [] then [(''errors'', rp_Failures D = [])] else []) @
     (if rp_Skips D \<noteq> [] then [(''skipped'', False)] else [])"

definition tab_class :: "string \<Rightarrow> bool \<Rightarrow> string" where
  "tab_class name active = (if active then name @ '' active'' else name)"

definition tab_button :: "runner_reportData \<Rightarrow> string \<times> bool \<Rightarrow> html" where
  "tab_button D t =
     (case t of (i, active) \<Rightarrow>
        Elem ''button'' [(''class'', tab_class ''tab-btn'' active), (''onclick'', ''showTab('' @ [CHR 39] @ i @ [CHR 39] @ '')'')]
          [if i = ''failures'' then Text (''Validation Failures ('' @ itoa (rp_Failed D) @ '')'')
           else if i = ''errors'' then Text (''Errors ('' @ itoa (rp_Errored D) @ '')'')
           else Text (''Skipped ('' @ itoa (rp_Skipped D) @ '')'')])"

definition tab_panel :: "runner_reportData \<Rightarrow> string \<times> bool \<Rightarrow> html" where
  "tab_panel D t =
     (case t of (i, active) \<Rightarrow>
        Elem ''div'' [(''id'', ''tab-'' @ i), (''class'', tab_class ''tab-panel'' active)]
          [if i = ''failures''
           then table [] (plain_columns [''Test'', ''Network'', ''Expected'', ''Got'', ''Output'', ''Error'', ''Time'']) [] (map failure_tr (rp_Failures D))
           else if i = ''errors'' then table [] (plain_columns [''Test'', ''Network'', ''Error'']) [] (map error_tr (rp_Errors D))
           else table [] (plain_columns [''Test'', ''Network'', ''Reason'']) [] (map skip_tr (rp_Skips D))])"

definition pill :: "string \<Rightarrow> nat \<Rightarrow> string \<Rightarrow> html" where
  "pill colour n what = Elem ''span'' [(''class'', ''pill pill-'' @ colour)] [Text (itoa n), Text what]"

definition runner_page :: "string \<Rightarrow> runner_reportData \<Rightarrow> html" where
  "runner_page generated D =
     Elem ''body'' []
       ([Elem ''h1'' [] [Text ''zkevm-runner Report''],
         Elem ''p'' [(''class'', ''meta'')] [Text ''Generated: '', Text generated],
         Elem ''p'' []
           ([pill ''grey'' (rp_Total D) '' total'', pill ''green'' (rp_Passed D) '' passed''] @
            (if rp_Failed D \<noteq> 0 then [pill ''red'' (rp_Failed D) '' validation failures''] else []) @
            (if rp_Errored D \<noteq> 0 then [pill ''orange'' (rp_Errored D) '' errors''] else []) @
            (if rp_Skipped D \<noteq> 0 then [pill ''grey'' (rp_Skipped D) '' skipped''] else []))] @
        (if rp_Failed D = 0 \<and> rp_Errored D = 0 \<and> rp_Skipped D = 0
         then [Elem ''p'' [(''style'', ''color:#0a3622;font-weight:600'')] [Text (''All '' @ itoa (rp_Total D) @ '' tests passed.'')]]
         else Elem ''div'' [(''class'', ''tabs'')] (map (tab_button D) (runner_tabs D)) #
              map (tab_panel D) (runner_tabs D)))"

text \<open>\<open>showTab\<close>: the tab that was clicked becomes the active one, button and panel.\<close>

definition showTab :: "string \<Rightarrow> (string \<times> bool) list \<Rightarrow> (string \<times> bool) list" where
  "showTab name tabs = map (\<lambda>(i, _). (i, i = name)) tabs"

section \<open>Reading the page\<close>

definition mark_text :: "bool \<Rightarrow> string \<Rightarrow> string \<Rightarrow> string" where
  "mark_text b yes no = (if b then check_mark @ yes else cross_mark @ no)"

definition failure_cells :: "failureRow \<Rightarrow> string list" where
  "failure_cells r =
     [html_clean (fl_Name r), html_clean (fl_Network r), mark_text (fl_ExpectedSuccess r) '' success'' '' failure'',
      mark_text (fl_GotSuccess r) '' success'' '' failure'',
      (if fl_OutputMatch r then check_mark @ '' match''
       else cross_mark @ '' mismatchexpected: '' @ html_clean (fl_ExpectedOutputHex r) @ [CHR 10] @ ''got:      '' @
            html_clean (fl_GotOutputHex r)),
      html_clean (fl_ErrLine r), html_clean (fl_Elapsed r)]"

definition error_cells :: "runner_errorRow \<Rightarrow> string list" where
  "error_cells r = [html_clean (re_Name r), html_clean (re_Network r), html_clean (re_ErrMsg r) @ html_clean (re_Output r)]"

definition skip_cells :: "runner_errorRow \<Rightarrow> string list" where
  "skip_cells r = [html_clean (re_Name r), html_clean (re_Network r), html_clean (re_ErrMsg r)]"

lemma text_clean:
  "html_clean '' success'' = '' success''" "html_clean '' failure'' = '' failure''" "html_clean '' match'' = '' match''"
  "html_clean '' mismatch'' = '' mismatch''" "html_clean ''expected: '' = ''expected: ''"
  "html_clean (CHR 10 # ''got:      '') = CHR 10 # ''got:      ''"
  by (rule html_clean_text, simp)+

lemma mark_page:
  "inline (mark b yes no)" "html_ok (mark b yes no)"
  "text_of (mark b yes no) = mark_text b (html_clean yes) (html_clean no)"
  by (simp_all add: mark_def mark_text_def page_tags html_clean_append marks_clean)

lemma failure_tr_page:
  "html_ok (failure_tr r)" "block (failure_tr r)" "rows_of (failure_tr r) = [failure_cells r]"
  by (simp_all add: failure_tr_def mono_def network_cell_def td_def mark_page page_tags failure_cells_def
      html_clean_append marks_clean text_clean)

lemma error_tr_page:
  "html_ok (error_tr r)" "block (error_tr r)"
  "rows_of (error_tr r) = [error_cells r]"
  by (simp_all add: error_cells_def error_tr_def mono_def network_cell_def td_def page_tags)

lemma skip_tr_page:
  "html_ok (skip_tr r)" "block (skip_tr r)"
  "rows_of (skip_tr r) = [skip_cells r]"
  by (simp_all add: skip_cells_def skip_tr_def mono_def network_cell_def td_def page_tags)

lemma tables_page:
  "html_ok (table [] (plain_columns cols) [] (map failure_tr fs))" "block (table [] (plain_columns cols) [] (map failure_tr fs))"
  "rows_of (table [] (plain_columns cols) [] (map failure_tr fs)) = map html_clean cols # map failure_cells fs"
  "html_ok (table [] (plain_columns cols) [] (map error_tr es))" "block (table [] (plain_columns cols) [] (map error_tr es))"
  "rows_of (table [] (plain_columns cols) [] (map error_tr es)) = map html_clean cols # map error_cells es"
  "html_ok (table [] (plain_columns cols) [] (map skip_tr es))" "block (table [] (plain_columns cols) [] (map skip_tr es))"
  "rows_of (table [] (plain_columns cols) [] (map skip_tr es)) = map html_clean cols # map skip_cells es"
  by (simp_all add: table_page plain_columns_page failure_tr_page error_tr_page skip_tr_page
      table_page(3) [of fs failure_tr failure_cells] table_page(3) [of es error_tr error_cells] table_page(3) [of es skip_tr skip_cells])

lemma tab_panel_page: "html_ok (tab_panel D t)" "block (tab_panel D t)"
  by (simp_all add: tab_panel_def page_tags tables_page split: prod.split)

lemma pill_page: "html_ok (pill c n w)" "block (pill c n w)" "rows_of (pill c n w) = []"
  by (simp_all add: pill_def page_tags del: format_digits.simps)

lemma tab_button_page: "html_ok (tab_button D t)" "block (tab_button D t)" "rows_of (tab_button D t) = []"
  by (simp_all add: tab_button_def page_tags split: prod.split del: format_digits.simps)

lemma runner_page_ok: "html_ok (runner_page generated D)" "block (runner_page generated D)"
  unfolding runner_page_def
  by (simp_all add: pill_page tab_button_page page_tags tab_panel_page list.pred_map comp_def list.pred_True
      del: format_digits.simps)

lemma tab_panel_rows:
  "rows_of (tab_panel D (''failures'', a)) =
     [''Test'', ''Network'', ''Expected'', ''Got'', ''Output'', ''Error'', ''Time''] # map failure_cells (rp_Failures D)"
  "rows_of (tab_panel D (''errors'', a)) = [''Test'', ''Network'', ''Error''] # map error_cells (rp_Errors D)"
  "rows_of (tab_panel D (''skipped'', a)) = [''Test'', ''Network'', ''Reason''] # map skip_cells (rp_Skips D)"
  by (simp_all add: tab_panel_def tables_page html_clean_text)

text \<open>Of the tabs a page has, exactly the one that was clicked is active.\<close>

lemma showTab_active:
  assumes "distinct (map fst tabs)" "name \<in> fst ` set tabs"
  shows "map fst (showTab name tabs) = map fst tabs" "map fst (filter snd (showTab name tabs)) = [name]"
proof -
  show "map fst (showTab name tabs) = map fst tabs" by (simp add: showTab_def case_prod_unfold comp_def)
  have "filter (\<lambda>i. i = name) (map fst tabs) = [name]"
    using assms by (induction tabs) (force simp: filter_empty_conv)+
  then show "map fst (filter snd (showTab name tabs)) = [name]"
    by (simp add: showTab_def filter_map comp_def case_prod_unfold)
qed

text \<open>A report that has skipped tests only opens with no tab active: its table stays hidden until a click.\<close>

lemma skips_only_hidden:
  "rp_Failures D = [] \<Longrightarrow> rp_Errors D = [] \<Longrightarrow> filter snd (runner_tabs D) = []"
  by (simp add: runner_tabs_def)

section \<open>Properties\<close>

text \<open>
  C28: the page shows the report and nothing else. Whatever characters the names, networks, errors and
  guest outputs contain, a browser that reads the page finds a table of failures, one of errors
  and one of skipped tests, each only if it has rows, with one row per result in the order of the report
  and in each cell the text of the report (a NUL byte as U+FFFD); no string of a fixture or guest
  adds, removes or moves a row or a cell.
\<close>

theorem runner_page_rows:
  "let D = runner_report results
   in page_rows (render (runner_page generated D)) =
    (if rp_Failures D = [] then []
     else [''Test'', ''Network'', ''Expected'', ''Got'', ''Output'', ''Error'', ''Time''] # map failure_cells (rp_Failures D)) @
    (if rp_Errors D = [] then [] else [''Test'', ''Network'', ''Error''] # map error_cells (rp_Errors D)) @
    (if rp_Skips D = [] then [] else [''Test'', ''Network'', ''Reason''] # map skip_cells (rp_Skips D))"
proof -
  define D where "D = runner_report results"
  have counts: "rp_Failed D = length (rp_Failures D)" "rp_Errored D = length (rp_Errors D)" "rp_Skipped D = length (rp_Skips D)"
    by (simp_all add: D_def runner_report_def Let_def)
  have "page_rows (render (runner_page generated D)) = rows_of (runner_page generated D)"
    by (intro page_rows_of runner_page_ok)
  also have "\<dots> = (if rp_Failures D = [] \<and> rp_Errors D = [] \<and> rp_Skips D = [] then []
      else concat (map (\<lambda>t. rows_of (tab_panel D t)) (runner_tabs D)))"
    by (simp add: runner_page_def counts tab_button_page pill_page comp_def del: format_digits.simps)
  finally show ?thesis unfolding D_def [symmetric] Let_def by (simp add: runner_tabs_def tab_panel_rows)
qed

end
