(* ===== verification/Dry_Run.thy ===== *)
theory Dry_Run
  imports Discover "HOL-Library.Product_Lexorder"
begin

text \<open>
  The census of \<open>bench/discover.go\<close> that \<open>--dry-run\<close> prints: files and bytes per format, the largest
  suites, and what was skipped. The printed tables are given as their rows. Sizes are taken to add up
  below 2^63.
\<close>

definition maxSuitesShown :: nat where
  "maxSuitesShown = 40"

record census =
  cs_Jobs :: "fileJob list"
  cs_Skipped :: "skippedFile list"

definition countByKind :: "census \<Rightarrow> Format \<Rightarrow> nat" where
  "countByKind c = fold (\<lambda>j m. m(fj_Kind j := m (fj_Kind j) + 1)) (cs_Jobs c) (\<lambda>_. 0)"

definition totalBytes :: "census \<Rightarrow> int" where
  "totalBytes c = fold (\<lambda>j n. n + fj_Bytes j) (cs_Jobs c) 0"

text \<open>The map \<open>suites\<close>, with 0 for a name it does not hold.\<close>

definition suite_counts :: "fileJob list \<Rightarrow> string \<Rightarrow> nat" where
  "suite_counts jobs = fold (\<lambda>j m. m(fj_Suite j := m (fj_Suite j) + 1)) jobs (\<lambda>_. 0)"

text \<open>The names of the map, largest suite first and by name within a tie.\<close>

definition suite_order :: "fileJob list \<Rightarrow> string list" where
  "suite_order jobs =
     sort_key (\<lambda>s. (- int (suite_counts jobs s), s)) (remdups (map fj_Suite jobs))"

record census_tables =
  ct_Formats :: "(Format \<times> nat \<times> int) list"
  ct_All :: "nat \<times> int"
  ct_Suites :: nat
  ct_Shown :: "(nat \<times> string) list"
  ct_Rest :: "(nat \<times> nat) option"
  ct_Skipped :: "skippedFile list"

definition format_row :: "census \<Rightarrow> Format \<Rightarrow> Format \<times> nat \<times> int" where
  "format_row c k =
     (k, countByKind c k, fold (\<lambda>j n. if fj_Kind j = k then n + fj_Bytes j else n) (cs_Jobs c) 0)"

definition printCensus :: "census \<Rightarrow> census_tables" where
  "printCensus c =
     (let suites = suite_counts (cs_Jobs c);
          names = suite_order (cs_Jobs c);
          shown = (if maxSuitesShown < length names then take maxSuitesShown names else names);
          hidden = drop (length shown) names
      in \<lparr>ct_Formats = map (format_row c) (filter (\<lambda>k. countByKind c k \<noteq> 0) [FormatCorpus, FormatZkevm]),
          ct_All = (length (cs_Jobs c), totalBytes c),
          ct_Suites = length names,
          ct_Shown = map (\<lambda>s. (suites s, s)) shown,
          ct_Rest = (if length shown < length names
                     then Some (length names - length shown, fold (\<lambda>s n. n + suites s) hidden 0) else None),
          ct_Skipped = cs_Skipped c\<rparr>)"

section \<open>Lemmas\<close>

lemma fold_count:
  "fold (\<lambda>j m. m(f j := m (f j) + 1)) xs m = (\<lambda>k. m k + length (filter (\<lambda>j. f j = k) xs))"
  by (induction xs arbitrary: m) (auto simp: fun_eq_iff)

lemma fold_sum: "fold (\<lambda>x n. n + g x) xs (a :: 'b :: comm_monoid_add) = a + sum_list (map g xs)"
  by (induction xs arbitrary: a) (simp_all add: ac_simps)

lemma fold_sum_filter:
  "fold (\<lambda>x n. if P x then n + g x else n) xs (a :: int) = a + sum_list (map g (filter P xs))"
  by (induction xs arbitrary: a) (simp_all add: ac_simps)

lemma countByKind_eq: "countByKind c k = length (filter (\<lambda>j. fj_Kind j = k) (cs_Jobs c))"
  unfolding countByKind_def fold_count by simp

lemma suite_counts_eq: "suite_counts jobs s = length (filter (\<lambda>j. fj_Suite j = s) jobs)"
  unfolding suite_counts_def fold_count by simp

lemma set_suite_order: "set (suite_order jobs) = fj_Suite ` set jobs" "distinct (suite_order jobs)"
  by (simp_all add: suite_order_def)

lemma suite_counts_total: "sum_list (map (suite_counts jobs) (suite_order jobs)) = length jobs"
proof -
  have "sum_list (map (suite_counts jobs) (suite_order jobs)) = (\<Sum>s \<in> fj_Suite ` set jobs. suite_counts jobs s)"
    using set_suite_order [of jobs] by (metis sum_list_distinct_conv_sum_set)
  also have "\<dots> = (\<Sum>s \<in> set (map fj_Suite jobs). count_list (map fj_Suite jobs) s)"
    by (simp add: suite_counts_eq count_list_eq_length_filter filter_map comp_def eq_commute)
  also have "\<dots> = length jobs" by (simp add: sum_count_set)
  finally show ?thesis .
qed

lemma suite_order_descending:
  assumes "i < j" "j < length (suite_order jobs)"
  shows "suite_counts jobs (suite_order jobs ! j) \<le> suite_counts jobs (suite_order jobs ! i)"
proof -
  let ?k = "\<lambda>s. (- int (suite_counts jobs s), s)"
  have "sorted (map ?k (suite_order jobs))" by (simp add: suite_order_def)
  with assms have "?k (suite_order jobs ! i) \<le> ?k (suite_order jobs ! j)"
    by (auto simp: sorted_iff_nth_mono)
  then show ?thesis by (auto simp: less_eq_prod_def)
qed

lemma kinds_split:
  assumes "\<forall>j \<in> set jobs. fj_Kind j \<noteq> FormatUnknown"
  shows "length (filter (\<lambda>j. fj_Kind j = FormatCorpus) jobs) + length (filter (\<lambda>j. fj_Kind j = FormatZkevm) jobs) =
      length jobs \<and>
    sum_list (map fj_Bytes (filter (\<lambda>j. fj_Kind j = FormatCorpus) jobs)) +
      sum_list (map fj_Bytes (filter (\<lambda>j. fj_Kind j = FormatZkevm) jobs)) = sum_list (map fj_Bytes jobs)"
  using assms
proof (induction jobs)
  case (Cons j jobs)
  then show ?case by (cases "fj_Kind j") auto
qed simp

lemma shown_suites:
  "ct_Shown (printCensus c) =
     map (\<lambda>s. (suite_counts (cs_Jobs c) s, s)) (take maxSuitesShown (suite_order (cs_Jobs c)))"
  by (simp add: printCensus_def Let_def)

lemma rest_suites:
  "ct_Rest (printCensus c) =
     (if maxSuitesShown < length (suite_order (cs_Jobs c))
      then Some (length (suite_order (cs_Jobs c)) - maxSuitesShown,
        sum_list (map (suite_counts (cs_Jobs c)) (drop maxSuitesShown (suite_order (cs_Jobs c))))) else None)"
  by (simp add: printCensus_def Let_def fold_sum)

lemma suites_split:
  "sum_list (map fst (ct_Shown (printCensus c))) + (case ct_Rest (printCensus c) of None \<Rightarrow> 0 | Some (m, n) \<Rightarrow> n) =
     length (cs_Jobs c)"
  "length (ct_Shown (printCensus c)) + (case ct_Rest (printCensus c) of None \<Rightarrow> 0 | Some (m, n) \<Rightarrow> m) =
     card (fj_Suite ` set (cs_Jobs c))"
proof -
  let ?names = "suite_order (cs_Jobs c)" and ?f = "suite_counts (cs_Jobs c)"
  have "sum_list (map ?f (take maxSuitesShown ?names)) + sum_list (map ?f (drop maxSuitesShown ?names)) =
      length (cs_Jobs c)"
    by (metis append_take_drop_id map_append suite_counts_total sum_list_append)
  then show "sum_list (map fst (ct_Shown (printCensus c))) +
      (case ct_Rest (printCensus c) of None \<Rightarrow> 0 | Some (m, n) \<Rightarrow> n) = length (cs_Jobs c)"
    by (simp add: shown_suites rest_suites comp_def suite_counts_total)
  have "card (fj_Suite ` set (cs_Jobs c)) = length ?names"
    using set_suite_order [of "cs_Jobs c"] by (metis distinct_card)
  then show "length (ct_Shown (printCensus c)) +
      (case ct_Rest (printCensus c) of None \<Rightarrow> 0 | Some (m, n) \<Rightarrow> m) = card (fj_Suite ` set (cs_Jobs c))"
    by (simp add: shown_suites rest_suites)
qed

lemma hidden_smaller:
  assumes "s \<in> fj_Suite ` set (cs_Jobs c)" "(n, t) \<in> set (ct_Shown (printCensus c))"
    and "s \<notin> snd ` set (ct_Shown (printCensus c))"
  shows "suite_counts (cs_Jobs c) s \<le> n"
proof -
  let ?names = "suite_order (cs_Jobs c)"
  obtain j where j: "j < length ?names" "?names ! j = s"
    using assms(1) set_suite_order(1) by (metis in_set_conv_nth)
  have "s \<notin> set (take maxSuitesShown ?names)" using assms(3) by (auto simp: shown_suites image_iff)
  then have hidden: "maxSuitesShown \<le> j" using j by (metis in_set_conv_nth length_take min_less_iff_conj not_le nth_take)
  obtain i where i: "i < maxSuitesShown" "i < length ?names" "n = suite_counts (cs_Jobs c) (?names ! i)"
    using assms(2) by (auto simp: shown_suites in_set_conv_nth)
  with suite_order_descending [of i j "cs_Jobs c"] j hidden show ?thesis by simp
qed

lemma formats_split:
  assumes "\<forall>j \<in> set (cs_Jobs c). fj_Kind j \<noteq> FormatUnknown"
  shows "sum_list (map (\<lambda>(k, n, b). n) (ct_Formats (printCensus c))) = length (cs_Jobs c)"
    and "sum_list (map (\<lambda>(k, n, b). b) (ct_Formats (printCensus c))) = snd (ct_All (printCensus c))"
  using kinds_split [OF assms]
  by (auto simp: printCensus_def Let_def format_row_def countByKind_eq totalBytes_def fold_sum fold_sum_filter
      filter_empty_conv)

section \<open>Properties\<close>

text \<open>
  C34: the census accounts for every file that discovery found, whether or not its suite is shown. The
  files and bytes of the formats add up to those of all files; the files of the shown suites and the
  number given for the rest add up to all files, and likewise for the suites; at most 40 suites are
  shown, and none that is left out has more files than one that is shown.
\<close>

theorem census_accounts_for_all:
  assumes "discover fs root = ((jobs, skipped), None)"
    and "T = printCensus \<lparr>cs_Jobs = jobs, cs_Skipped = skipped\<rparr>"
  shows "sum_list (map (\<lambda>(k, n, b). n) (ct_Formats T)) = length jobs \<and>
    sum_list (map (\<lambda>(k, n, b). b) (ct_Formats T)) = snd (ct_All T) \<and>
    sum_list (map fst (ct_Shown T)) + (case ct_Rest T of None \<Rightarrow> 0 | Some (m, n) \<Rightarrow> n) = length jobs \<and>
    length (ct_Shown T) + (case ct_Rest T of None \<Rightarrow> 0 | Some (m, n) \<Rightarrow> m) = card (fj_Suite ` set jobs) \<and>
    length (ct_Shown T) \<le> 40 \<and>
    (\<forall>s \<in> fj_Suite ` set jobs. \<forall>(n, t) \<in> set (ct_Shown T).
       s \<notin> snd ` set (ct_Shown T) \<longrightarrow> length (filter (\<lambda>j. fj_Suite j = s) jobs) \<le> n)"
proof -
  let ?c = "\<lparr>cs_Jobs = jobs, cs_Skipped = skipped\<rparr>"
  have "\<forall>j \<in> set (cs_Jobs ?c). fj_Kind j \<noteq> FormatUnknown" using discover_kinds [OF assms(1)] by simp
  note formats = formats_split [OF this]
  have "length (ct_Shown T) \<le> 40" by (simp add: assms(2) shown_suites maxSuitesShown_def)
  moreover have "\<forall>s \<in> fj_Suite ` set jobs. \<forall>(n, t) \<in> set (ct_Shown T).
      s \<notin> snd ` set (ct_Shown T) \<longrightarrow> length (filter (\<lambda>j. fj_Suite j = s) jobs) \<le> n"
    unfolding assms(2) suite_counts_eq [symmetric] using hidden_smaller [of _ ?c] by fastforce
  ultimately show ?thesis using formats suites_split [of ?c] unfolding assms(2) by simp
qed

theorem census_accounts_for_all_witness:
  "sum_list (map fst (ct_Shown (printCensus
     \<lparr>cs_Jobs = fst (fst (discover sample_fs ''t'')), cs_Skipped = snd (fst (discover sample_fs ''t''))\<rparr>))) = 1"
proof -
  let ?D = "discover sample_fs ''t''"
  let ?T = "printCensus \<lparr>cs_Jobs = fst (fst ?D), cs_Skipped = snd (fst ?D)\<rparr>"
  have "case ?D of ((jobs, skipped), e) \<Rightarrow> e = None \<and> length jobs = 1" by code_simp
  then have run: "snd ?D = None" "length (fst (fst ?D)) = 1" by (simp_all add: case_prod_unfold)
  then have found: "?D = ((fst (fst ?D), snd (fst ?D)), None)" by (simp add: prod_eq_iff)
  have "length (remdups xs) = 1" if "length xs = 1" for xs :: "string list"
    using that by (auto simp: length_Suc_conv)
  then have "ct_Rest ?T = None"
    using run(2) by (simp add: rest_suites suite_order_def maxSuitesShown_def)
  with census_accounts_for_all [OF found refl] run(2) show ?thesis by simp
qed

end
