(* ===== verification/Convert.thy ===== *)
theory Convert
  imports Ssz_Paths
begin

text \<open>
  \<open>cmd/zesu-convert/main.go\<close>: one fixture to one guest input, on standard output or in a file. Reading
  the fixture, creating the output and writing to it are the environment. A panic of the encoder ends
  the process with code 2.
\<close>

record convert_io =
  ci_read :: "string \<Rightarrow> string res"
  ci_create :: "string \<Rightarrow> go_error option"
  ci_write :: "string option \<Rightarrow> bytes \<Rightarrow> go_error option"

text \<open>
  The exit code, what was written with its destination (\<open>None\<close> for standard output), and the last
  message without its line end.
\<close>

record convert_result =
  cv_exit :: nat
  cv_out :: "(string option \<times> bytes) option"
  cv_message :: string

definition convert_usage :: string where
  "convert_usage = ''usage: zesu-convert [--zkvm-input] <fixture.json> [output.bin]''"

definition convert_write ::
  "convert_io \<Rightarrow> string option \<Rightarrow> bytes \<Rightarrow> FixtureFile \<Rightarrow> convert_result" where
  "convert_write io dest data f =
     (case ci_write io dest data of
        Some e \<Rightarrow> \<lparr>cv_exit = 1, cv_out = Some (dest, data), cv_message = ''write: '' @ error_text e\<rparr>
      | None \<Rightarrow>
          \<lparr>cv_exit = 0, cv_out = Some (dest, data),
           cv_message = ''ok: '' @ itoa (length data) @ '' bytes, block='' @
             itoa (unat (fh_Number (bk_Header (si_Block (ff_StatelessInput f))))) @ '' txns='' @
             itoa (length (fb_Transactions (bk_Body (si_Block (ff_StatelessInput f)))))\<rparr>)"

definition convert_main ::
  "geth \<Rightarrow> (string \<Rightarrow> json res) \<Rightarrow> convert_io \<Rightarrow> bool \<Rightarrow> string list \<Rightarrow> convert_result" where
  "convert_main G syntax io zkvmInput args =
     (case args of
        [] \<Rightarrow> \<lparr>cv_exit = 1, cv_out = None, cv_message = convert_usage\<rparr>
      | path # rest \<Rightarrow>
          (case LoadFile syntax path (ci_read io path) of
             Inl e \<Rightarrow> \<lparr>cv_exit = 1, cv_out = None, cv_message = ''load: '' @ error_text e\<rparr>
           | Inr f \<Rightarrow>
               (case (if zkvmInput then ZesuInputSSZ G f else ZesuInputSSZPlain G f) of
                  Inl e \<Rightarrow> if is_panic e then \<lparr>cv_exit = 2, cv_out = None, cv_message = error_text e\<rparr>
                           else \<lparr>cv_exit = 1, cv_out = None, cv_message = ''encode: '' @ error_text e\<rparr>
                | Inr data \<Rightarrow>
                    (case rest of
                       [] \<Rightarrow> convert_write io None data f
                     | dest # _ \<Rightarrow>
                         (case ci_create io dest of
                            Some e \<Rightarrow> \<lparr>cv_exit = 1, cv_out = None,
                                       cv_message = ''create output: '' @ error_text e\<rparr>
                          | None \<Rightarrow> convert_write io (Some dest) data f)))))"

section \<open>Properties\<close>

text \<open>
  The flag of the converter changes only the framing. With the flag the converter writes the frame of
  exactly the bytes it writes without it, to the same place; reading the frame gives them back below
  2^64 bytes; and it writes something with the flag exactly when it does without.
\<close>

lemma convert_framing:
  "(cv_out (convert_main G syntax io False args) = None \<longleftrightarrow> cv_out (convert_main G syntax io True args) = None) \<and>
   (\<forall>dest data. cv_out (convert_main G syntax io False args) = Some (dest, data) \<longrightarrow>
      cv_out (convert_main G syntax io True args) = Some (dest, ZkvmFrame data) \<and>
      (length data < 2 ^ 64 \<longrightarrow>
        take (le_nat (take 8 (ZkvmFrame data))) (drop 8 (ZkvmFrame data)) = data))"
  by (auto simp: convert_main_def convert_write_def ZesuInputSSZ_def unframe_ZkvmFrame res_simps
      split: list.splits sum.splits option.splits)

text \<open>An empty document loads as the fixture whose fields are all zero, and encodes.\<close>

lemma empty_fixture:
  assumes "unmarshal_FixtureFile [] = Inr f"
  shows "fb_Transactions (bk_Body (si_Block (ff_StatelessInput f))) = []"
    "fb_Withdrawals (bk_Body (si_Block (ff_StatelessInput f))) = []"
    "fh_Difficulty (bk_Header (si_Block (ff_StatelessInput f))) = []"
    "fh_BaseFeePerGas (bk_Header (si_Block (ff_StatelessInput f))) = None"
    "wt_State (si_Witness (ff_StatelessInput f)) = []" "wt_Codes (si_Witness (ff_StatelessInput f)) = []"
    "wt_Headers (si_Witness (ff_StatelessInput f)) = []"
  using assms
  by (auto simp: res_simps unmarshal_FixtureFile_def unmarshal_StatelessInput_def unmarshal_FixtureBlock_def
      unmarshal_FixtureHeader_def unmarshal_FixtureBody_def unmarshal_WitnessData_def field_struct_def
      field_with_def field_string_def field_uint64_def field_raw_def values_of_def field_bool_def)

lemma empty_document:
  obtains f data where "LoadFile (\<lambda>_. Inr (JObj [])) ''f'' (Inr ''x'') = Inr f"
    "ZesuInputSSZPlain sample_geth f = Inr data"
proof -
  have big: "hexToBigInt [] = Inr 0" "rawJSONToBigInt None = Inr 0" by code_simp+
  have fee: "sszUint256 (Some 0) = Inr (le_bytes 32 0)" using sszUint256_small [of 0] by simp
  have "case unmarshal_FixtureFile [] of Inl _ \<Rightarrow> False | Inr _ \<Rightarrow> True" by code_simp
  then obtain f where f: "unmarshal_FixtureFile [] = Inr f" by (auto split: sum.splits)
  then have load: "LoadFile (\<lambda>_. Inr (JObj [])) ''f'' (Inr ''x'') = Inr f" by (simp add: LoadFile_def)
  obtain hdr where hdr: "fixtureHeader sample_geth f = Inr hdr"
    by (auto simp: fixtureHeader_def empty_fixture [OF f] big Let_def)
  obtain ep where ep: "encodeSszExecutionPayload sample_geth f [] [] = Inr ep"
    by (auto simp: encodeSszExecutionPayload_def hdr marshal_all_def empty_fixture [OF f] big fee Let_def)
  have "\<And>root. \<exists>npr. encodeSszNewPayloadRequest sample_geth f [] [] root = Inr npr"
    by (simp add: encodeSszNewPayloadRequest_def ep encodeSszExecutionRequests_eq requests_ok_def Let_def)
  moreover obtain wit where "encodeSszExecutionWitness (si_Witness (ff_StatelessInput f)) = Inr wit"
    by (auto simp: encodeSszExecutionWitness_def decodeHexArray_def empty_fixture [OF f] Let_def)
  ultimately have "\<And>root. \<exists>data. encodeSszStatelessInput sample_geth f [] [] root = Inr data"
    by (auto simp: encodeSszStatelessInput_def res_simps Let_def)
  then have "\<exists>data. ZesuInputSSZPlain sample_geth f = Inr data"
    by (simp add: ZesuInputSSZPlain_def buildTransactions_def buildWithdrawals_def empty_fixture [OF f])
  with load show ?thesis using that by blast
qed

definition sample_io :: convert_io where
  "sample_io = \<lparr>ci_read = (\<lambda>_. Inr ''x''), ci_create = (\<lambda>_. None), ci_write = (\<lambda>_ _. None)\<rparr>"

lemma convert_framing_example:
  "\<exists>data. cv_out (convert_main sample_geth (\<lambda>_. Inr (JObj [])) sample_io False [''f'', ''o'']) =
       Some (Some ''o'', data) \<and>
     cv_out (convert_main sample_geth (\<lambda>_. Inr (JObj [])) sample_io True [''f'', ''o'']) =
       Some (Some ''o'', ZkvmFrame data)"
proof -
  let ?run = "\<lambda>b. cv_out (convert_main sample_geth (\<lambda>_. Inr (JObj [])) sample_io b [''f'', ''o''])"
  obtain f data where "LoadFile (\<lambda>_. Inr (JObj [])) ''f'' (Inr ''x'') = Inr f"
    "ZesuInputSSZPlain sample_geth f = Inr data" by (rule empty_document)
  then have plain: "?run False = Some (Some ''o'', data)"
    by (simp add: convert_main_def convert_write_def sample_io_def)
  have "\<forall>dest data. ?run False = Some (dest, data) \<longrightarrow> ?run True = Some (dest, ZkvmFrame data)"
    using convert_framing [of sample_geth "\<lambda>_. Inr (JObj [])" sample_io "[''f'', ''o'']"] by blast
  with plain show ?thesis by blast
qed

end
