(* ===== verification/Bench_Repro.thy ===== *)
theory Bench_Repro
  imports Bench_Report
begin

text \<open>
  What a \<open>bench\<close> run reports does not depend on how it was scheduled nor on the order in which Go visits the
  keys of a map: apart from the measured times, the rows, the summary and the report are functions of the
  fixtures and the emulator.
\<close>

definition untimed :: "BlockResult \<Rightarrow> BlockResult" where
  "untimed r = r\<lparr>br_Elapsed := 0\<rparr>"

section \<open>Rows\<close>

lemma untimed_sel [simp]:
  "br_BlockNum (untimed r) = br_BlockNum r" "br_Name (untimed r) = br_Name r"
  "br_Label (untimed r) = br_Label r" "br_Suite (untimed r) = br_Suite r"
  "br_Network (untimed r) = br_Network r" "br_Kind (untimed r) = br_Kind r"
  "br_Verdict (untimed r) = br_Verdict r" "br_Costs (untimed r) = br_Costs r"
  "br_Err (untimed r) = br_Err r" "br_ErrOutput (untimed r) = br_ErrOutput r"
  "br_ExecError (untimed r) = br_ExecError r" "br_ExpectedSuccess (untimed r) = br_ExpectedSuccess r"
  "br_ValidationOK (untimed r) = br_ValidationOK r" "br_TxCount (untimed r) = br_TxCount r"
  "br_GasUsed (untimed r) = br_GasUsed r" "br_OutputHex (untimed r) = br_OutputHex r"
  by (simp_all add: untimed_def)

lemma runUnit_untimed:
  assumes "runUnit u run target el = Inr r" "runUnit u run target el' = Inr r'"
  shows "untimed r = untimed r'"
  using assms
  by (auto simp: runUnit_def unit_row_def untimed_def Let_def split: prod.splits option.splits if_splits)

lemma unit_rows_untimed:
  assumes "unit_rows C i k us = Inr rs"
    and "unit_rows (C\<lparr>rc_parallelism := n, rc_elapsed := el, rc_env := E\<rparr>) i k us = Inr rs'"
  shows "map untimed rs = map untimed rs'"
  using assms
  by (induction us arbitrary: k rs rs') (auto simp: res_simps dest: runUnit_untimed)

text \<open>Another run over the same fixtures: other workers, other times, another order of keys.\<close>

definition other_run :: "run_config \<Rightarrow> nat \<Rightarrow> (nat \<Rightarrow> nat \<Rightarrow> int) \<Rightarrow> (string \<Rightarrow> string list \<Rightarrow> string list) \<Rightarrow> run_config" where
  "other_run C workers el order =
     C\<lparr>rc_parallelism := workers, rc_elapsed := el, rc_env := (rc_env C)\<lparr>be_order := order\<rparr>\<rparr>"

lemma file_rows_untimed:
  assumes "key_order (be_order (rc_env C))" "key_order order"
    and "file_rows C i = Inr rs" "file_rows (other_run C n el order) i = Inr rs'"
  shows "map untimed rs = map untimed rs'"
proof -
  have same: "expand (rc_env (other_run C n el order)) (rc_jobs C ! i) = expand (rc_env C) (rc_jobs C ! i)"
    using expand_order [OF assms(1,2)] by (simp add: other_run_def)
  show ?thesis
  proof (cases "expand (rc_env C) (rc_jobs C ! i)")
    case (Inr us)
    have "unit_rows C i 0 us = Inr rs"
      using assms(3) Inr by (simp add: file_rows_def)
    moreover have "unit_rows (other_run C n el order) i 0 us = Inr rs'"
      using assms(4) same Inr by (simp add: file_rows_def) (simp add: other_run_def)
    ultimately show ?thesis by (auto simp: other_run_def dest: unit_rows_untimed)
  qed (use assms(3,4) same in \<open>auto simp: file_rows_def other_run_def\<close>)
qed

lemma results_untimed:
  assumes "key_order (be_order (rc_env C))" "key_order order"
    and "bench_reach C s" "run_finished C s"
    and "bench_reach (other_run C n el order) s'" "run_finished (other_run C n el order) s'"
  shows "map untimed (run_results s) = map untimed (run_results s')"
proof -
  have jobs: "rc_jobs (other_run C n el order) = rc_jobs C" by (simp add: other_run_def)
  have len: "length (rn_perFile s) = length (rc_jobs C)" "length (rn_perFile s') = length (rc_jobs C)"
    using reach_invariant [OF assms(3)] reach_invariant [OF assms(5)] by (simp_all add: pool_shape_def jobs)
  have "map untimed (rn_perFile s ! i) = map untimed (rn_perFile s' ! i)" if "i < length (rc_jobs C)" for i
    using finished_rows [OF assms(3,4) that] finished_rows [OF assms(5,6), of i] that
    by (intro file_rows_untimed [OF assms(1,2)]) (simp_all add: jobs)
  then have "map (map untimed) (rn_perFile s) = map (map untimed) (rn_perFile s')"
    using len by (intro nth_equalityI) simp_all
  then show ?thesis by (simp add: run_results_def map_concat)
qed

section \<open>Sorting and reporting\<close>

lemma sort_back_map:
  "(\<And>x y. lt (g x) (g y) = lt x y) \<Longrightarrow> sort_back lt (g x) (map g rs) = map g (sort_back lt x rs)"
  by (induction rs) auto

lemma sort_SliceStable_map:
  assumes "\<And>x y. lt (g x) (g y) = lt x y"
  shows "sort_SliceStable lt (map g xs) = map g (sort_SliceStable lt xs)"
proof -
  have "fold (sort_back lt) (map g xs) (map g rs) = map g (fold (sort_back lt) xs rs)" for rs
    using assms by (induction xs arbitrary: rs) (simp_all add: sort_back_map)
  from this [of "[]"] show ?thesis by (simp add: sort_SliceStable_def rev_map)
qed

lemma sortResults_untimed: "sortResults (map untimed rs) = map untimed (sortResults rs)"
  unfolding sortResults_def by (rule sort_SliceStable_map) (simp add: row_less_def)

lemma stat_rows_untimed: "stat_rows target (map untimed good) = stat_rows target good"
  by (simp add: stat_rows_def comp_def)

lemma printSummary_untimed: "printSummary (map untimed good) n k target = printSummary good n k target"
  by (simp add: printSummary_def partitionByGas_def stat_rows_untimed filter_map comp_def Let_def)

lemma measured_untimed: "measured (untimed r) = measured r"
  by (simp add: measured_def)

lemma classify_untimed:
  "cl_Good (classify (map untimed rs)) = map untimed (cl_Good (classify rs))"
  "cl_Failures (classify (map untimed rs)) = map untimed (cl_Failures (classify rs))"
  by (simp_all add: classify_eq filter_map comp_def measured_untimed)

lemma suiteMedians_untimed: "suiteMedians (map untimed good) = suiteMedians good"
  by (simp add: suiteMedians_def filter_map comp_def Let_def)

lemma unitCell_untimed: "unitCell (untimed r) = unitCell r"
  by (cases "br_Kind r = FormatZkevm") (simp_all add: unitCell_def)

lemma raw_row_untimed: "raw_row (untimed r) = raw_row r"
  by (simp add: raw_row_def unitCell_untimed)

lemma tables_untimed:
  "exec_failed_rows (map untimed rs) = exec_failed_rows rs"
  "validation_fail_rows (map untimed rs) = validation_fail_rows rs"
  "error_rows (map untimed rs) = error_rows rs"
  "skip_rows k (map untimed rs) = skip_rows k rs"
  by (simp_all add: exec_failed_rows_def validation_fail_rows_def error_rows_def skip_rows_def
      unitCell_untimed filter_map comp_def)

lemma report_data_untimed:
  "(report_data (map untimed good) (map untimed rs) target)\<lparr>rd_ElapsedMs := []\<rparr> =
     (report_data good rs target)\<lparr>rd_ElapsedMs := []\<rparr>"
  by (simp add: report_data_def Let_def suiteMedians_untimed tables_untimed raw_row_untimed
      stat_rows_untimed filter_map comp_def case_prod_unfold list_ex_iff)

lemma csv_row_untimed: "(csv_row (untimed r))[14 := []] = (csv_row r)[14 := []]"
  by (simp add: csv_row_def Let_def untimed_def)

lemma bench_report_untimed:
  assumes "bench_report target n rs = Inr (good, sm, D)"
  shows "\<exists>D'. bench_report target n (map untimed rs) = Inr (map untimed good, sm, D') \<and>
    D'\<lparr>rd_ElapsedMs := []\<rparr> = D\<lparr>rd_ElapsedMs := []\<rparr>"
  using assms report_data_untimed [of good rs target]
  by (auto simp: bench_report_def Let_def classify_untimed sortResults_untimed printSummary_untimed
      split: if_splits)

end
