(* ===== verification/Js_Number.thy ===== *)
theory Js_Number
  imports Go_Strings "HOL-Library.Log_Nat"
begin

text \<open>
  JavaScript numbers, as far as the script of the benchmark report computes with them: non-negative
  integers held as IEEE doubles, with 53 bits of precision and ties rounded to even.
\<close>

text \<open>\<open>n / d\<close> rounded to the nearest integer.\<close>

definition round_even :: "nat \<Rightarrow> nat \<Rightarrow> nat" where
  "round_even n d =
     (let q = n div d; r = n mod d in if d < 2 * r \<or> (2 * r = d \<and> odd q) then q + 1 else q)"

text \<open>The double nearest to an integer; every integer below 2^53 is one.\<close>

definition js_number :: "nat \<Rightarrow> nat" where
  "js_number n =
     (if n < 2 ^ 53 then n
      else let k = floorlog 2 n - 53 in round_even n (2 ^ k) * 2 ^ k)"

definition js_add :: "nat \<Rightarrow> nat \<Rightarrow> nat" where
  "js_add a b = js_number (a + b)"

text \<open>
  \<open>Math.floor(a / b)\<close> for positive doubles that are integers. The quotient is scaled by a power of two
  to 53 bits and rounded: upwards when it is below 2^53, with \<open>k\<close> the least exponent that fills 53 bits,
  and downwards otherwise.
\<close>

function scale_up :: "nat \<Rightarrow> nat \<Rightarrow> nat \<Rightarrow> nat" where
  "scale_up a b k = (if a = 0 \<or> 2 ^ 52 * b \<le> a * 2 ^ k then k else scale_up a b (k + 1))"
  by pat_completeness auto

termination
  by (relation "measure (\<lambda>(a, b, k). 2 ^ 52 * b - a * 2 ^ k)") (auto simp: diff_less_mono2)

function scale_down :: "nat \<Rightarrow> nat \<Rightarrow> nat \<Rightarrow> nat" where
  "scale_down a b j = (if b = 0 \<or> a < 2 ^ 53 * b * 2 ^ j then j else scale_down a b (j + 1))"
  by pat_completeness auto

termination
proof (relation "measure (\<lambda>(a, b, j). a - b * 2 ^ j)", goal_cases)
  case (2 a b j)
  define x where "x = b * 2 ^ j"
  have "2 ^ 53 * x \<le> a" "0 < x" using 2 by (simp_all add: x_def ac_simps)
  then have "a - 2 * x < a - x" by simp
  then show ?case by (simp add: x_def ac_simps)
qed simp

definition js_floor_div :: "nat \<Rightarrow> nat \<Rightarrow> nat" where
  "js_floor_div a b =
     (if a < 2 ^ 53 * b
      then let k = scale_up a b 0 in round_even (a * 2 ^ k) b div 2 ^ k
      else let j = scale_down a b 0 in round_even a (b * 2 ^ j) * 2 ^ j)"

declare scale_up.simps [simp del] scale_down.simps [simp del]

section \<open>Exact computations\<close>

lemma js_number_small [simp]: "n < 2 ^ 53 \<Longrightarrow> js_number n = n"
  by (simp add: js_number_def)

lemma js_number_pos: "0 < js_number n \<longleftrightarrow> 0 < n"
proof (cases "n < 2 ^ 53")
  case False
  let ?k = "floorlog 2 n - 53"
  have "n > 0" using False by simp
  then have "2 ^ (floorlog 2 n - 1) \<le> n" using floorlog_bounds [of n 2] by simp
  moreover have "(2 :: nat) ^ ?k \<le> 2 ^ (floorlog 2 n - 1)" by (intro power_increasing) simp_all
  ultimately have "2 ^ ?k \<le> n" by linarith
  then have "0 < n div 2 ^ ?k" by (simp add: div_greater_zero_iff)
  then show ?thesis using False by (auto simp: js_number_def round_even_def Let_def)
qed simp

lemma scale_up_enough: "0 < a \<Longrightarrow> 2 ^ 52 * b \<le> a * 2 ^ scale_up a b k"
  by (induction a b k rule: scale_up.induct) (subst scale_up.simps, auto)

lemma js_floor_div_exact:
  assumes "a < 2 ^ 53" "0 < b"
  shows "js_floor_div a b = a div b"
proof (cases "a = 0")
  case True
  then show ?thesis using assms(2) by (simp add: js_floor_div_def round_even_def)
next
  case False
  define k where "k = scale_up a b 0"
  define q where "q = a * 2 ^ k div b"
  define r where "r = a * 2 ^ k mod b"
  have split: "a * 2 ^ k = q * b + r" unfolding q_def r_def by (simp only: div_mult_mod_eq)
  have r: "r < b" using assms(2) by (simp add: r_def)
  have enough: "2 ^ 52 * b \<le> a * 2 ^ k" using False scale_up_enough unfolding k_def by simp
  have q: "q div 2 ^ k = a div b"
    unfolding q_def by (metis div_mult2_eq div_mult_self_is_m mult.commute pos2 zero_less_power)
  have "\<not> 2 ^ k dvd Suc q" if up: "b \<le> 2 * r"
  proof
    assume "2 ^ k dvd Suc q"
    then obtain t where t: "Suc q = 2 ^ k * t" by (rule dvdE)
    have "a * 2 ^ k < Suc q * b" using split r by simp
    then have "a * 2 ^ k < (t * b) * 2 ^ k" by (simp add: t ac_simps)
    then have "Suc a \<le> t * b" by simp
    then have "Suc a * 2 ^ k \<le> (t * b) * 2 ^ k" by (rule mult_le_mono1)
    then have "a * 2 ^ k + 2 ^ k \<le> Suc q * b" by (simp add: t ac_simps)
    with split have "r + 2 ^ k \<le> b" by simp
    with up have "2 * 2 ^ k \<le> b" by linarith
    then have "2 ^ 52 * (2 * 2 ^ k) \<le> a * 2 ^ k" using enough by (meson le_trans mult_le_mono2)
    then have "2 ^ 53 * 2 ^ k \<le> a * 2 ^ k" by simp
    with assms(1) show False by simp
  qed
  then have "round_even (a * 2 ^ k) b div 2 ^ k = a div b"
    using q by (auto simp: round_even_def Let_def div_Suc dvd_eq_mod_eq_0 q_def [symmetric] r_def [symmetric])
  moreover have "a < 2 ^ 53 * b" using assms by (simp add: less_le_trans)
  ultimately show ?thesis by (simp add: js_floor_div_def k_def Let_def)
qed

text \<open>Above 2^53 a sum may be off by one.\<close>

lemma js_add_inexact: "js_add 3 (2 ^ 53) = 2 ^ 53 + 4"
proof -
  have "floorlog 2 (2 ^ 53 + 3 :: nat) = 54" by (simp add: compute_floorlog)
  then show ?thesis by (simp add: js_add_def js_number_def round_even_def)
qed

end
