(* ===== verification/Report_Script.thy ===== *)
theory Report_Script
  imports Bench_Report Js_Number
begin

text \<open>
  The script of the benchmark report (the template in \<open>bench/main.go\<close>): what a reader sees after
  ticking or clearing "Exclude zero-gas units", and the filters of the raw table. The arrays of the
  report become arrays of JavaScript numbers; drawing is left to the chart library, so a chart is its
  labels with its data.
\<close>

section \<open>Statistics\<close>

record js_stats =
  js_min :: nat
  js_p50 :: nat
  js_max :: nat
  js_avg :: nat

definition statsOf :: "nat list \<Rightarrow> js_stats" where
  "statsOf vals =
     (if length vals = 0 then \<lparr>js_min = 0, js_p50 = 0, js_max = 0, js_avg = 0\<rparr>
      else let s = sort vals;
               sum = fold (\<lambda>v sum. js_add sum v) s 0
           in \<lparr>js_min = s ! 0, js_p50 = s ! (length s div 2), js_max = s ! (length s - 1),
               js_avg = js_floor_div sum (length s)\<rparr>)"

text \<open>The array literals of the script: every number becomes the nearest double.\<close>

definition js_array :: "u64 list \<Rightarrow> nat list" where
  "js_array vs = map (\<lambda>v. js_number (unat v)) vs"

section \<open>The toggle\<close>

definition scopeIdx :: "bool \<Rightarrow> nat list \<Rightarrow> nat list" where
  "scopeIdx se gasUsed = filter (\<lambda>i. \<not> se \<or> 0 < gasUsed ! i) [0 ..< length gasUsed]"

text \<open>The arrays of a report have one entry per unit, so that every index is in range.\<close>

definition pick :: "'a list \<Rightarrow> nat list \<Rightarrow> 'a list" where
  "pick arr idx = map (\<lambda>i. arr ! i) idx"

definition statSeries :: "reportData \<Rightarrow> (string \<times> nat list) list" where
  "statSeries D =
     (if rd_Target D = ''openvm'' then [(''INSTRUCTIONS'', js_array (rd_InstructionCounts D))]
      else [(''BASE'', js_array (rd_BaseCosts D)), (''MAIN'', js_array (rd_MainCosts D)),
            (''OPCODES'', js_array (rd_OpCosts D)), (''PRECOMPILES'', js_array (rd_PreCosts D)),
            (''MEMORY'', js_array (rd_MemCosts D)), (''TOTAL'', js_array (rd_TotalCosts D))])"

text \<open>The medians per suite: a map from the index of a suite to the costs of its units.\<close>

definition by_suite :: "nat list \<Rightarrow> nat list \<Rightarrow> nat list \<Rightarrow> nat \<Rightarrow> nat list" where
  "by_suite unitSuiteIdx totalCosts idx =
     fold (\<lambda>i m. m(unitSuiteIdx ! i := m (unitSuiteIdx ! i) @ [totalCosts ! i])) idx (\<lambda>_. [])"

definition suite_bars :: "string list \<Rightarrow> nat list \<Rightarrow> nat list \<Rightarrow> nat list \<Rightarrow> string list \<times> nat list" where
  "suite_bars suiteLabels unitSuiteIdx totalCosts idx =
     (let bySuite = by_suite unitSuiteIdx totalCosts idx;
          keys = sort (remdups (map (\<lambda>i. unitSuiteIdx ! i) idx))
      in (map (\<lambda>k. suiteLabels ! k) keys, map (\<lambda>k. js_p50 (statsOf (bySuite k))) keys))"

fun pick_labels :: "labels \<Rightarrow> nat list \<Rightarrow> labels" where
  "pick_labels (UnitLabels ls) idx = UnitLabels (pick ls idx)"
| "pick_labels (BlockNumbers ns) idx = BlockNumbers (pick ns idx)"

text \<open>
  What the page shows: the table of statistics, the sentence on the scope, and the charts that exist in
  this report. The toggle and its sentence exist when some unit used no gas.
\<close>

record page =
  pg_Stats :: "(string \<times> js_stats) list"
  pg_Scope :: "string option"
  pg_Rank :: "nat list option"
  pg_Suites :: "(string list \<times> nat list) option"
  pg_Instructions :: "(labels \<times> nat list) option"
  pg_Total :: "(labels \<times> nat list) option"
  pg_Elapsed :: "(labels \<times> nat list) option"
  pg_Stacked :: "(labels \<times> nat list list) option"

text \<open>The page as loaded: the table the template writes, and the charts over all units.\<close>

definition page_load :: "reportData \<Rightarrow> page" where
  "page_load D =
     (let perUnit = \<not> rd_Scaled D; zisk = (rd_Target D = ''zisk''); openvm = (rd_Target D = ''openvm'')
      in \<lparr>pg_Stats = map (\<lambda>r. (st_Label r, \<lparr>js_min = unat (st_Min r), js_p50 = unat (st_P50 r),
                                          js_max = unat (st_Max r), js_avg = unat (st_Avg r)\<rparr>)) (rd_StatRows D),
          pg_Scope = (if rd_HasEmptyUnits D
                      then Some (itoa (rd_Good D) @ '' units, including '' @ itoa (rd_EmptyCount D) @ '' that used no gas'')
                      else None),
          pg_Rank = (if rd_Scaled D then Some (js_array (rd_RankCosts D)) else None),
          pg_Suites = (if rd_Scaled D then Some (rd_SuiteLabels D, js_array (rd_SuiteMedians D)) else None),
          pg_Instructions = (if perUnit \<and> openvm
                             then Some (rd_Labels D, js_array (rd_InstructionCounts D)) else None),
          pg_Total = (if perUnit \<and> zisk then Some (rd_Labels D, js_array (rd_TotalCosts D)) else None),
          pg_Elapsed = (if perUnit then Some (rd_Labels D, js_array (rd_ElapsedMs D)) else None),
          pg_Stacked = (if perUnit \<and> zisk
                        then Some (rd_Labels D, map js_array [rd_BaseCosts D, rd_MainCosts D, rd_OpCosts D,
                               rd_PreCosts D, rd_MemCosts D])
                        else None)\<rparr>)"

definition scope_text :: "bool \<Rightarrow> nat list \<Rightarrow> nat list \<Rightarrow> string" where
  "scope_text se gasUsed idx =
     (let n = length gasUsed; k = length idx
      in if se then itoa k @ '' units that used gas ('' @ itoa (n - k) @ '' zero-gas excluded)''
         else itoa n @ '' units, including '' @
              itoa (if n - k \<noteq> 0 then n - k else length (filter (\<lambda>g. g = 0) gasUsed)) @ '' that used no gas'')"

text \<open>\<open>refresh\<close> replaces what is there: a chart or a sentence the page does not have stays absent.\<close>

definition refresh :: "reportData \<Rightarrow> bool \<Rightarrow> page \<Rightarrow> page" where
  "refresh D se pg =
     (let gasUsed = js_array (rd_GasUsed D);
          idx = scopeIdx se gasUsed;
          totalCosts = js_array (rd_TotalCosts D);
          labels = pick_labels (rd_Labels D) idx
      in pg\<lparr>pg_Stats := map (\<lambda>(label, series). (label, statsOf (pick series idx))) (statSeries D),
            pg_Scope := map_option (\<lambda>_. scope_text se gasUsed idx) (pg_Scope pg),
            pg_Rank := map_option (\<lambda>_. sort (pick totalCosts idx)) (pg_Rank pg),
            pg_Suites := map_option (\<lambda>_. suite_bars (rd_SuiteLabels D) (rd_UnitSuiteIdx D) totalCosts idx) (pg_Suites pg),
            pg_Total := map_option (\<lambda>_. (labels, pick totalCosts idx)) (pg_Total pg),
            pg_Elapsed := map_option (\<lambda>_. (labels, pick (js_array (rd_ElapsedMs D)) idx)) (pg_Elapsed pg),
            pg_Stacked := map_option (\<lambda>_. (labels,
              map (\<lambda>series. pick (js_array series) idx)
                [rd_BaseCosts D, rd_MainCosts D, rd_OpCosts D, rd_PreCosts D, rd_MemCosts D])) (pg_Stacked pg)\<rparr>)"

section \<open>Filters of the raw table\<close>

text \<open>
  Whether a row stays visible: \<open>q\<close> is the trimmed text of the search field, \<open>fo\<close> "Failures only" and
  \<open>se\<close> the toggle. A row has the class \<open>row-fail\<close> unless its guest reported success.
\<close>

definition raw_visible :: "string \<Rightarrow> bool \<Rightarrow> bool \<Rightarrow> rawBlockRow \<Rightarrow> bool" where
  "raw_visible q fo se row \<longleftrightarrow>
     str_Contains (rw_Unit row) q \<and> (\<not> fo \<or> \<not> rw_Success row) \<and>
     (\<not> se \<or> 0 < js_number (unat (rw_GasUsed row)))"

definition applyRawFilters :: "string \<Rightarrow> bool \<Rightarrow> bool \<Rightarrow> reportData \<Rightarrow> rawBlockRow list" where
  "applyRawFilters q fo se D = filter (raw_visible q fo se) (rd_RawBlocks D)"

section \<open>Sorting the raw table by a number\<close>

text \<open>
  The rows of the table and \<open>sortDir\<close>: the column of the last click and whether it sorts upwards.
  \<open>sort_by_number\<close> is a stable sort by the doubles of the columns 1 to 8; that \<open>sortTable\<close> comes to this is
  shown in \<open>Raw_Sort\<close>.
\<close>

record raw_table =
  rt_rows :: "rawBlockRow list"
  rt_sortDir :: "(nat \<times> bool) option"

definition raw_cell :: "nat \<Rightarrow> rawBlockRow \<Rightarrow> nat" where
  "raw_cell col row =
     [rw_TxCount row, unat (rw_GasUsed row), unat (rw_Base row), unat (rw_Main row), unat (rw_Opcodes row),
      unat (rw_Precompiles row), unat (rw_Memory row), unat (rw_Total row)] ! (col - 1)"

definition sort_by_number :: "nat \<Rightarrow> raw_table \<Rightarrow> raw_table" where
  "sort_by_number col t =
     (let asc = (rt_sortDir t \<noteq> Some (col, True));
          num = (\<lambda>row. js_number (raw_cell col row))
      in \<lparr>rt_rows = sort_SliceStable (\<lambda>a b. if asc then num a < num b else num b < num a) (rt_rows t),
          rt_sortDir = Some (col, asc)\<rparr>)"

section \<open>Unit names on the axis\<close>

definition lastIndexOf :: "string \<Rightarrow> string \<Rightarrow> int" where
  "lastIndexOf s w =
     (case filter (\<lambda>i. HasPrefix (drop i s) w) (rev [0 ..< Suc (length s)]) of [] \<Rightarrow> - 1 | i # _ \<Rightarrow> int i)"

text \<open>The tick of a unit in an EEST report; names are ASCII, the ellipsis is its UTF-8 encoding.\<close>

definition unit_tick :: "string \<Rightarrow> string" where
  "unit_tick s =
     (let short = drop (nat (lastIndexOf s ''::'' + 2)) s
      in if 24 < length short then take 23 short @ [CHR 0xE2, CHR 0x80, CHR 0xA6] else short)"

section \<open>Suite names on the axis\<close>

text \<open>The loop over the names shortens the candidate until it is a prefix of each.\<close>

function shrink :: "string \<Rightarrow> string \<Rightarrow> string" where
  "shrink p x = (if p = [] \<or> HasPrefix x p then p else shrink (butlast p) x)"
  by pat_completeness auto

termination
  by (relation "measure (\<lambda>(p, x). length p)") auto

declare shrink.simps [simp del]

definition commonPrefix :: "string list \<Rightarrow> string" where
  "commonPrefix xs =
     (if length xs < 2 then []
      else let p = fold (\<lambda>x p. shrink p x) xs (hd xs);
               dir = rev (dropWhile (\<lambda>c. c \<noteq> CHR ''/'') (rev p))
           in if 1 < length dir then dir else [])"

definition shortSuite :: "string \<Rightarrow> string \<Rightarrow> string" where
  "shortSuite suitePrefix s =
     (if suitePrefix \<noteq> [] \<and> HasPrefix s suitePrefix then drop (length suitePrefix) s else s)"

section \<open>Lemmas\<close>

lemma pick_map: "\<forall>i \<in> set idx. i < length xs \<Longrightarrow> pick (map f xs) idx = map f (pick xs idx)"
  by (simp add: pick_def)

lemma nth_filter: "map (\<lambda>i. xs ! i) (filter (\<lambda>i. P (xs ! i)) [0 ..< length xs]) = filter P xs"
proof -
  have "map ((!) xs) (filter (P \<circ> (!) xs) [0 ..< length xs]) = filter P (map ((!) xs) [0 ..< length xs])"
    by (simp only: filter_map)
  then show ?thesis by (simp add: map_nth comp_def)
qed

text \<open>The units in scope.\<close>

definition in_scope :: "bool \<Rightarrow> BlockResult list \<Rightarrow> BlockResult list" where
  "in_scope se good = (if se then fst (partitionByGas good) else good)"

abbreviation scope_of :: "bool \<Rightarrow> BlockResult list \<Rightarrow> nat list" where
  "scope_of se good \<equiv> scopeIdx se (js_array (map br_GasUsed good))"

lemma scope_range: "i \<in> set (scopeIdx se gasUsed) \<Longrightarrow> i < length gasUsed"
  by (simp add: scopeIdx_def)

lemma scope_eq: "scope_of se good = filter (\<lambda>i. \<not> se \<or> br_GasUsed (good ! i) \<noteq> 0) [0 ..< length good]"
  by (auto simp: scopeIdx_def js_array_def js_number_pos unat_gt_0 intro: filter_cong)

lemma pick_scope: "pick good (scope_of se good) = in_scope se good"
  using nth_filter [of good "\<lambda>r. br_GasUsed r \<noteq> 0"]
  by (simp add: scope_eq pick_def in_scope_def partitionByGas_def map_nth)

lemma pick_column: "pick (map f good) (scope_of se good) = map f (in_scope se good)"
proof -
  have "\<forall>i \<in> set (scope_of se good). i < length good" by (simp add: scope_eq)
  then show ?thesis by (simp add: pick_map pick_scope)
qed

text \<open>Statistics on numbers whose sum is below 2^53.\<close>

lemma js_array_exact: "\<forall>v \<in> set vs. unat v < 2 ^ 53 \<Longrightarrow> js_array vs = map unat vs"
  by (simp add: js_array_def)

lemma sum_list_member: "v \<in> set vs \<Longrightarrow> unat (v :: u64) \<le> sum_list (map unat vs)"
  by (simp add: member_le_sum_list)

lemma sort_unat: "sort (map unat vs) = map unat (sort (vs :: u64 list))"
proof (rule properties_for_sort)
  show "mset (map unat (sort vs)) = mset (map unat vs)" by simp
  have "(\<lambda>x y :: u64. unat x \<le> unat y) = (\<le>)" by (simp add: fun_eq_iff word_le_nat_alt)
  then have "sorted_wrt (\<lambda>x y. unat x \<le> unat y) (sort vs)" by simp
  then show "sorted (map unat (sort vs))" by (simp add: sorted_map)
qed

lemma fold_js_add: "a + sum_list vs < 2 ^ 53 \<Longrightarrow> fold (\<lambda>v sum. js_add sum v) vs a = a + sum_list vs"
  by (induction vs arbitrary: a) (simp_all add: js_add_def)

definition js_of :: "costStats \<Rightarrow> js_stats" where
  "js_of s = \<lparr>js_min = unat (cs_Min s), js_p50 = unat (cs_P50 s), js_max = unat (cs_Max s),
              js_avg = unat (cs_Avg s)\<rparr>"

lemma statsOf_exact:
  assumes "sum_list (map unat vs) < 2 ^ 53" "length vs < 2 ^ 64"
  shows "statsOf (map unat vs) = js_of (computeStats vs)"
proof (cases "vs = []")
  case True
  then show ?thesis by (simp add: statsOf_def js_of_def computeStats_def)
next
  case False
  have sum: "sum_list (map unat (sort vs)) = sum_list (map unat vs)"
    by (metis mset_map mset_sort sum_mset_sum_list)
  have avg: "js_floor_div (sum_list (map unat vs)) (length vs) = unat (sum_list vs div of_nat (length vs))"
    using avg_exact [OF False assms(2)] js_floor_div_exact [OF assms(1)] False assms(1) by simp
  have "fold (\<lambda>v sum. js_add sum v) (sort (map unat vs)) 0 = sum_list (map unat vs)"
    using assms(1) by (simp add: sort_unat fold_js_add sum)
  with False avg show ?thesis
    by (simp add: statsOf_def js_of_def computeStats_sorted sort_unat Let_def)
qed

text \<open>The bars of the suites.\<close>

lemma by_suite_eq:
  "by_suite U T idx k = map (\<lambda>i. T ! i) (filter (\<lambda>i. U ! i = k) idx)"
proof -
  have "fold (\<lambda>i m. m(U ! i := m (U ! i) @ [T ! i])) idx m k = m k @ map (\<lambda>i. T ! i) (filter (\<lambda>i. U ! i = k) idx)" for m
    by (induction idx arbitrary: m) auto
  then show ?thesis by (simp add: by_suite_def)
qed

lemma sorted_names_index:
  fixes names :: "'a :: linorder list"
  assumes "sorted names" "distinct names" "\<forall>k \<in> set ks. k < length names"
  shows "map (\<lambda>k. names ! k) (sort (remdups ks)) = sort (remdups (map (\<lambda>k. names ! k) ks))"
proof (rule sorted_distinct_set_unique)
  show "sorted (map (\<lambda>k. names ! k) (sort (remdups ks)))"
    using assms(1,3) by (auto simp: sorted_map intro!: sorted_wrt_mono_rel [OF _ sorted_sort] sorted_nth_mono)
  show "distinct (map (\<lambda>k. names ! k) (sort (remdups ks)))"
    using assms(2,3) by (auto simp: distinct_map inj_on_def nth_eq_iff_index_eq)
qed auto

lemma by_suite_rows:
  "by_suite (map g good) (map f good) (scope_of se good) k = map f (filter (\<lambda>r. g r = k) (in_scope se good))"
proof -
  have "filter (\<lambda>r. g r = k) (in_scope se good) =
      map (\<lambda>i. good ! i) (filter (\<lambda>i. g (good ! i) = k) (scope_of se good))"
    unfolding pick_scope [symmetric] by (simp add: pick_def filter_map comp_def)
  moreover have "filter (\<lambda>i. map g good ! i = k) (scope_of se good) = filter (\<lambda>i. g (good ! i) = k) (scope_of se good)"
    by (intro filter_cong) (simp_all add: scope_eq)
  ultimately show ?thesis by (simp add: by_suite_eq scope_eq)
qed

lemma in_scope_le: "sum_list (map f (filter P (in_scope se good))) \<le> (sum_list (map f good) :: nat)"
proof -
  have "sum_list (map f (filter P (in_scope se good))) \<le> sum_list (map f (in_scope se good))"
    by (rule sum_list_filter_le_nat)
  also have "\<dots> \<le> sum_list (map f good)"
    by (simp add: in_scope_def partitionByGas_def sum_list_filter_le_nat)
  finally show ?thesis .
qed

lemma in_scope_subset: "set (in_scope se good) \<subseteq> set good" "length (in_scope se good) \<le> length good"
  by (auto simp: in_scope_def partitionByGas_def)

text \<open>Statistics of one column of the units in scope.\<close>

lemma column_stats:
  assumes "sum_list (map (\<lambda>r. unat (f r)) good) < 2 ^ 53" "length good < 2 ^ 64"
  shows "js_array (map f good) = map (\<lambda>r. unat (f r)) good"
    and "statsOf (map (\<lambda>r. unat (f r)) (filter P (in_scope se good))) =
      js_of (computeStats (map f (filter P (in_scope se good))))"
proof -
  have "unat (f r) < 2 ^ 53" if "r \<in> set good" for r
    using member_le_sum_list [of "unat (f r)" "map (\<lambda>r. unat (f r)) good"] assms(1) that by simp
  then show "js_array (map f good) = map (\<lambda>r. unat (f r)) good" by (simp add: js_array_def)
  have "length (filter P (in_scope se good)) < 2 ^ 64"
    using assms(2) in_scope_subset(2) length_filter_le le_less_trans by metis
  moreover have "sum_list (map (\<lambda>r. unat (f r)) (filter P (in_scope se good))) < 2 ^ 53"
    using in_scope_le assms(1) le_less_trans by blast
  ultimately show "statsOf (map (\<lambda>r. unat (f r)) (filter P (in_scope se good))) =
      js_of (computeStats (map f (filter P (in_scope se good))))"
    using statsOf_exact [of "map f (filter P (in_scope se good))"] by (simp add: comp_def)
qed

lemma suite_bars_eq:
  assumes "names = fst (suiteMedians good)" "rows = in_scope se good"
    and "sum_list (map (\<lambda>r. unat (cr_Total (br_Costs r))) good) < 2 ^ 53" "length good < 2 ^ 64"
  shows "suite_bars names (map (\<lambda>r. suite_index names (br_Suite r)) good)
      (js_array (map (\<lambda>r. cr_Total (br_Costs r)) good)) (scope_of se good) =
    (fst (suiteMedians rows), map unat (snd (suiteMedians rows)))"
proof -
  let ?total = "\<lambda>r. cr_Total (br_Costs r)" and ?idx = "\<lambda>r. suite_index names (br_Suite r)"
  let ?keys = "sort (remdups (map ?idx rows))"
  let ?median = "\<lambda>s. unat (cs_P50 (computeStats (map ?total (filter (\<lambda>r. br_Suite r = s) rows))))"
  have names: "sorted names" "distinct names" "set names = br_Suite ` set good"
    by (simp_all add: assms(1) suiteMedians_def Let_def)
  have index: "?idx r < length names \<and> names ! ?idx r = br_Suite r" if "r \<in> set rows" for r
    using suite_index_name [OF names(2)] names(3) that in_scope_subset(1) [of se good] assms(2) by blast
  have keys: "sort (remdups (map (\<lambda>i. map ?idx good ! i) (scope_of se good))) = ?keys"
    using pick_column [of ?idx good se] by (simp add: pick_def assms(2))
  have labels: "map (\<lambda>k. names ! k) ?keys = sort (remdups (map br_Suite rows))"
    using sorted_names_index [OF names(1,2), of "map ?idx rows"] index
    by (simp add: comp_def cong: map_cong)
  have "js_p50 (statsOf (by_suite (map ?idx good) (map (\<lambda>r. unat (?total r)) good) (scope_of se good) k)) =
      ?median (names ! k)" if key: "k \<in> set ?keys" for k
  proof -
    obtain r where r: "r \<in> set rows" "k = ?idx r" using key by auto
    have k: "names ! k = br_Suite r" using index [OF r(1)] unfolding r(2) by (rule conjunct2)
    have "(?idx r' = k) = (br_Suite r' = names ! k)" if "r' \<in> set rows" for r'
    proof
      assume "?idx r' = k"
      with index [OF that] show "br_Suite r' = names ! k" by metis
    next
      assume "br_Suite r' = names ! k"
      then have "br_Suite r' = br_Suite r" by (simp only: k)
      then show "?idx r' = k" by (simp only: r(2))
    qed
    then have "filter (\<lambda>r. ?idx r = k) rows = filter (\<lambda>r. br_Suite r = names ! k) rows"
      by (intro filter_cong refl)
    then show ?thesis
      using column_stats(2) [OF assms(3,4), of "\<lambda>r. ?idx r = k" se]
      by (simp add: by_suite_rows assms(2) js_of_def)
  qed
  then have "map (\<lambda>k. js_p50 (statsOf (by_suite (map ?idx good) (js_array (map ?total good)) (scope_of se good) k))) ?keys =
      map ?median (map (\<lambda>k. names ! k) ?keys)"
    by (simp add: column_stats(1) [OF assms(3,4)])
  then show ?thesis
    unfolding suite_bars_def Let_def keys labels by (simp add: suiteMedians_def Let_def comp_def)
qed

lemma pick_stats:
  assumes "sum_list (map (\<lambda>r. unat (f r)) good) < 2 ^ 53" "length good < 2 ^ 64"
  shows "pick (js_array (map f good)) (scope_of se good) = map (\<lambda>r. unat (f r)) (in_scope se good)"
    and "statsOf (pick (js_array (map f good)) (scope_of se good)) = js_of (computeStats (map f (in_scope se good)))"
proof -
  show *: "pick (js_array (map f good)) (scope_of se good) = map (\<lambda>r. unat (f r)) (in_scope se good)"
    by (simp only: column_stats(1) [OF assms] pick_column)
  show "statsOf (pick (js_array (map f good)) (scope_of se good)) = js_of (computeStats (map f (in_scope se good)))"
    using column_stats(2) [OF assms, of "\<lambda>_. True" se] by (simp add: *)
qed

lemma str_Contains_Nil: "str_Contains s []"
  by (cases s) (simp_all add: str_Contains_def HasPrefix_def)

lemma raw_rows_in_scope: "filter (raw_visible [] False se) (map raw_row good) = map raw_row (in_scope se good)"
proof -
  have "raw_visible [] False se (raw_row r) \<longleftrightarrow> \<not> se \<or> br_GasUsed r \<noteq> 0" for r
    by (auto simp: raw_visible_def raw_row_def js_number_pos unat_gt_0 Let_def str_Contains_Nil)
  then show ?thesis by (simp add: filter_map comp_def in_scope_def partitionByGas_def)
qed

text \<open>
  A click on a column sorts it upwards, the next click on it downwards; rows are neither lost nor added,
  and rows with equal numbers keep their order.
\<close>

definition sort_order :: "nat \<Rightarrow> bool \<Rightarrow> rawBlockRow \<Rightarrow> int" where
  "sort_order col asc row = (if asc then int (js_number (raw_cell col row)) else - int (js_number (raw_cell col row)))"

lemma sort_by_number_rows:
  "rt_rows (sort_by_number col t) = sort_key (sort_order col (rt_sortDir t \<noteq> Some (col, True))) (rt_rows t)"
  by (simp only: sort_by_number_def Let_def raw_table.simps, rule sort_SliceStable_key) (simp add: sort_order_def)

lemma sort_by_number_twice:
  assumes "rt_sortDir t \<noteq> Some (col, True)"
  shows "rt_sortDir (sort_by_number col t) = Some (col, True)"
    and "rt_rows (sort_by_number col (sort_by_number col t)) =
      sort_key (sort_order col False) (sort_key (sort_order col True) (rt_rows t))"
proof -
  show "rt_sortDir (sort_by_number col t) = Some (col, True)" using assms by (simp add: sort_by_number_def Let_def)
  then show "rt_rows (sort_by_number col (sort_by_number col t)) =
      sort_key (sort_order col False) (sort_key (sort_order col True) (rt_rows t))"
    using assms by (simp add: sort_by_number_rows)
qed

text \<open>Prefixes.\<close>

lemma HasPrefix_trans: "HasPrefix x p \<Longrightarrow> HasPrefix p q \<Longrightarrow> HasPrefix x q"
  unfolding HasPrefix_def by (metis append_take_drop_id min_def take_take take_all nat_le_linear)

lemma shrink_prefix: "HasPrefix x (shrink p x) \<and> HasPrefix p (shrink p x)"
proof (induction p x rule: shrink.induct)
  case (1 p x)
  have "HasPrefix p (butlast p)" by (simp add: HasPrefix_def butlast_conv_take)
  with 1 show ?case
    by (subst (1 2) shrink.simps) (auto simp: HasPrefix_def [of _ "[]"] HasPrefix_def [of p p] intro: HasPrefix_trans)
qed

lemma fold_shrink:
  "HasPrefix p (fold (\<lambda>x p. shrink p x) xs p)"
  "x \<in> set xs \<Longrightarrow> HasPrefix x (fold (\<lambda>x p. shrink p x) xs p)"
proof (induction xs arbitrary: p)
  case (Cons y ys)
  { case 1
    show ?case using Cons.IH(1) [of "shrink p y"] shrink_prefix [of y p] HasPrefix_trans by simp blast
  next
    case 2
    then show ?case
      using Cons.IH(2) [of "shrink p y"] Cons.IH(1) [of "shrink p y"] shrink_prefix [of y p] HasPrefix_trans
      by simp blast }
qed (simp_all add: HasPrefix_def)

lemma commonPrefix_prefix:
  assumes "s \<in> set names"
  shows "HasPrefix s (commonPrefix names)"
proof -
  define p where "p = fold (\<lambda>x p. shrink p x) names (hd names)"
  define dir where "dir = rev (dropWhile (\<lambda>c. c \<noteq> CHR ''/'') (rev p))"
  have "p = dir @ rev (takeWhile (\<lambda>c. c \<noteq> CHR ''/'') (rev p))"
    unfolding dir_def by (metis rev_append rev_rev_ident takeWhile_dropWhile_id)
  then have "HasPrefix p dir" by (metis HasPrefix_append)
  moreover have "HasPrefix s p" unfolding p_def using assms by (rule fold_shrink(2))
  ultimately have "HasPrefix s dir" using HasPrefix_trans by blast
  moreover have "commonPrefix names \<in> {dir, []}"
    by (simp add: commonPrefix_def p_def [symmetric] dir_def [symmetric] Let_def)
  ultimately show ?thesis by (auto simp: HasPrefix_def [of s "[]"])
qed

lemma commonPrefix_slash: "commonPrefix names = [] \<or> last (commonPrefix names) = CHR ''/''"
proof -
  have "last (rev (dropWhile (\<lambda>c. c \<noteq> CHR ''/'') (rev p))) = CHR ''/''"
    if "dropWhile (\<lambda>c. c \<noteq> CHR ''/'') (rev p) \<noteq> []" for p
    using that hd_dropWhile [OF that] by (simp add: last_rev)
  then show ?thesis by (auto simp: commonPrefix_def Let_def)
qed

text \<open>The fields of a report in terms of the measured rows.\<close>

lemma report_fields:
  assumes "D = report_data good results target"
  shows "rd_Target D = target" "rd_GasUsed D = map br_GasUsed good" "rd_Good D = length good"
    "rd_InstructionCounts D = map (\<lambda>r. cr_Instructions (br_Costs r)) good"
    "rd_TotalCosts D = map (\<lambda>r. cr_Total (br_Costs r)) good" "rd_BaseCosts D = map (\<lambda>r. cr_Base (br_Costs r)) good"
    "rd_MainCosts D = map (\<lambda>r. cr_Main (br_Costs r)) good" "rd_OpCosts D = map (\<lambda>r. cr_Opcodes (br_Costs r)) good"
    "rd_PreCosts D = map (\<lambda>r. cr_Precompiles (br_Costs r)) good"
    "rd_MemCosts D = map (\<lambda>r. cr_Memory (br_Costs r)) good" "rd_RawBlocks D = map raw_row good"
    "rd_SuiteLabels D = fst (suiteMedians good)" "rd_HasEmptyUnits D = (0 < length (filter (\<lambda>r. br_GasUsed r = 0) good))"
    "rd_UnitSuiteIdx D = map (\<lambda>r. suite_index (fst (suiteMedians good)) (br_Suite r)) good"
    "rd_EmptyCount D = length (filter (\<lambda>r. br_GasUsed r = 0) good)"
    "rd_RankCosts D = (if rd_Scaled D then sort (map (\<lambda>r. cr_Total (br_Costs r)) good) else [])"
    "rd_SuiteMedians D = (if rd_Scaled D then snd (suiteMedians good) else [])"
    "rd_ElapsedMs D = map (\<lambda>r. of_int (Milliseconds (br_Elapsed r))) good"
    "rd_StatRows D = map (\<lambda>(label, s). \<lparr>st_Label = label, st_Min = cs_Min s, st_P50 = cs_P50 s, st_Max = cs_Max s,
       st_Avg = cs_Avg s\<rparr>) (stat_rows target good)"
    "rd_Labels D = UnitLabels (map br_Label good) \<or> rd_Labels D = BlockNumbers (map br_BlockNum good)"
  by (simp_all add: assms report_data_def Let_def case_prod_unfold)

text \<open>No sum of a cost column reaches 2^53.\<close>

definition sums_exact :: "BlockResult list \<Rightarrow> bool" where
  "sums_exact good \<longleftrightarrow>
     list_all (\<lambda>f. sum_list (map (\<lambda>r. unat (f (br_Costs r))) good) < 2 ^ 53)
       [cr_Base, cr_Main, cr_Opcodes, cr_Precompiles, cr_Memory, cr_Total, cr_Instructions]"

lemma refresh_exact:
  assumes "D = report_data good results target" "rows = in_scope se good" "length good < 2 ^ 64" "sums_exact good"
  shows "pg_Stats (refresh D se pg) = map (\<lambda>(label, s). (label, js_of s)) (stat_rows target rows)"
    and "pg_Rank (refresh D se pg) =
      map_option (\<lambda>_. map unat (sort (map (\<lambda>r. cr_Total (br_Costs r)) rows))) (pg_Rank pg)"
    and "pg_Suites (refresh D se pg) =
      map_option (\<lambda>_. (fst (suiteMedians rows), map unat (snd (suiteMedians rows)))) (pg_Suites pg)"
proof -
  note D = report_fields [OF assms(1)]
  note column = pick_stats [OF _ assms(3), of "\<lambda>r. f (br_Costs r)" se for f]
  note sums = assms(4) [unfolded sums_exact_def, simplified]
  show "pg_Stats (refresh D se pg) = map (\<lambda>(label, s). (label, js_of s)) (stat_rows target rows)"
    using sums by (simp add: refresh_def Let_def statSeries_def D column(2) stat_rows_def cost_columns_def assms(2))
  show "pg_Rank (refresh D se pg) =
      map_option (\<lambda>_. map unat (sort (map (\<lambda>r. cr_Total (br_Costs r)) rows))) (pg_Rank pg)"
    using sums sort_unat [of "map (\<lambda>r. cr_Total (br_Costs r)) rows"]
    by (simp add: refresh_def Let_def D column(1) assms(2) comp_def)
  show "pg_Suites (refresh D se pg) =
      map_option (\<lambda>_. (fst (suiteMedians rows), map unat (snd (suiteMedians rows)))) (pg_Suites pg)"
    using sums suite_bars_eq [OF refl assms(2) _ assms(3)] by (simp add: refresh_def Let_def D)
qed

lemma page_load_fields:
  "pg_Rank (page_load D) = (if rd_Scaled D then Some (js_array (rd_RankCosts D)) else None)"
  "pg_Suites (page_load D) = (if rd_Scaled D then Some (rd_SuiteLabels D, js_array (rd_SuiteMedians D)) else None)"
  "pg_Stats (page_load D) = map (\<lambda>r. (st_Label r, \<lparr>js_min = unat (st_Min r), js_p50 = unat (st_P50 r),
     js_max = unat (st_Max r), js_avg = unat (st_Avg r)\<rparr>)) (rd_StatRows D)"
  unfolding page_load_def Let_def by simp_all

lemma suite_medians_small:
  assumes "\<forall>r \<in> set good. unat (cr_Total (br_Costs r)) < b" "m \<in> set (snd (suiteMedians good))"
  shows "unat m < b"
proof -
  obtain s where s: "s \<in> br_Suite ` set good"
    and m: "m = cs_P50 (computeStats (map (\<lambda>r. cr_Total (br_Costs r)) (filter (\<lambda>r. br_Suite r = s) good)))"
    using assms(2) by (auto simp: suiteMedians_def Let_def)
  let ?vals = "map (\<lambda>r. cr_Total (br_Costs r)) (filter (\<lambda>r. br_Suite r = s) good)"
  have "?vals \<noteq> []" using s by (auto simp: filter_empty_conv)
  then have "length ?vals div 2 < length (sort ?vals)" by simp
  then have "sort ?vals ! (length ?vals div 2) \<in> set (sort ?vals)" by (rule nth_mem)
  then have "m \<in> set ?vals" using \<open>?vals \<noteq> []\<close> by (simp add: m computeStats_sorted)
  with assms(1) show ?thesis by auto
qed

lemma refresh_refresh: "refresh D a (refresh D b pg) = refresh D a pg"
  by (simp add: refresh_def Let_def option.map_comp comp_def)

lemma scope_all: "scope_of False good = [0 ..< length good]"
  by (simp add: scope_eq)

lemma pick_all: "length xs = n \<Longrightarrow> pick xs [0 ..< n] = xs"
  by (auto simp: pick_def map_nth)

lemma length_js_array [simp]: "length (js_array vs) = length vs"
  by (simp add: js_array_def)

lemma scope_text_all:
  "scope_text False (js_array (map br_GasUsed good)) [0 ..< length good] =
     itoa (length good) @ '' units, including '' @ itoa (length (filter (\<lambda>r. br_GasUsed r = 0) good)) @ '' that used no gas''"
proof -
  have "js_number (unat g) = 0 \<longleftrightarrow> g = 0" for g :: u64
    using js_number_pos [of "unat g"] by (cases "g = 0") (simp_all add: unat_gt_0)
  then show ?thesis
    by (simp add: scope_text_def Let_def js_array_def filter_map comp_def del: format_digits.simps)
qed

text \<open>
  The tick of a name is what follows its last double colon. A name without one loses its first character,
  because the index is then -1.
\<close>

lemma lastIndexOf_eq:
  assumes "i \<le> length s" "HasPrefix (drop i s) w" "\<forall>j. i < j \<longrightarrow> j \<le> length s \<longrightarrow> \<not> HasPrefix (drop j s) w"
  shows "lastIndexOf s w = int i"
proof -
  have "[0 ..< Suc (length s)] = [0 ..< i] @ i # [Suc i ..< Suc (length s)]"
    using assms(1) by (metis le_add1 le_imp_less_Suc plus_nat.add_0 upt_add_eq_append upt_conv_Cons le_Suc_eq le_iff_add add.commute)
  moreover have "filter (\<lambda>j. HasPrefix (drop j s) w) (rev [Suc i ..< Suc (length s)]) = []"
    unfolding filter_empty_conv set_rev set_upt using assms(3)
    by (intro ballI) (metis Suc_le_eq atLeastLessThan_iff less_Suc_eq_le)
  ultimately show ?thesis using assms(2) by (simp add: lastIndexOf_def)
qed

lemma lastIndexOf_none: "\<forall>i \<le> length s. \<not> HasPrefix (drop i s) w \<Longrightarrow> lastIndexOf s w = - 1"
proof -
  assume "\<forall>i \<le> length s. \<not> HasPrefix (drop i s) w"
  then have "filter (\<lambda>i. HasPrefix (drop i s) w) (rev [0 ..< Suc (length s)]) = []"
    by (auto simp: filter_empty_conv less_Suc_eq_le)
  then show ?thesis by (simp only: lastIndexOf_def list.case)
qed

lemma no_colon_prefix: "CHR '':'' \<notin> set s \<Longrightarrow> \<not> HasPrefix (drop i s) ''::''"
  by (auto simp: HasPrefix_def) (metis in_set_dropD in_set_takeD list.set_intros(1))

lemma unit_tick_short:
  assumes "CHR '':'' \<notin> set name" "length name \<le> 24"
  shows "unit_tick (pre @ ''::'' @ name) = name"
proof -
  have "lastIndexOf (pre @ ''::'' @ name) ''::'' = int (length pre)"
  proof (rule lastIndexOf_eq)
    show "\<forall>j. length pre < j \<longrightarrow> j \<le> length (pre @ ''::'' @ name) \<longrightarrow> \<not> HasPrefix (drop j (pre @ ''::'' @ name)) ''::''"
    proof (intro allI impI)
      fix j assume "length pre < j"
      then obtain k where j: "j = length pre + Suc k" using less_imp_Suc_add by auto
      show "\<not> HasPrefix (drop j (pre @ ''::'' @ name)) ''::''"
      proof (cases k)
        case 0
        have "hd (name @ ''x'') \<noteq> CHR '':''" using assms(1) by (cases name) auto
        then show ?thesis by (cases name) (auto simp: j 0 HasPrefix_def)
      next
        case (Suc l)
        then show ?thesis using no_colon_prefix [OF assms(1), of l] by (simp add: j)
      qed
    qed
  qed (simp_all add: HasPrefix_def)
  then show ?thesis using assms(2) by (simp add: unit_tick_def nat_add_distrib)
qed

lemma unit_tick_cuts:
  assumes "CHR '':'' \<notin> set s" "length s \<le> 25"
  shows "unit_tick s = drop 1 s"
proof -
  have "lastIndexOf s ''::'' = - 1" using no_colon_prefix [OF assms(1)] by (intro lastIndexOf_none) blast
  then show ?thesis using assms(2) by (simp add: unit_tick_def Let_def)
qed

section \<open>Properties\<close>

text \<open>
  The arrays of a report fit together. Every per-unit array has one entry per measured unit and every
  suite index is one of the suite names, so the script never reads past the end of an array, whichever
  units are in scope.
\<close>

lemma report_arrays_aligned:
  "let D = report_data good results target
   in (\<forall>i \<in> set (scopeIdx se (js_array (rd_GasUsed D))).
        list_all (\<lambda>vs. i < length vs) [rd_GasUsed D, rd_ElapsedMs D, rd_InstructionCounts D, rd_TotalCosts D,
          rd_BaseCosts D, rd_MainCosts D, rd_OpCosts D, rd_PreCosts D, rd_MemCosts D] \<and>
        (case rd_Labels D of UnitLabels ls \<Rightarrow> i < length ls | BlockNumbers ns \<Rightarrow> i < length ns) \<and>
        i < length (rd_RawBlocks D) \<and> i < length (rd_UnitSuiteIdx D) \<and>
        rd_UnitSuiteIdx D ! i < length (rd_SuiteLabels D)) \<and>
      length (rd_GasUsed D) = rd_Good D"
proof -
  have suites: "distinct (fst (suiteMedians good))" "set (fst (suiteMedians good)) = br_Suite ` set good"
    by (simp_all add: suiteMedians_def Let_def)
  have "i < length good" if "i \<in> set (scope_of se good)" for i using that by (simp add: scope_eq)
  with suite_index_name [OF suites(1)] suites(2) show ?thesis
    by (simp add: report_data_def Let_def case_prod_unfold)
qed

text \<open>
  C25: the page agrees with the program. After the reader ticks or clears "Exclude zero-gas units", as long
  as the sums of the cost columns are below 2^53, the table shows the statistics that \<open>computeStats\<close>
  gives for the units in scope (with the box ticked, those that \<open>printSummary\<close> prints); the rank chart
  and the suite chart, where the report has them, show the sorted costs and the suite medians of these
  units; and of the raw table these units' rows remain.
\<close>

theorem page_matches_program:
  assumes "D = report_data good results target" "rows = in_scope se good" "length good < 2 ^ 64" "sums_exact good"
    and "pg = refresh D se (page_load D)"
  shows "pg_Stats pg = map (\<lambda>(label, s). (label, js_of s)) (stat_rows target rows) \<and>
    (se \<and> rd_HasEmptyUnits D \<longrightarrow> sm_Rows (printSummary good n k target) = stat_rows target rows) \<and>
    pg_Rank pg = (if rd_Scaled D then Some (map unat (sort (map (\<lambda>r. cr_Total (br_Costs r)) rows))) else None) \<and>
    pg_Suites pg = (if rd_Scaled D then Some (fst (suiteMedians rows), map unat (snd (suiteMedians rows))) else None) \<and>
    applyRawFilters [] False se D = map raw_row rows"
proof -
  note exact = refresh_exact [OF assms(1-4), of "page_load D"]
  have "sm_Rows (printSummary good n k target) = stat_rows target rows" if "se" "rd_HasEmptyUnits D"
    using that
    by (simp add: report_fields [OF assms(1)] printSummary_def assms(2) in_scope_def partitionByGas_def Let_def)
  moreover have "applyRawFilters [] False se D = map raw_row rows"
    by (simp add: applyRawFilters_def report_fields [OF assms(1)] raw_rows_in_scope assms(2))
  ultimately show ?thesis by (simp add: assms(5) exact page_load_fields)
qed

text \<open>
  C31: the toggle can be undone. Ticking "Exclude zero-gas units" and clearing it again gives the page as it
  was loaded, with the table that the Go template wrote and the charts over all units, as long as the
  sums of the cost columns are below 2^53.
\<close>

theorem toggle_restores_page:
  assumes "D = report_data good results target" "length good < 2 ^ 64" "sums_exact good"
  shows "refresh D False (refresh D True (page_load D)) = page_load D"
proof -
  note D = report_fields [OF assms(1)]
  note exact = refresh_exact [OF assms(1) refl assms(2,3), of False "page_load D", unfolded in_scope_def, simplified]
  have small: "unat (cr_Total (br_Costs r)) < 2 ^ 53" if "r \<in> set good" for r
    using assms(3) that member_le_sum_list [of "unat (cr_Total (br_Costs r))" "map (\<lambda>r. unat (cr_Total (br_Costs r))) good"]
    by (simp add: sums_exact_def)
  have "pg_Stats (refresh D False (page_load D)) = pg_Stats (page_load D)"
    by (simp add: exact(1) page_load_fields D js_of_def case_prod_unfold comp_def)
  moreover have "pg_Rank (refresh D False (page_load D)) = pg_Rank (page_load D)"
    using small by (simp add: exact(2) page_load_fields D js_array_exact)
  moreover have "pg_Suites (refresh D False (page_load D)) = pg_Suites (page_load D)"
    using suite_medians_small [of good "2 ^ 53"] small
    by (simp add: exact(3) page_load_fields D js_array_exact)
  moreover have "pg_Scope (refresh D False (page_load D)) = pg_Scope (page_load D)"
    by (simp add: refresh_def page_load_def Let_def D scope_all scope_text_all del: format_digits.simps)
  moreover have "pick_labels (rd_Labels D) [0 ..< length good] = rd_Labels D"
    using D(20) by (auto simp: pick_all)
  then have "page.truncate (refresh D False (page_load D)\<lparr>pg_Stats := [], pg_Scope := None, pg_Rank := None, pg_Suites := None\<rparr>) =
      page.truncate (page_load D\<lparr>pg_Stats := [], pg_Scope := None, pg_Rank := None, pg_Suites := None\<rparr>)"
    by (simp add: refresh_def page_load_def Let_def D scope_all pick_all page.defs)
  ultimately show ?thesis unfolding refresh_refresh
    by (cases "refresh D False (page_load D)", cases "page_load D") (simp add: page.defs)
qed

text \<open>
  The chart of instruction counts of an openvm report is not kept by the script, so the toggle does not
  reach it: it goes on showing every unit.
\<close>

lemma instruction_chart_keeps_all: "pg_Instructions (refresh D se pg) = pg_Instructions pg"
  by (simp add: refresh_def Let_def)

text \<open>Above that bound they part: the script's sum is rounded where the program's is not.\<close>

lemma statsOf_diverges:
  "js_avg (statsOf (map unat [3, 2 ^ 53 :: u64])) \<noteq> unat (cs_Avg (computeStats [3, 2 ^ 53]))"
proof -
  have "js_floor_div 9007199254740996 2 = 4503599627370498"
    by (simp add: js_floor_div_def round_even_def scale_up.simps)
  then show ?thesis
    using js_add_inexact by (simp add: statsOf_def computeStats_def Let_def js_add_def numeral_2_eq_2 [symmetric])
qed

definition sample_units :: "BlockResult list" where
  "sample_units =
     [(sample_row ''a'')\<lparr>br_GasUsed := 21000, br_Costs := zero_CostReport\<lparr>cr_Total := 40\<rparr>\<rparr>,
      (sample_row ''b'')\<lparr>br_GasUsed := 0, br_Costs := zero_CostReport\<lparr>cr_Total := 2\<rparr>\<rparr>]"

lemma sample_units_ok: "length sample_units < 2 ^ 64" "sums_exact sample_units"
  by (simp_all add: sample_units_def sums_exact_def zero_CostReport_def)

lemma report_arrays_aligned_example:
  "rd_UnitSuiteIdx (report_data sample_units [] ''zisk'') ! 0 < length (rd_SuiteLabels (report_data sample_units [] ''zisk''))"
proof -
  have "0 \<in> set (scope_of True sample_units)" unfolding scope_eq by (simp add: sample_units_def)
  then show ?thesis
    using report_arrays_aligned [of sample_units "[]" "''zisk''" True]
    by (simp only: Let_def report_fields(2) [OF refl])
qed

theorem page_matches_program_witness:
  "pg_Stats (refresh (report_data sample_units [] ''zisk'') True (page_load (report_data sample_units [] ''zisk''))) =
     map (\<lambda>(label, s). (label, js_of s)) (stat_rows ''zisk'' (in_scope True sample_units))"
  using page_matches_program [OF refl refl sample_units_ok refl, of "[]" "''zisk''" True] by blast

theorem toggle_restores_page_witness:
  "\<exists>D. D = report_data sample_units [] ''zisk'' \<and> refresh D False (refresh D True (page_load D)) = page_load D"
  using toggle_restores_page [OF refl sample_units_ok, of "[]" "''zisk''"] by blast

text \<open>
  Shortening suite names on the axis loses nothing. The common prefix is a prefix of every name that
  ends in a slash, or empty; a short name is the rest of the full name after it, and different
  suites keep different names.
\<close>

lemma short_names_faithful:
  assumes "s \<in> set names"
  shows "commonPrefix names @ shortSuite (commonPrefix names) s = s \<and>
    (commonPrefix names = [] \<or> last (commonPrefix names) = CHR ''/'') \<and>
    (\<forall>t \<in> set names. shortSuite (commonPrefix names) s = shortSuite (commonPrefix names) t \<longrightarrow> s = t)"
proof -
  have "commonPrefix names @ shortSuite (commonPrefix names) t = t" if "t \<in> set names" for t
    using commonPrefix_prefix [OF that] by (auto simp: shortSuite_def HasPrefix_def) (metis append_take_drop_id)
  with assms commonPrefix_slash show ?thesis by metis
qed

lemma short_names_faithful_example:
  "commonPrefix [''a/b/x'', ''a/b/y''] @ shortSuite (commonPrefix [''a/b/x'', ''a/b/y'']) ''a/b/x'' = ''a/b/x'' \<and>
   commonPrefix [''a/b/x'', ''a/b/y''] = ''a/b/''"
proof -
  have "commonPrefix [''a/b/x'', ''a/b/y''] = ''a/b/''" by code_simp
  moreover have "commonPrefix [''a/b/x'', ''a/b/y''] @ shortSuite (commonPrefix [''a/b/x'', ''a/b/y'']) ''a/b/x'' = ''a/b/x''"
    using short_names_faithful [of "''a/b/x''" "[''a/b/x'', ''a/b/y'']"] by simp
  ultimately show ?thesis by simp
qed

end
