(* ===== verification/Chart_Data.thy ===== *)
theory Chart_Data
  imports Report_Script Json_Text
begin

text \<open>
  The arrays at the head of the report's script (\<open>bench/main.go\<close>): \<open>toJS\<close>, the constants the template
  declares, and how a browser reads them back.
\<close>

section \<open>Writing\<close>

text \<open>Marshalling a slice of strings or of unsigned numbers does not fail.\<close>

definition toJS :: "json \<Rightarrow> string" where
  "toJS v = (let b = json_text v in if b = ''null'' then ''[]'' else b)"

text \<open>A slice without elements may be nil, which marshals to null; either way \<open>toJS\<close> gives the empty array.\<close>

definition slice_json :: "('a \<Rightarrow> json) \<Rightarrow> 'a list \<Rightarrow> json" where
  "slice_json f xs = (if xs = [] then JNull else JArr (map f xs))"

definition uints_json :: "u64 list \<Rightarrow> json" where
  "uints_json vs = slice_json (\<lambda>v. JNum (itoa (unat v))) vs"

fun labels_json :: "labels \<Rightarrow> json" where
  "labels_json (UnitLabels ls) = slice_json JStr ls"
| "labels_json (BlockNumbers ns) = uints_json ns"

definition chart_consts :: "reportData \<Rightarrow> (string \<times> string) list" where
  "chart_consts D =
     [(''labels'', toJS (labels_json (rd_Labels D))),
      (''gasUsed'', toJS (uints_json (rd_GasUsed D))),
      (''unitSuiteIdx'', toJS (slice_json (\<lambda>i. JNum (itoa i)) (rd_UnitSuiteIdx D))),
      (''rankCosts'', toJS (uints_json (rd_RankCosts D))),
      (''suiteLabels'', toJS (slice_json JStr (rd_SuiteLabels D))),
      (''suiteMedians'', toJS (uints_json (rd_SuiteMedians D))),
      (''elapsedMs'', toJS (uints_json (rd_ElapsedMs D))),
      (''instructionCounts'', toJS (uints_json (rd_InstructionCounts D))),
      (''totalCosts'', toJS (uints_json (rd_TotalCosts D))),
      (''baseCosts'', toJS (uints_json (rd_BaseCosts D))),
      (''mainCosts'', toJS (uints_json (rd_MainCosts D))),
      (''opCosts'', toJS (uints_json (rd_OpCosts D))),
      (''preCosts'', toJS (uints_json (rd_PreCosts D))),
      (''memCosts'', toJS (uints_json (rd_MemCosts D)))]"

section \<open>Reading\<close>

text \<open>What a browser makes of an array literal: its elements, a number as the nearest double.\<close>

definition js_elements :: "string \<Rightarrow> json list option" where
  "js_elements text = (case json_Decode text of Some (JArr vs) \<Rightarrow> Some vs | _ \<Rightarrow> None)"

fun js_numeral :: "json \<Rightarrow> nat option" where
  "js_numeral (JNum lit) = map_option js_number (digits_value 10 0 lit)"
| "js_numeral _ = None"

definition const_numbers :: "reportData \<Rightarrow> string \<Rightarrow> nat option list option" where
  "const_numbers D name = map_option (map js_numeral) (Option.bind (map_of (chart_consts D) name) js_elements)"

definition const_strings :: "reportData \<Rightarrow> string \<Rightarrow> json list option" where
  "const_strings D name = Option.bind (map_of (chart_consts D) name) js_elements"

lemma toJS_slice:
  assumes "\<And>x. json_ok (f x)"
  shows "js_elements (toJS (slice_json f xs)) = Some (map (\<lambda>x. json_clean (f x)) xs)"
proof (cases "xs = []")
  case True
  moreover have "js_elements ''[]'' = Some []" by code_simp
  ultimately show ?thesis by (simp add: toJS_def slice_json_def)
next
  case False
  have "json_ok (JArr (map f xs))" using assms by (simp add: list_all_iff)
  from json_Decode_text [OF this] False show ?thesis
    by (simp add: toJS_def slice_json_def js_elements_def comp_def)
qed

lemma toJS_safe: "json_ok v \<Longrightarrow> list_all script_safe (toJS v)"
  using json_text_safe [of v] safe_chars(1) by (simp add: toJS_def Let_def)

lemma slice_ok: "(\<And>x. json_ok (f x)) \<Longrightarrow> json_ok (slice_json f xs)"
  by (simp add: slice_json_def list_all_iff)

lemma toJS_uints:
  "map_option (map js_numeral) (js_elements (toJS (uints_json vs))) = Some (map Some (js_array vs))"
  by (simp add: uints_json_def toJS_slice itoa_num js_array_def digits_value_format del: format_digits.simps json_ok.simps)

lemma toJS_nats:
  "map_option (map js_numeral) (js_elements (toJS (slice_json (\<lambda>i. JNum (itoa i)) ns))) = Some (map Some (map js_number ns))"
  by (simp add: toJS_slice itoa_num digits_value_format del: format_digits.simps json_ok.simps)

lemma const_uints:
  "map_of (chart_consts D) name = Some (toJS (uints_json vs)) \<Longrightarrow> const_numbers D name = Some (map Some (js_array vs))"
  by (simp only: const_numbers_def toJS_uints bind.simps)

section \<open>Properties\<close>

text \<open>
  C30: the arrays reach the script intact. Whatever the labels of the units and suites contain, no array
  text has a character that could end the script element or start markup; every array of numbers is
  read as the doubles nearest to the numbers of the report, and labels are read back as they are,
  apart from bytes that are not UTF-8.
\<close>

theorem chart_arrays_intact:
  "list_all (\<lambda>(name, text). list_all script_safe text) (chart_consts D) \<and>
   list_all (\<lambda>(name, vs). const_numbers D name = Some (map Some (js_array vs)))
     [(''gasUsed'', rd_GasUsed D), (''rankCosts'', rd_RankCosts D), (''suiteMedians'', rd_SuiteMedians D),
      (''elapsedMs'', rd_ElapsedMs D), (''instructionCounts'', rd_InstructionCounts D),
      (''totalCosts'', rd_TotalCosts D), (''baseCosts'', rd_BaseCosts D), (''mainCosts'', rd_MainCosts D),
      (''opCosts'', rd_OpCosts D), (''preCosts'', rd_PreCosts D), (''memCosts'', rd_MemCosts D)] \<and>
   const_numbers D ''unitSuiteIdx'' = Some (map Some (map js_number (rd_UnitSuiteIdx D))) \<and>
   const_strings D ''suiteLabels'' = Some (map (\<lambda>s. JStr (utf8_clean s)) (rd_SuiteLabels D)) \<and>
   (case rd_Labels D of
      UnitLabels ls \<Rightarrow> const_strings D ''labels'' = Some (map (\<lambda>s. JStr (utf8_clean s)) ls)
    | BlockNumbers ns \<Rightarrow> const_numbers D ''labels'' = Some (map Some (js_array ns)))"
proof -
  have ok: "json_ok (uints_json vs)" "json_ok (slice_json JStr ss)" "json_ok (slice_json (\<lambda>i. JNum (itoa i)) ns)"
    for vs ss ns unfolding uints_json_def by (rule slice_ok, rule itoa_num, rule slice_ok, simp, rule slice_ok, rule itoa_num)
  then have "json_ok (labels_json l)" for l by (cases l) simp_all
  with ok have "list_all (\<lambda>(name, text). list_all script_safe text) (chart_consts D)"
    by (simp add: chart_consts_def toJS_safe)
  moreover have "const_numbers D ''unitSuiteIdx'' = Some (map Some (map js_number (rd_UnitSuiteIdx D)))"
    by (simp add: const_numbers_def chart_consts_def toJS_nats del: map_map format_digits.simps)
  moreover have "const_strings D ''suiteLabels'' = Some (map (\<lambda>s. JStr (utf8_clean s)) (rd_SuiteLabels D))"
    by (simp add: const_strings_def chart_consts_def toJS_slice)
  moreover have "case rd_Labels D of
      UnitLabels ls \<Rightarrow> const_strings D ''labels'' = Some (map (\<lambda>s. JStr (utf8_clean s)) ls)
    | BlockNumbers ns \<Rightarrow> const_numbers D ''labels'' = Some (map Some (js_array ns))"
    by (cases "rd_Labels D") (simp_all add: const_strings_def const_numbers_def chart_consts_def toJS_slice toJS_uints)
  ultimately show ?thesis
    by (intro conjI) (simp_all only: list.pred_inject prod.case simp_thms, (intro conjI const_uints; simp add: chart_consts_def)?)
qed

end
