(* ===== verification/Bench_Page.thy ===== *)
theory Bench_Page
  imports Bench_Report Html
begin

text \<open>
  The benchmark report as a page: the tables and headings of the template in \<open>bench/main.go\<close>. The head
  with the style sheet is left out; the script is in \<open>Report_Script\<close>.
\<close>

section \<open>The page\<close>

definition num :: "nat \<Rightarrow> html" where
  "num n = td [] [Text (itoa n)]"

definition stat_tr :: "statRow \<Rightarrow> html" where
  "stat_tr r = Elem ''tr'' [] [td [] [Text (st_Label r)], num (unat (st_Min r)), num (unat (st_P50 r)),
     num (unat (st_Max r)), num (unat (st_Avg r))]"

definition validation_fail_tr :: "validationFailRow \<Rightarrow> html" where
  "validation_fail_tr r =
     Elem ''tr'' []
       [td [(''style'', ''white-space:nowrap;font-family:monospace'')] [Text (vf_Unit r)],
        td [] [Text (if vf_ExpectedSuccess r then ''success'' else ''failure'')],
        td [(''style'', ''color:#dc3545'')]
          (if vf_Reason r \<noteq> [] then [Text (vf_Reason r)]
           else if vf_ExecError r \<noteq> [] then [Text ''failed: '', Text (vf_ExecError r)] else [Text ''success''])]"

definition exec_failed_tr :: "execFailedRow \<Rightarrow> html" where
  "exec_failed_tr r =
     Elem ''tr'' []
       [td [(''style'', ''white-space:nowrap;font-family:monospace'')] [Text (xf_Unit r)],
        td [(''style'', ''font-family:monospace;color:#6c757d'')] [Text (xf_Reason r)]]"

definition bench_error_tr :: "errorRow \<Rightarrow> html" where
  "bench_error_tr r =
     Elem ''tr'' []
       [td [(''style'', ''white-space:nowrap'')] [Text (ew_Unit r)],
        td [] [Elem ''details'' []
                 [Elem ''summary'' [(''style'', ''cursor:pointer;font-family:monospace'')] [Text (ew_ErrMsg r)],
                  Elem ''pre'' [(''style'', ''margin:.5rem 0;padding:.5rem;background:#f1f3f5;border-radius:4px;overflow-x:auto;font-size:.8rem'')]
                    [Text (ew_Output r)]]]]"

definition bench_skip_tr :: "skipRow \<Rightarrow> html" where
  "bench_skip_tr r =
     Elem ''tr'' []
       [td [(''style'', ''font-family:monospace'')] [Text (sk_Unit r)], td [] [Text (sk_Network r)],
        td [(''style'', ''color:#6c757d'')] [Text (sk_Reason r)]]"

definition raw_tr :: "rawBlockRow \<Rightarrow> html" where
  "raw_tr r =
     Elem ''tr'' (if rw_Success r then [] else [(''class'', ''row-fail'')])
       [td [(''style'', ''font-family:monospace'')] [Text (rw_Unit r)], num (rw_TxCount r), num (unat (rw_GasUsed r)),
        num (unat (rw_Base r)), num (unat (rw_Main r)), num (unat (rw_Opcodes r)), num (unat (rw_Precompiles r)),
        num (unat (rw_Memory r)), num (unat (rw_Total r)),
        td [(''style'', ''text-align:center'')]
          [if rw_Success r then Elem ''span'' [(''style'', ''color:#198754'')] [Text check_mark]
           else Elem ''span'' [(''style'', ''color:#dc3545'')] [Text cross_mark]],
        td [(''style'', ''font-family:monospace;font-size:.72rem;white-space:nowrap''), (''title'', rw_PayloadRoot r)]
          [Text ''0x'', Text (rw_PayloadRoot r)]]"

text \<open>A section of the page: only if it has rows, a heading, an optional hint, and the table.\<close>

definition page_section :: "html list \<Rightarrow> (string \<times> string) list \<Rightarrow> string list \<Rightarrow> ('r \<Rightarrow> html) \<Rightarrow> 'r list \<Rightarrow> html list" where
  "page_section headings as columns row rows = (if rows = [] then [] else headings @ [table as (plain_columns columns) [] (map row rows)])"

definition heading :: "string \<Rightarrow> nat \<Rightarrow> string \<Rightarrow> html" where
  "heading title n what = Elem ''h2'' [] [Text (title @ '' (''), Text (itoa n), Text ('' '' @ what @ '')'')]"

definition chart :: "string \<Rightarrow> (string \<times> string) list \<Rightarrow> string \<Rightarrow> html list" where
  "chart title as name =
     [Elem ''h2'' [] [Text title], Elem ''div'' as [Elem ''canvas'' [(''id'', name)] []]]"

definition wrap :: "(string \<times> string) list" where
  "wrap = [(''class'', ''chart-wrap'')]"

definition bar :: string where
  "bar = [CHR '' '', CHR 0xC2, CHR 0xA0, CHR ''|'', CHR 0xC2, CHR 0xA0, CHR '' '']"

definition meta_line :: "string \<Rightarrow> reportData \<Rightarrow> html" where
  "meta_line generated D =
     Elem ''p'' [(''class'', ''meta'')]
       ([Text ''Generated: '', Text generated, Text bar, Text ''Blocks: '', Text (itoa (rd_Good D)), Text ''/'', Text (itoa (rd_Total D)),
         Text '' succeeded''] @
        (if rd_ValidationFailed D \<noteq> 0
         then [Text bar, Elem ''span'' [(''style'', ''color:#dc3545'')]
                              [Text (itoa (rd_ValidationFailed D)), Text '' validation failure(s)'']] else []) @
        (if rd_Failed D \<noteq> 0 then [Text bar, Text (itoa (rd_Failed D)), Text '' expected failure(s)''] else []) @
        (if rd_Unverified D \<noteq> 0 then [Text bar, Text (itoa (rd_Unverified D)), Text '' unverified''] else []) @
        (if rd_Skipped D \<noteq> 0 then [Text bar, Text (itoa (rd_Skipped D)), Text '' skipped''] else []))"

definition toolbar :: "reportData \<Rightarrow> html list" where
  "toolbar D =
     (if rd_HasEmptyUnits D
      then [Elem ''div'' [(''class'', ''toolbar'')]
              [Elem ''label'' [(''for'', ''excludeEmpty'')]
                 [Void ''input'' [(''type'', ''checkbox''), (''id'', ''excludeEmpty'')],
                  Text ''Exclude zero-gas units ('', Text (itoa (rd_EmptyCount D)), Text '')''],
               Elem ''span'' [(''class'', ''scope''), (''id'', ''statScope'')]
                 [Text (itoa (rd_Good D)), Text '' units, including '', Text (itoa (rd_EmptyCount D)), Text '' that used no gas''],
               Elem ''p'' [(''class'', ''hint'')]
                 [Text (''Zero-gas units ran and validated normally but sit at the base-cost floor. With them included the '' @
                        ''median reflects fixture scaffolding rather than executed work. Applies to the stats, charts and '' @
                        ''the raw table below.'')]]]
      else [])"

definition charts :: "reportData \<Rightarrow> html list" where
  "charts D =
     (if rd_Scaled D
      then Elem ''p'' [(''class'', ''meta'')] [Text (rd_ScaleNote D)] #
           chart ''Total Cost Distribution (sorted by rank)'' wrap ''rankChart'' @
           chart ''Median Total Cost by Suite''
             [(''class'', ''chart-wrap chart-tall''), (''style'', ''height:'' @ itoa (rd_SuiteChartHeight D) @ ''px'')] ''suiteChart''
      else (if rd_Target D = ''openvm'' then chart ''Instruction Count by Block'' wrap ''instructionChart'' else []) @
           chart ''Wall-Clock Time by Block (ms)'' wrap ''elapsedChart'' @
           (if rd_Target D = ''zisk''
            then chart ''Total Cost by Block'' wrap ''totalChart'' @ chart ''Cost Breakdown by Block'' wrap ''stackedChart''
            else []))"

definition arrows :: string where
  "arrows = [CHR '' '', CHR 0xE2, CHR 0x86, CHR 0x95]"

definition raw_columns :: "reportData \<Rightarrow> ((string \<times> string) list \<times> string) list" where
  "raw_columns D =
     map (\<lambda>(i, c). ([(''onclick'', ''sortTable('' @ itoa i @ '')''), (''style'', if i = 0 then ''cursor:pointer;white-space:nowrap'' else ''cursor:pointer'')],
                     c @ arrows))
       (enumerate 0 [rd_UnitColumn D, ''TxCount'', ''GasUsed'', ''Base'', ''Main'', ''Opcodes'', ''Precompiles'', ''Memory'', ''Total'']) @
     plain_columns [''Success'', ''PayloadRoot'']"

definition raw_section :: "reportData \<Rightarrow> html list" where
  "raw_section D =
     (if rd_RawBlocks D = [] then []
      else [Elem ''h2'' [] [Text ''Raw Block Data''],
            Void ''input'' [(''id'', ''rawSearch''), (''type'', ''text''),
              (''placeholder'', ''Filter by '' @ (if rd_IsEEST D then ''test name'' else ''block number'') @ ''...''),
              (''style'', ''margin-bottom:.5rem;padding:.3rem .6rem;font-size:.9rem;border:1px solid #dee2e6;border-radius:4px;width:220px'')],
            Elem ''label'' [(''style'', ''margin-left:.75rem;font-size:.9rem;cursor:pointer'')]
              [Void ''input'' [(''type'', ''checkbox''), (''id'', ''failOnly''), (''style'', ''margin-right:.3rem'')], Text ''Failures only''],
            Elem ''div'' [(''style'', ''overflow-x:auto;max-width:100%'')]
              [table [(''id'', ''rawTable''), (''style'', ''font-size:.82rem;min-width:900px'')] (raw_columns D) [(''id'', ''rawBody'')]
                 (map raw_tr (rd_RawBlocks D))]])"

definition dash :: string where
  "dash = [CHR 0xE2, CHR 0x80, CHR 0x94]"

definition bench_page :: "string \<Rightarrow> reportData \<Rightarrow> html" where
  "bench_page generated D =
     (let n = rd_UnitColumn D
      in Elem ''body'' []
        ([Elem ''h1'' [] [Text ''zesu-zkvm Benchmark Report '', Elem ''span'' [(''class'', ''target-badge'')] [Text (rd_Target D)]],
          meta_line generated D, Elem ''h2'' [] [Text ''Summary'']] @
         toolbar D @
         [table [] (plain_columns [''Component'', ''Min'', ''P50'', ''Max'', ''Avg'']) [(''id'', ''statBody'')] (map stat_tr (rd_StatRows D))] @
         charts D @
         page_section [heading ''Validation Failures'' (length (rd_ValidationFails D)) ''blocks''] [(''id'', ''validationFailTable'')]
           [n, ''Expected'', ''Got''] validation_fail_tr (rd_ValidationFails D) @
         page_section [heading ''Expected Failures'' (length (rd_ExecFailed D)) ''blocks''] [(''id'', ''execFailTable'')]
           [n, ''Reason''] exec_failed_tr (rd_ExecFailed D) @
         page_section [heading ''Errors'' (length (rd_Errors D)) ''blocks''] [(''id'', ''errTable'')]
           [n, ''Error''] bench_error_tr (rd_Errors D) @
         page_section [heading ''Unverified'' (length (rd_Unverifieds D)) ''units'', Elem ''p'' [(''class'', ''meta'')] [Text (''Ran, but the fixture carries no expected output to compare against '' @ dash @
              '' neither a pass nor a failure.'')]]
           [(''id'', ''unverifiedTable''), (''style'', ''max-width:1100px'')] [n, ''Network'', ''Reason''] bench_skip_tr (rd_Unverifieds D) @
         page_section [heading ''Skipped'' (length (rd_Skips D)) ''units'', Elem ''p'' [(''class'', ''meta'')] [Text (''Not runnable by this tool '' @ dash @ '' no stateless input in the fixture.'')]]
           [(''id'', ''skipTable''), (''style'', ''max-width:1100px'')] [n, ''Network'', ''Reason''] bench_skip_tr (rd_Skips D) @
         raw_section D))"

section \<open>Reading the page\<close>

lemma itoa_clean: "html_clean (itoa n) = itoa n"
proof (rule html_clean_text, rule notI)
  assume "CHR 0x00 \<in> set (itoa n)"
  moreover have "digits_value 10 0 (itoa n) = Some n" by (rule digits_value_format) simp_all
  ultimately have "digit_val (CHR 0x00) \<noteq> None" using digits_value_chars by blast
  moreover have "digit_val (CHR 0x00) = None" by code_simp
  ultimately show False by simp
qed

definition stat_cells :: "statRow \<Rightarrow> string list" where
  "stat_cells r = html_clean (st_Label r) # map (\<lambda>v. itoa (unat v)) [st_Min r, st_P50 r, st_Max r, st_Avg r]"

definition validation_fail_cells :: "validationFailRow \<Rightarrow> string list" where
  "validation_fail_cells r =
     [html_clean (vf_Unit r), (if vf_ExpectedSuccess r then ''success'' else ''failure''),
      (if vf_Reason r \<noteq> [] then html_clean (vf_Reason r)
       else if vf_ExecError r \<noteq> [] then ''failed: '' @ html_clean (vf_ExecError r) else ''success'')]"

definition exec_failed_cells :: "execFailedRow \<Rightarrow> string list" where
  "exec_failed_cells r = [html_clean (xf_Unit r), html_clean (xf_Reason r)]"

definition bench_error_cells :: "errorRow \<Rightarrow> string list" where
  "bench_error_cells r = [html_clean (ew_Unit r), html_clean (ew_ErrMsg r) @ html_clean (ew_Output r)]"

definition bench_skip_cells :: "skipRow \<Rightarrow> string list" where
  "bench_skip_cells r = [html_clean (sk_Unit r), html_clean (sk_Network r), html_clean (sk_Reason r)]"

definition raw_cells :: "rawBlockRow \<Rightarrow> string list" where
  "raw_cells r =
     html_clean (rw_Unit r) # itoa (rw_TxCount r) #
     map (\<lambda>v. itoa (unat v)) [rw_GasUsed r, rw_Base r, rw_Main r, rw_Opcodes r, rw_Precompiles r, rw_Memory r, rw_Total r] @
     [if rw_Success r then check_mark else cross_mark, ''0x'' @ html_clean (rw_PayloadRoot r)]"

lemma words_clean:
  "html_clean ''success'' = ''success''" "html_clean ''failure'' = ''failure''" "html_clean ''failed: '' = ''failed: ''"
  "html_clean ''0x'' = ''0x''"
  by (rule html_clean_text, simp)+

lemmas row_defs = num_def td_def page_tags itoa_clean words_clean marks_clean

lemma rows_page:
  "html_ok (stat_tr a) \<and> block (stat_tr a) \<and> rows_of (stat_tr a) = [stat_cells a]"
  "html_ok (validation_fail_tr b) \<and> block (validation_fail_tr b) \<and> rows_of (validation_fail_tr b) = [validation_fail_cells b]"
  "html_ok (exec_failed_tr c) \<and> block (exec_failed_tr c) \<and> rows_of (exec_failed_tr c) = [exec_failed_cells c]"
  "html_ok (bench_error_tr d) \<and> block (bench_error_tr d) \<and> rows_of (bench_error_tr d) = [bench_error_cells d]"
  "html_ok (bench_skip_tr e) \<and> block (bench_skip_tr e) \<and> rows_of (bench_skip_tr e) = [bench_skip_cells e]"
  "html_ok (raw_tr f) \<and> block (raw_tr f) \<and> rows_of (raw_tr f) = [raw_cells f]"
  by (simp_all add: stat_tr_def validation_fail_tr_def exec_failed_tr_def bench_error_tr_def bench_skip_tr_def raw_tr_def
      stat_cells_def validation_fail_cells_def exec_failed_cells_def bench_error_cells_def bench_skip_cells_def raw_cells_def
      row_defs del: format_digits.simps)

text \<open>A table of the page as it is read: nothing without rows, otherwise the column names and the rows.\<close>

definition section_rows :: "string list \<Rightarrow> ('r \<Rightarrow> string list) \<Rightarrow> 'r list \<Rightarrow> string list list" where
  "section_rows columns cells rows = (if rows = [] then [] else map html_clean columns # map cells rows)"

text \<open>Lists of elements without rows, and the sections.\<close>

definition quiet :: "html list \<Rightarrow> bool" where
  "quiet hs \<longleftrightarrow> list_all (\<lambda>h. html_ok h \<and> block h \<and> rows_of h = []) hs"

lemma quiet_rows: "quiet hs \<Longrightarrow> list_all html_ok hs \<and> list_all block hs \<and> concat (map rows_of hs) = []"
  by (simp add: quiet_def list_all_iff)

lemma quiet_parts:
  "quiet [meta_line generated D]" "quiet (toolbar D)" "quiet (charts D)" "quiet [heading title n what]"
  "quiet [Elem ''p'' [(''class'', ''meta'')] [Text s]]"
  by (simp_all add: quiet_def meta_line_def toolbar_def charts_def chart_def wrap_def heading_def page_tags del: format_digits.simps)

lemma page_section_page:
  assumes "\<And>r. html_ok (f r) \<and> block (f r) \<and> rows_of (f r) = [g r]" "quiet hs" "attrs_ok as"
  shows "list_all html_ok (page_section hs as cols f rs)" "list_all block (page_section hs as cols f rs)"
    "concat (map rows_of (page_section hs as cols f rs)) = section_rows cols g rs"
  using table_page [where rs = rs and f = f and g = g and as = as and body = "[]" and columns = "plain_columns cols"]
    quiet_rows [OF assms(2)] assms(1,3)
  by (simp_all add: page_section_def section_rows_def plain_columns_page)

lemma quiet_headings:
  "quiet [heading title n what, Elem ''p'' [(''class'', ''meta'')] [Text s]]"
  using quiet_parts(4,5) by (simp add: quiet_def)

lemmas sections = page_section_page [OF rows_page(2) quiet_parts(4)] page_section_page [OF rows_page(3) quiet_parts(4)]
  page_section_page [OF rows_page(4) quiet_parts(4)] page_section_page [OF rows_page(5) quiet_headings]

lemma raw_columns_page: "list_all (\<lambda>(a, n). attrs_ok a) (raw_columns D)"
  by (simp add: raw_columns_def plain_columns_def del: format_digits.simps)

lemma raw_section_page:
  "list_all html_ok (raw_section D)" "list_all block (raw_section D)"
  "concat (map rows_of (raw_section D)) = section_rows (map snd (raw_columns D)) raw_cells (rd_RawBlocks D)"
  using table_page [where rs = "rd_RawBlocks D" and f = raw_tr and g = raw_cells
      and as = "[(''id'', ''rawTable''), (''style'', ''font-size:.82rem;min-width:900px'')]"
      and body = "[(''id'', ''rawBody'')]" and columns = "raw_columns D"] rows_page(6)
  by (simp_all add: raw_section_def section_rows_def page_tags raw_columns_page [unfolded case_prod_unfold] case_prod_unfold comp_def)

lemma stat_table_page:
  "html_ok (table [] (plain_columns cols) [(''id'', ''statBody'')] (map stat_tr rs))"
  "block (table [] (plain_columns cols) [(''id'', ''statBody'')] (map stat_tr rs))"
  "rows_of (table [] (plain_columns cols) [(''id'', ''statBody'')] (map stat_tr rs)) = map html_clean cols # map stat_cells rs"
  using table_page [where rs = rs and f = stat_tr and g = stat_cells and as = "[]" and body = "[(''id'', ''statBody'')]"
      and columns = "plain_columns cols"] rows_page(1)
  by (simp_all add: plain_columns_page)

text \<open>
  The line under the title calls the measured units succeeded: a report on one unit that failed validation
  says that 1 of 1 blocks succeeded.
\<close>

lemma succeeded_counts_failures:
  assumes "vd_Kind (br_Verdict r) = verdictFail" "bench_report target n [r] = Inr (good, sm, D)"
  shows "rd_Good D = 1 \<and> rd_Total D = 1"
proof -
  have "D = report_data (sortResults (cl_Good (classify [r]))) [r] target"
    using assms(2) by (auto simp: bench_report_def Let_def)
  moreover have "length (cl_Good (classify [r])) = 1"
    using assms(1) by (simp add: classify_def classify_row_def)
  ultimately show ?thesis by (simp add: report_data_def Let_def case_prod_unfold sortResults_def)
qed

section \<open>Properties\<close>

text \<open>
  C24: the page shows the report and nothing else. Whatever characters unit names, reasons, errors and guest
  outputs contain, a browser that reads the page finds the table of statistics, then the tables of
  validation failures, expected failures, errors, unverified and skipped units and the raw table, each
  only if it has rows, with one row per entry of the report, in its order, and in each cell its text (a
  NUL byte as U+FFFD).
\<close>

theorem bench_page_rows:
  "page_rows (render (bench_page generated D)) =
     map html_clean [''Component'', ''Min'', ''P50'', ''Max'', ''Avg''] # map stat_cells (rd_StatRows D) @
     section_rows [rd_UnitColumn D, ''Expected'', ''Got''] validation_fail_cells (rd_ValidationFails D) @
     section_rows [rd_UnitColumn D, ''Reason''] exec_failed_cells (rd_ExecFailed D) @
     section_rows [rd_UnitColumn D, ''Error''] bench_error_cells (rd_Errors D) @
     section_rows [rd_UnitColumn D, ''Network'', ''Reason''] bench_skip_cells (rd_Unverifieds D) @
     section_rows [rd_UnitColumn D, ''Network'', ''Reason''] bench_skip_cells (rd_Skips D) @
     section_rows (map snd (raw_columns D)) raw_cells (rd_RawBlocks D)"
proof -
  have quiet: "html_ok (meta_line generated D)" "block (meta_line generated D)" "rows_of (meta_line generated D) = []"
    "list_all html_ok (toolbar D)" "list_all block (toolbar D)" "concat (map rows_of (toolbar D)) = []"
    "list_all html_ok (charts D)" "list_all block (charts D)" "concat (map rows_of (charts D)) = []"
    using quiet_parts(1) [of generated D] quiet_rows [OF quiet_parts(2), of D] quiet_rows [OF quiet_parts(3), of D]
    by (simp_all add: quiet_def)
  have ok: "html_ok (bench_page generated D)" "block (bench_page generated D)"
    unfolding bench_page_def Let_def
    by (simp_all add: page_tags quiet sections(1,2,4,5,7,8,10,11) raw_section_page stat_table_page)
  have "page_rows (render (bench_page generated D)) = rows_of (bench_page generated D)"
    by (intro page_rows_of ok)
  then show ?thesis
    unfolding bench_page_def Let_def
    by (simp add: quiet sections(3,6,9,12) raw_section_page stat_table_page)
qed

end
