(* ===== verification/Bench_Main.thy ===== *)
theory Bench_Main
  imports Bench_Page
begin

text \<open>
  The end of the benchmark command (\<open>main\<close>, \<open>writeReport\<close> and the call of \<open>writeCSV\<close> in \<open>bench/main.go\<close>): what is
  written where, and the exit code.
\<close>

section \<open>The command\<close>

record output_flags =
  of_report :: string
  of_csv :: string

text \<open>\<open>be_disk\<close> is the state of the file system when the command ends.\<close>

record bench_end =
  be_code :: int
  be_summary :: "summary option"
  be_disk :: disk

text \<open>
  \<open>document\<close> is the text of the template around the page of \<open>Bench_Page\<close>: it adds the head, the script and
  the white space between elements.
\<close>

definition bench_writeReport ::
  "file_writer \<Rightarrow> (reportData \<Rightarrow> html \<Rightarrow> string) \<Rightarrow> string \<Rightarrow> string \<Rightarrow> reportData \<Rightarrow> disk \<Rightarrow> go_error option \<times> disk" where
  "bench_writeReport W document path generated D d =
     (case fw_create W path d of
        (Some e, d') \<Rightarrow> (Some e, d')
      | (None, d') \<Rightarrow> fw_write W path (document D (bench_page generated D)) d')"

definition bench_finish ::
  "file_writer \<Rightarrow> (reportData \<Rightarrow> html \<Rightarrow> string) \<Rightarrow> output_flags \<Rightarrow> string \<Rightarrow> string \<Rightarrow> nat \<Rightarrow>
   BlockResult list \<Rightarrow> disk \<Rightarrow> bench_end" where
  "bench_finish W document fl generated target nFiles results d =
     (case bench_report target nFiles results of
        Inl e \<Rightarrow> \<lparr>be_code = 1, be_summary = None, be_disk = d\<rparr>
      | Inr (good, sm, D) \<Rightarrow>
          (case bench_writeReport W document (of_report fl) generated D d of
             (Some e, d') \<Rightarrow> \<lparr>be_code = 1, be_summary = sm, be_disk = d'\<rparr>
           | (None, d') \<Rightarrow>
               if of_csv fl \<noteq> [] then
                 (case writeCSV W (of_csv fl) good d' of
                    (Some e, d'') \<Rightarrow> \<lparr>be_code = 1, be_summary = sm, be_disk = d''\<rparr>
                  | (None, d'') \<Rightarrow> \<lparr>be_code = 0, be_summary = sm, be_disk = d''\<rparr>)
               else \<lparr>be_code = 0, be_summary = sm, be_disk = d'\<rparr>))"

text \<open>\<open>runAll\<close> is any finished run of the worker pool; the census is what a dry run prints.\<close>

definition bench_main ::
  "file_system \<Rightarrow> file_writer \<Rightarrow> (reportData \<Rightarrow> html \<Rightarrow> string) \<Rightarrow> bench_flags \<Rightarrow> output_flags \<Rightarrow> string \<Rightarrow>
   (run_setup \<Rightarrow> BlockResult list) \<Rightarrow> disk \<Rightarrow> found option \<times> bench_end" where
  "bench_main fs W document f fl generated runAll d =
     (case plan_bench fs f of
        Usage \<Rightarrow> (None, \<lparr>be_code = 1, be_summary = None, be_disk = d\<rparr>)
      | Fatalf _ \<Rightarrow> (None, \<lparr>be_code = 1, be_summary = None, be_disk = d\<rparr>)
      | Census c \<Rightarrow> (Some c, \<lparr>be_code = 0, be_summary = None, be_disk = d\<rparr>)
      | Ready su \<Rightarrow>
          (None, bench_finish W document fl generated (su_Target su) (length (su_Jobs su)) (runAll su) d))"

text \<open>The warning about a run that mixes both formats.\<close>

definition mixed_warning :: "fileJob list \<Rightarrow> bool" where
  "mixed_warning jobs \<longleftrightarrow> hasKind jobs FormatCorpus \<and> hasKind jobs FormatZkevm"

section \<open>Lemmas\<close>

lemma bench_writeReport_write_new:
  "bench_writeReport W document path generated D d = write_new W path (document D (bench_page generated D)) d"
  by (simp add: bench_writeReport_def write_new_def)

lemmas bench_write_simps = bench_writeReport_write_new writeCSV_write_new

text \<open>
  The exit code says whether the outputs were written, whatever the verdicts: it is 0 exactly when there were units
  and the report, and the CSV if asked for, were written without an error.
\<close>

lemma bench_exit_code:
  assumes "bench_report target n results = Inr (good, sm, D)"
    and "write_new W (of_report fl) (document D (bench_page generated D)) d = (err, d')"
  shows "be_code (bench_finish W document fl generated target n results d) = 0 \<longleftrightarrow>
    err = None \<and> (of_csv fl = [] \<or> fst (write_new W (of_csv fl) (csv_text good) d') = None)"
  using assms(2)
  by (auto simp: bench_finish_def assms(1) bench_write_simps split: option.splits prod.splits)

lemma bench_no_units:
  "bench_finish W document fl generated target n [] d = \<lparr>be_code = 1, be_summary = None, be_disk = d\<rparr>"
  by (simp add: bench_finish_def bench_report_def)

text \<open>What is on the disk after a run that ended with 0: the report and then the CSV have been written.\<close>

lemma bench_finish_zero:
  assumes "writer_law W" "be_code (bench_finish W document fl generated target n results d) = 0"
  obtains good sm D where "bench_report target n results = Inr (good, sm, D)"
    "be_summary (bench_finish W document fl generated target n results d) = sm"
    "be_disk (bench_finish W document fl generated target n results d) =
       (let d' = d(fw_file W (of_report fl) \<mapsto> document D (bench_page generated D))
        in if of_csv fl = [] then d' else d'(fw_file W (of_csv fl) \<mapsto> csv_text good))"
proof (cases "bench_report target n results")
  case (Inr x)
  obtain good sm D where x: "bench_report target n results = Inr (good, sm, D)" using Inr by (cases x) auto
  obtain err d' where report: "write_new W (of_report fl) (document D (bench_page generated D)) d = (err, d')"
    by fastforce
  obtain err' d'' where csv: "write_new W (of_csv fl) (csv_text good) d' = (err', d'')" by fastforce
  have ok: "err = None" "of_csv fl = [] \<or> err' = None"
    using assms(2) csv unfolding bench_exit_code [where document = document and generated = generated, OF x report] by auto
  have d': "d' = d(fw_file W (of_report fl) \<mapsto> document D (bench_page generated D))"
    using write_new_ok [OF assms(1)] report ok(1) by simp
  moreover have "d'' = d'(fw_file W (of_csv fl) \<mapsto> csv_text good)" if "of_csv fl \<noteq> []"
    using write_new_ok [OF assms(1)] csv ok(2) that by simp
  moreover have "bench_finish W document fl generated target n results d =
      \<lparr>be_code = 0, be_summary = sm, be_disk = (if of_csv fl = [] then d' else d'')\<rparr>"
    using ok report csv by (auto simp: bench_finish_def x bench_write_simps)
  ultimately show ?thesis using that [OF x] by (simp add: Let_def)
qed (use assms(2) in \<open>simp add: bench_finish_def\<close>)

text \<open>
  Given the same file for both, the CSV replaces the report, and the command still ends with 0 and says that it wrote
  both.
\<close>

lemma bench_csv_replaces_report:
  assumes "writer_law W" "be_code (bench_finish W document fl generated target n results d) = 0"
    and "of_csv fl \<noteq> []" "fw_file W (of_csv fl) = fw_file W (of_report fl)"
  shows "\<exists>good. be_disk (bench_finish W document fl generated target n results d) =
    d(fw_file W (of_report fl) \<mapsto> csv_text good)"
  using bench_finish_zero [OF assms(1,2)] assms(3,4) by (metis fun_upd_upd)

lemma bench_report_parts:
  assumes "bench_report target n results = Inr (good, sm, D)"
  shows "results \<noteq> []" "mset good = mset (filter measured results)" "D = report_data good results target"
    "sm = (if good = [] then None
           else Some (printSummary good (length results) (length (filter (\<lambda>r. vd_Kind (br_Verdict r) = verdictFail) results)) target))"
proof -
  have good: "good = sortResults (filter measured results)"
    using assms by (auto simp: bench_report_def Let_def classify_eq split: if_splits)
  then show "mset good = mset (filter measured results)" by (simp add: mset_sortResults)
  show "results \<noteq> []" "D = report_data good results target"
    using assms by (auto simp: bench_report_def Let_def split: if_splits)
  have "bench_report target n results = Inr (good, if 0 < length good then Some (printSummary good (length results)
      (length (cl_Failures (classify results))) target) else None, report_data good results target)"
    using \<open>results \<noteq> []\<close>
    by (simp only: bench_report_def Let_def classify_eq classes.select_convs good length_0_conv if_False)
  then show "sm = (if good = [] then None
      else Some (printSummary good (length results) (length (filter (\<lambda>r. vd_Kind (br_Verdict r) = verdictFail) results)) target))"
    using assms by (simp add: classify_eq split: if_splits)
qed

section \<open>Properties\<close>

text \<open>
  C29: exit code 0 of the benchmark command means that the outputs are there. It ends with 0 only after a dry
  run, which leaves every file as it was, or after a run with at least one unit, and then exactly the files it was
  told to write have changed: the report file holds the document around the page of the report data of that run, over
  exactly its measured units, with the summary of the same units; the CSV file, if one was asked for, holds a
  text that reads back as the header and one row per measured unit, in the same order. The CSV is written after the
  report, so given one file for both it holds the CSV only. The verdicts do not enter into it: a run in
  which units fail validation ends with 0 as well. Creating and writing files is assumed to report
  its errors, \<open>writer_law\<close>.
\<close>

theorem bench_outputs_written:
  assumes "writer_law W" "out = bench_main fs W document f fl generated runAll d" "be_code (snd out) = 0"
  shows "case plan_bench fs f of
      Census c \<Rightarrow> fst out = Some c \<and> be_disk (snd out) = d
    | Ready su \<Rightarrow>
        (\<exists>good D csv. mset good = mset (filter measured (runAll su)) \<and> runAll su \<noteq> [] \<and>
           D = report_data good (runAll su) (su_Target su) \<and>
           csv_parse csv = csvHeader # map csv_row good \<and>
           be_disk (snd out) =
             (if of_csv fl = [] then d(fw_file W (of_report fl) \<mapsto> document D (bench_page generated D))
              else d(fw_file W (of_report fl) \<mapsto> document D (bench_page generated D), fw_file W (of_csv fl) \<mapsto> csv)) \<and>
           be_summary (snd out) =
             (if good = [] then None
              else Some (printSummary good (length (runAll su))
                     (length (filter (\<lambda>r. vd_Kind (br_Verdict r) = verdictFail) (runAll su))) (su_Target su))))
    | _ \<Rightarrow> False"
proof (cases "plan_bench fs f")
  case (Ready su)
  let ?e = "bench_finish W document fl generated (su_Target su) (length (su_Jobs su)) (runAll su) d"
  have e: "snd out = ?e" using assms(2) by (simp add: bench_main_def Ready)
  then have zero: "be_code ?e = 0" using assms(3) by simp
  obtain good sm D where rep: "bench_report (su_Target su) (length (su_Jobs su)) (runAll su) = Inr (good, sm, D)"
    and summary: "be_summary ?e = sm"
    and disk: "be_disk ?e =
       (let d' = d(fw_file W (of_report fl) \<mapsto> document D (bench_page generated D))
        in if of_csv fl = [] then d' else d'(fw_file W (of_csv fl) \<mapsto> csv_text good))"
    by (rule bench_finish_zero [OF assms(1) zero])
  note parts = bench_report_parts [OF rep]
  show ?thesis
    unfolding Ready e bench_plan.case
    by (intro exI [of _ good] exI [of _ D] exI [of _ "csv_text good"] conjI parts(1-3) csv_parse_report)
      (simp_all add: disk Let_def summary parts(4))
qed (use assms(2,3) in \<open>simp_all add: bench_main_def\<close>)

theorem bench_outputs_written_witness:
  "\<exists>e report csv. bench_main sample_fs sample_writer (\<lambda>_. render) sample_flags \<lparr>of_report = ''r.html'', of_csv = ''u.csv''\<rparr>
       ''now'' (\<lambda>_. [sample_row ''a'']) Map.empty = (None, e) \<and> be_code e = 0 \<and>
     be_disk e = [''r.html'' \<mapsto> report, ''u.csv'' \<mapsto> csv] \<and> csv_parse csv = [csvHeader, csv_row (sample_row ''a'')]"
proof -
  let ?fl = "\<lparr>of_report = ''r.html'', of_csv = ''u.csv''\<rparr>"
  let ?out = "bench_main sample_fs sample_writer (\<lambda>_. render) sample_flags ?fl ''now'' (\<lambda>_. [sample_row ''a'']) Map.empty"
  have "case plan_bench sample_fs sample_flags of Ready su \<Rightarrow> True | _ \<Rightarrow> False" by code_simp
  then obtain su where su: "plan_bench sample_fs sample_flags = Ready su" by (auto split: bench_plan.splits)
  obtain good sm D where rep: "bench_report (su_Target su) (length (su_Jobs su)) [sample_row ''a''] = Inr (good, sm, D)"
    by (auto simp: bench_report_def Let_def)
  have zero: "be_code (snd ?out) = 0"
    by (simp add: bench_main_def su bench_exit_code [where document = "\<lambda>_. render" and generated = "''now''", OF rep write_new_sample]
        write_new_sample)
  have none: "fst ?out = None" by (simp add: bench_main_def su)
  have row: "filter measured [sample_row ''a''] = [sample_row ''a'']" by code_simp
  obtain good' D' csv where good': "mset good' = mset (filter measured [sample_row ''a''])"
    and out: "csv_parse csv = csvHeader # map csv_row good'"
      "be_disk (snd ?out) = [''r.html'' \<mapsto> render (bench_page ''now'' D'), ''u.csv'' \<mapsto> csv]"
    using bench_outputs_written [OF sample_writer_law refl zero] unfolding su by (auto simp: sample_writer_def)
  have "mset good' = {#sample_row ''a''#}" using good' unfolding row by simp
  then have "good' = [sample_row ''a'']" by simp
  with out zero none show ?thesis
    by (intro exI [of _ "snd ?out"] exI conjI) (simp_all add: prod_eq_iff)
qed

end
