(* ===== verification/Report_Charts.thy ===== *)
theory Report_Charts
  imports Bench_Page Report_Script "HOL-Library.Sublist"
begin

text \<open>
  The charts that the script of the benchmark report creates (the template in \<open>bench/main.go\<close>) and the
  elements of the page that the script looks up. A chart is what the script hands to the chart library:
  the canvas, the type, labels and datasets, axis titles and the texts of the ticks. Sizes, line styles
  and tooltips, which repeat the label, are left out.
\<close>

section \<open>The charts\<close>

record dataset =
  ds_label :: string
  ds_data :: "nat list"
  ds_colour :: string

datatype axis = Labelled labels | Ranks "nat list" | Suites "string list"

text \<open>\<open>ch_tick\<close> is the text of the tick of a label that is a string; ticks of numbers are as the library writes them.\<close>

record chart_spec =
  ch_canvas :: string
  ch_type :: string
  ch_labels :: axis
  ch_datasets :: "dataset list"
  ch_labelAxis :: string
  ch_valueAxis :: string
  ch_stacked :: bool
  ch_horizontal :: bool
  ch_title :: string
  ch_tick :: "string \<Rightarrow> string"

definition line_chart :: "string \<Rightarrow> axis \<Rightarrow> string \<Rightarrow> nat list \<Rightarrow> string \<Rightarrow> string \<Rightarrow> string \<Rightarrow> (string \<Rightarrow> string) \<Rightarrow> chart_spec" where
  "line_chart canvas labels name data colour labelAxis valueAxis tick =
     \<lparr>ch_canvas = canvas, ch_type = ''line'', ch_labels = labels,
      ch_datasets = [\<lparr>ds_label = name, ds_data = data, ds_colour = colour\<rparr>],
      ch_labelAxis = labelAxis, ch_valueAxis = valueAxis, ch_stacked = False, ch_horizontal = False, ch_title = [],
      ch_tick = tick\<rparr>"

definition unitTicks :: "reportData \<Rightarrow> string \<Rightarrow> string" where
  "unitTicks D = (if rd_IsEEST D then unit_tick else (\<lambda>s. s))"

definition rankChart :: "reportData \<Rightarrow> chart_spec" where
  "rankChart D =
     (let rankCosts = js_array (rd_RankCosts D)
      in line_chart ''rankChart'' (Ranks (map (\<lambda>i. i + 1) [0 ..< length rankCosts])) ''TOTAL COST'' rankCosts ''#0d6efd''
           ''Unit rank (cheapest to most expensive)'' ''Cost'' (\<lambda>s. s))"

definition suiteChart :: "reportData \<Rightarrow> chart_spec" where
  "suiteChart D =
     (let suitePrefix = commonPrefix (rd_SuiteLabels D)
      in \<lparr>ch_canvas = ''suiteChart'', ch_type = ''bar'', ch_labels = Suites (rd_SuiteLabels D),
          ch_datasets = [\<lparr>ds_label = ''Median TOTAL COST'', ds_data = js_array (rd_SuiteMedians D), ds_colour = ''#198754''\<rparr>],
          ch_labelAxis = [], ch_valueAxis = ''Cost'', ch_stacked = False, ch_horizontal = True,
          ch_title = (if suitePrefix \<noteq> [] then ''suite prefix: '' @ suitePrefix else []),
          ch_tick = shortSuite suitePrefix\<rparr>)"

definition instructionChart :: "reportData \<Rightarrow> chart_spec" where
  "instructionChart D =
     line_chart ''instructionChart'' (Labelled (rd_Labels D)) ''Instructions'' (js_array (rd_InstructionCounts D)) ''#0d6efd''
       (rd_UnitAxis D) ''Retired Instructions'' (unitTicks D)"

definition elapsedChart :: "reportData \<Rightarrow> chart_spec" where
  "elapsedChart D =
     line_chart ''elapsedChart'' (Labelled (rd_Labels D)) ''Elapsed (ms)'' (js_array (rd_ElapsedMs D)) ''#20c997''
       (rd_UnitAxis D) ''ms'' (unitTicks D)"

definition totalChart :: "reportData \<Rightarrow> chart_spec" where
  "totalChart D =
     line_chart ''totalChart'' (Labelled (rd_Labels D)) ''TOTAL COST'' (js_array (rd_TotalCosts D)) ''#0d6efd''
       (rd_UnitAxis D) ''Cost'' (unitTicks D)"

definition stackedChart :: "reportData \<Rightarrow> chart_spec" where
  "stackedChart D =
     \<lparr>ch_canvas = ''stackedChart'', ch_type = ''bar'', ch_labels = Labelled (rd_Labels D),
      ch_datasets =
        [\<lparr>ds_label = ''BASE'', ds_data = js_array (rd_BaseCosts D), ds_colour = ''#0d6efd''\<rparr>,
         \<lparr>ds_label = ''MAIN'', ds_data = js_array (rd_MainCosts D), ds_colour = ''#6610f2''\<rparr>,
         \<lparr>ds_label = ''OPCODES'', ds_data = js_array (rd_OpCosts D), ds_colour = ''#198754''\<rparr>,
         \<lparr>ds_label = ''PRECOMPILES'', ds_data = js_array (rd_PreCosts D), ds_colour = ''#fd7e14''\<rparr>,
         \<lparr>ds_label = ''MEMORY'', ds_data = js_array (rd_MemCosts D), ds_colour = ''#dc3545''\<rparr>],
      ch_labelAxis = rd_UnitAxis D, ch_valueAxis = ''Cost'', ch_stacked = True, ch_horizontal = False, ch_title = [],
      ch_tick = unitTicks D\<rparr>"

text \<open>The charts in the order in which the script creates them.\<close>

definition script_charts :: "reportData \<Rightarrow> chart_spec list" where
  "script_charts D =
     (if rd_Scaled D then [rankChart D, suiteChart D] else []) @
     (if \<not> rd_Scaled D \<and> rd_Target D = ''openvm'' then [instructionChart D] else []) @
     (if \<not> rd_Scaled D then [elapsedChart D] else []) @
     (if \<not> rd_Scaled D \<and> rd_Target D = ''zisk'' then [totalChart D, stackedChart D] else [])"

section \<open>Elements of the page\<close>

text \<open>\<open>document.getElementById\<close> finds the elements with these identifiers; \<open>ids_with\<close> selects by tag.\<close>

definition own_id :: "(string \<Rightarrow> bool) \<Rightarrow> string \<Rightarrow> (string \<times> string) list \<Rightarrow> string list" where
  "own_id P t as = (if P t then (case map_of as ''id'' of None \<Rightarrow> [] | Some i \<Rightarrow> [i]) else [])"

fun ids_with :: "(string \<Rightarrow> bool) \<Rightarrow> html \<Rightarrow> string list" where
  "ids_with P (Text s) = []"
| "ids_with P (Void t as) = own_id P t as"
| "ids_with P (Elem t as ks) = own_id P t as @ concat (map (ids_with P) ks)"

definition ids_of :: "html \<Rightarrow> string list" where
  "ids_of = ids_with (\<lambda>_. True)"

definition canvases_of :: "html \<Rightarrow> string list" where
  "canvases_of = ids_with (\<lambda>t. t = ''canvas'')"

lemma ids_rows [simp]:
  "ids_with P (stat_tr r) = []" "ids_with P (validation_fail_tr v) = []" "ids_with P (exec_failed_tr x) = []"
  "ids_with P (bench_error_tr e) = []" "ids_with P (bench_skip_tr k) = []" "ids_with P (raw_tr w) = []"
  "ids_with P (heading title n what) = []"
  by (simp_all add: stat_tr_def validation_fail_tr_def exec_failed_tr_def bench_error_tr_def bench_skip_tr_def raw_tr_def
      heading_def td_def num_def own_id_def del: format_digits.simps)

lemma ids_meta [simp]: "ids_with P (meta_line generated D) = []"
  by (auto simp: meta_line_def own_id_def simp del: format_digits.simps)

lemma ids_table:
  assumes "list_all (\<lambda>r. ids_with P r = []) rows" "list_all (\<lambda>(a, n). map_of a ''id'' = None) columns"
  shows "ids_with P (table as columns body rows) = own_id P ''table'' as @ own_id P ''tbody'' body"
proof -
  have rows: "concat (map (ids_with P) rows) = []" using assms(1) by (simp add: list_all_iff)
  have columns: "concat (map (ids_with P) (map (\<lambda>(a, n). Elem ''th'' a [Text n]) columns)) = []"
    using assms(2) by (auto simp: list_all_iff own_id_def)
  show ?thesis unfolding table_def ids_with.simps list.map concat.simps rows columns by (simp add: own_id_def)
qed

lemma ids_plain [simp]: "list_all (\<lambda>(a, n). map_of a ''id'' = None) (plain_columns ns)"
  by (simp add: plain_columns_def list_all_iff)

lemma ids_raw_columns [simp]: "list_all (\<lambda>(a, n). map_of a ''id'' = None) (raw_columns D)"
  by (simp add: raw_columns_def plain_columns_def del: format_digits.simps)

lemma ids_section:
  assumes "\<And>r. ids_with P (row r) = []" "list_all (\<lambda>h. ids_with P h = []) hs"
  shows "concat (map (ids_with P) (page_section hs as columns row rows)) = (if rows = [] then [] else own_id P ''table'' as)"
proof -
  have hs: "concat (map (ids_with P) hs) = []" using assms(2) by (simp add: list_all_iff)
  have rows: "list_all (\<lambda>r. ids_with P r = []) (map row rows)" using assms(1) by (simp add: list_all_iff)
  have "own_id P ''tbody'' [] = []" by (simp add: own_id_def)
  with ids_table [OF rows ids_plain, of as columns "[]"] show ?thesis
    unfolding page_section_def by (simp add: hs del: map_map)
qed

text \<open>The identifiers of the page, in the order of the document.\<close>

definition page_ids :: "reportData \<Rightarrow> string list" where
  "page_ids D =
     (if rd_HasEmptyUnits D then [''excludeEmpty'', ''statScope''] else []) @ [''statBody''] @
     map ch_canvas (script_charts D) @
     (if rd_ValidationFails D = [] then [] else [''validationFailTable'']) @
     (if rd_ExecFailed D = [] then [] else [''execFailTable'']) @
     (if rd_Errors D = [] then [] else [''errTable'']) @
     (if rd_Unverifieds D = [] then [] else [''unverifiedTable'']) @
     (if rd_Skips D = [] then [] else [''skipTable'']) @
     (if rd_RawBlocks D = [] then [] else [''rawSearch'', ''failOnly'', ''rawTable'', ''rawBody''])"

lemma canvas_names [simp]:
  "ch_canvas (rankChart D) = ''rankChart''" "ch_canvas (suiteChart D) = ''suiteChart''"
  "ch_canvas (instructionChart D) = ''instructionChart''" "ch_canvas (elapsedChart D) = ''elapsedChart''"
  "ch_canvas (totalChart D) = ''totalChart''" "ch_canvas (stackedChart D) = ''stackedChart''"
  by (simp_all add: rankChart_def suiteChart_def instructionChart_def elapsedChart_def totalChart_def stackedChart_def
      line_chart_def Let_def)

lemma ids_charts: "concat (map ids_of (charts D)) = map ch_canvas (script_charts D)"
  "concat (map canvases_of (charts D)) = map ch_canvas (script_charts D)"
  by (simp_all add: charts_def chart_def wrap_def script_charts_def ids_of_def canvases_of_def own_id_def
      del: format_digits.simps)

lemma ids_parts:
  "concat (map (ids_with P) (toolbar D)) =
     (if rd_HasEmptyUnits D then own_id P ''input'' [(''id'', ''excludeEmpty'')] @ own_id P ''span'' [(''id'', ''statScope'')] else [])"
  "concat (map (ids_with P) (raw_section D)) =
     (if rd_RawBlocks D = [] then []
      else own_id P ''input'' [(''id'', ''rawSearch'')] @ own_id P ''input'' [(''id'', ''failOnly'')] @
        own_id P ''table'' [(''id'', ''rawTable'')] @ own_id P ''tbody'' [(''id'', ''rawBody'')])"
proof -
  show "concat (map (ids_with P) (toolbar D)) =
     (if rd_HasEmptyUnits D then own_id P ''input'' [(''id'', ''excludeEmpty'')] @ own_id P ''span'' [(''id'', ''statScope'')] else [])"
    by (simp add: toolbar_def own_id_def del: format_digits.simps)
  have "list_all (\<lambda>r. ids_with P r = []) (map raw_tr (rd_RawBlocks D))" by (simp add: list_all_iff)
  note table = ids_table [OF this ids_raw_columns, of "[(''id'', ''rawTable''), (''style'', ''font-size:.82rem;min-width:900px'')]" D "[(''id'', ''rawBody'')]"]
  show "concat (map (ids_with P) (raw_section D)) =
     (if rd_RawBlocks D = [] then []
      else own_id P ''input'' [(''id'', ''rawSearch'')] @ own_id P ''input'' [(''id'', ''failOnly'')] @
        own_id P ''table'' [(''id'', ''rawTable'')] @ own_id P ''tbody'' [(''id'', ''rawBody'')])"
    unfolding raw_section_def by (simp add: table del: map_map) (simp add: own_id_def)
qed

lemma ids_page: "ids_of (bench_page generated D) = page_ids D"
proof -
  have stats: "list_all (\<lambda>r. ids_with (\<lambda>_. True) r = []) (map stat_tr (rd_StatRows D))" by (simp add: list_all_iff)
  show ?thesis
    unfolding bench_page_def ids_of_def Let_def ids_with.simps map_append concat_append
    by (simp add: ids_section ids_parts ids_table [OF stats] ids_charts(1) [unfolded ids_of_def] page_ids_def own_id_def
        del: map_map)
qed

lemma canvases_page: "canvases_of (bench_page generated D) = map ch_canvas (script_charts D)"
proof -
  have stats: "list_all (\<lambda>r. ids_with (\<lambda>t. t = ''canvas'') r = []) (map stat_tr (rd_StatRows D))" by (simp add: list_all_iff)
  show ?thesis
    unfolding bench_page_def canvases_of_def Let_def ids_with.simps map_append concat_append
    by (simp add: ids_section ids_parts ids_table [OF stats] ids_charts(2) [unfolded canvases_of_def] own_id_def
        del: map_map)
qed

text \<open>They are a selection from a fixed list.\<close>

lemma subseq_if: "subseq (if c then xs else []) xs" "subseq (if c then [] else xs) xs"
  by simp_all

lemma chart_ids: "subseq (map ch_canvas (script_charts D))
    ([''rankChart'', ''suiteChart''] @ [''instructionChart''] @ [''elapsedChart''] @ [''totalChart'', ''stackedChart''])"
proof -
  have "map ch_canvas (script_charts D) =
     (if rd_Scaled D then [''rankChart'', ''suiteChart''] else []) @
     (if \<not> rd_Scaled D \<and> rd_Target D = ''openvm'' then [''instructionChart''] else []) @
     (if \<not> rd_Scaled D then [''elapsedChart''] else []) @
     (if \<not> rd_Scaled D \<and> rd_Target D = ''zisk'' then [''totalChart'', ''stackedChart''] else [])"
    by (simp add: script_charts_def)
  then show ?thesis by (simp only:) (intro list_emb_append_mono subseq_if)
qed

lemma page_ids_distinct: "distinct (page_ids D)"
proof -
  let ?all = "[''excludeEmpty'', ''statScope''] @ [''statBody''] @
    ([''rankChart'', ''suiteChart''] @ [''instructionChart''] @ [''elapsedChart''] @ [''totalChart'', ''stackedChart'']) @
    [''validationFailTable''] @ [''execFailTable''] @ [''errTable''] @ [''unverifiedTable''] @ [''skipTable''] @
    [''rawSearch'', ''failOnly'', ''rawTable'', ''rawBody'']"
  have "subseq (page_ids D) ?all"
    unfolding page_ids_def by (intro list_emb_append_mono subseq_if chart_ids subseq_order.refl)
  moreover have "distinct ?all" by simp
  ultimately show ?thesis by (metis distinct_nthsI subseq_conv_nths)
qed

lemma page_ids_raw:
  "rd_RawBlocks D \<noteq> [] \<Longrightarrow> ''rawBody'' \<in> set (page_ids D)"
  "rd_RawBlocks D = [] \<Longrightarrow> \<not> rd_HasEmptyUnits D \<Longrightarrow>
     set (page_ids D) \<inter> {''rawSearch'', ''failOnly'', ''excludeEmpty''} = {}"
proof -
  show "''rawBody'' \<in> set (page_ids D)" if "rd_RawBlocks D \<noteq> []" using that by (simp add: page_ids_def)
  define B where "B = set ([''statBody''] @
    ([''rankChart'', ''suiteChart''] @ [''instructionChart''] @ [''elapsedChart''] @ [''totalChart'', ''stackedChart'']) @
    [''validationFailTable''] @ [''execFailTable''] @ [''errTable''] @ [''unverifiedTable''] @ [''skipTable''])"
  have sub: "subseq xs ys \<Longrightarrow> set xs \<subseteq> set ys" for xs ys :: "string list" by (auto dest: list_emb_set)
  show "set (page_ids D) \<inter> {''rawSearch'', ''failOnly'', ''excludeEmpty''} = {}"
    if "rd_RawBlocks D = []" "\<not> rd_HasEmptyUnits D"
  proof -
    have "set (page_ids D) \<subseteq> B"
      unfolding page_ids_def B_def using that
      by (intro sub) (simp only: simp_thms if_True if_False append_Nil append_Nil2, intro list_emb_append_mono subseq_if chart_ids subseq_order.refl)
    moreover have "B \<inter> {''rawSearch'', ''failOnly'', ''excludeEmpty''} = {}" by (simp add: B_def)
    ultimately show ?thesis by (meson disjoint_iff subset_iff)
  qed
qed

section \<open>Properties\<close>

fun axis_length :: "axis \<Rightarrow> nat" where
  "axis_length (Labelled (UnitLabels ls)) = length ls"
| "axis_length (Labelled (BlockNumbers ns)) = length ns"
| "axis_length (Ranks ns) = length ns"
| "axis_length (Suites ls) = length ls"

text \<open>The data of the charts that \<open>page_load\<close> shows, in the order of the page.\<close>

definition shown_charts :: "page \<Rightarrow> (string \<times> nat list list) list" where
  "shown_charts pg =
     (case pg_Rank pg of None \<Rightarrow> [] | Some vs \<Rightarrow> [(''rankChart'', [vs])]) @
     (case pg_Suites pg of None \<Rightarrow> [] | Some (_, vs) \<Rightarrow> [(''suiteChart'', [vs])]) @
     (case pg_Instructions pg of None \<Rightarrow> [] | Some (_, vs) \<Rightarrow> [(''instructionChart'', [vs])]) @
     (case pg_Elapsed pg of None \<Rightarrow> [] | Some (_, vs) \<Rightarrow> [(''elapsedChart'', [vs])]) @
     (case pg_Total pg of None \<Rightarrow> [] | Some (_, vs) \<Rightarrow> [(''totalChart'', [vs])]) @
     (case pg_Stacked pg of None \<Rightarrow> [] | Some (_, vss) \<Rightarrow> [(''stackedChart'', vss)])"

lemmas chart_defs = rankChart_def suiteChart_def instructionChart_def elapsedChart_def totalChart_def stackedChart_def
  line_chart_def Let_def

text \<open>
  C32: every chart of a benchmark report has its canvas, its labels and its data. For every report, the script creates exactly one
  chart for every canvas of the page, in the same order; no two elements share an identifier, so that
  \<open>getElementById\<close> finds the one meant; when the page has a control that calls \<open>applyRawFilters\<close>, it has the body of the raw
  table which that function reads without a check; every dataset has one value per label; and
  the charts hold the data of the page as loaded.
\<close>

theorem report_charts_complete:
  "let D = report_data good results target; ids = ids_of (bench_page generated D)
   in canvases_of (bench_page generated D) = map ch_canvas (script_charts D) \<and>
      distinct ids \<and> set (map ch_canvas (script_charts D)) \<subseteq> set ids \<and>
      (set ids \<inter> {''rawSearch'', ''failOnly'', ''excludeEmpty''} = {} \<or> ''rawBody'' \<in> set ids) \<and>
      list_all (\<lambda>ch. list_all (\<lambda>ds. length (ds_data ds) = axis_length (ch_labels ch)) (ch_datasets ch)) (script_charts D) \<and>
      map (\<lambda>ch. (ch_canvas ch, map ds_data (ch_datasets ch))) (script_charts D) = shown_charts (page_load D)"
proof -
  define D where D: "D = report_data good results target"
  note fields = report_fields [OF D]
  have canvas: "canvases_of (bench_page generated D) = map ch_canvas (script_charts D)" by (rule canvases_page)
  have ids: "distinct (page_ids D)" "set (map ch_canvas (script_charts D)) \<subseteq> set (page_ids D)"
    by (rule page_ids_distinct) (auto simp: page_ids_def)
  have "rd_RawBlocks D \<noteq> []" if "rd_HasEmptyUnits D" using that by (auto simp: fields)
  then have raw: "set (page_ids D) \<inter> {''rawSearch'', ''failOnly'', ''excludeEmpty''} = {} \<or> ''rawBody'' \<in> set (page_ids D)"
    using page_ids_raw [of D] by (cases "rd_RawBlocks D = []") auto
  have "length (fst (suiteMedians good)) = length (snd (suiteMedians good))" by (simp add: suiteMedians_def Let_def)
  moreover have axis: "axis_length (Labelled (rd_Labels D)) = length good" using fields(20) by (elim disjE) simp_all
  ultimately have data: "list_all (\<lambda>ch. list_all (\<lambda>ds. length (ds_data ds) = axis_length (ch_labels ch)) (ch_datasets ch)) (script_charts D)"
    using axis by (auto simp: script_charts_def chart_defs fields)
  have "map (\<lambda>ch. (ch_canvas ch, map ds_data (ch_datasets ch))) (script_charts D) = shown_charts (page_load D)"
    by (simp add: script_charts_def shown_charts_def page_load_def chart_defs)
  with canvas ids raw data show ?thesis unfolding Let_def ids_page D [symmetric] by blast
qed

end
