(* ===== verification/Raw_Sort.thy ===== *)
theory Raw_Sort
  imports Bench_Page Report_Script
begin

text \<open>
  \<open>sortTable\<close> of the report script (the template in \<open>bench/main.go\<close>) on the texts of the cells: \<open>parseFloat\<close> on
  decimal text, the comparison of two cells, and the sort. \<open>localeCompare\<close> depends on the reader's
  locale and is an argument. The texts of cells are ASCII.
\<close>

section \<open>Numbers in text\<close>

text \<open>A double other than NaN; minus zero is zero, from which no comparison tells it.\<close>

datatype js_double = NegInf | Finite rat | PosInf

text \<open>
  The double nearest to \<open>a / b\<close>: 53 bits, at most 1074 of them behind the point, ties to even; from
  2^1024 on the result is infinite.
\<close>

definition nearest_double :: "nat \<Rightarrow> nat \<Rightarrow> js_double" where
  "nearest_double a b =
     (if a < 2 ^ 53 * b
      then let k = min 1074 (scale_up a b 0) in Finite (of_nat (round_even (a * 2 ^ k) b) / 2 ^ k)
      else let j = scale_down a b 0; m = round_even a (b * 2 ^ j) * 2 ^ j
           in if 2 ^ 1024 \<le> m then PosInf else Finite (of_nat m))"

fun negate :: "js_double \<Rightarrow> js_double" where
  "negate NegInf = PosInf"
| "negate (Finite q) = Finite (- q)"
| "negate PosInf = NegInf"

definition dec_digit :: "char \<Rightarrow> bool" where
  "dec_digit c \<longleftrightarrow> 48 \<le> (of_char c :: nat) \<and> (of_char c :: nat) \<le> 57"

definition dec_value :: "string \<Rightarrow> nat" where
  "dec_value ds = foldl (\<lambda>n c. n * 10 + (of_char c - 48)) 0 ds"

definition white :: "char \<Rightarrow> bool" where
  "white c \<longleftrightarrow> (of_char c :: nat) \<in> {9, 10, 11, 12, 13, 32}"

definition js_trim :: "string \<Rightarrow> string" where
  "js_trim s = rev (dropWhile white (rev (dropWhile white s)))"

text \<open>An exponent at the start of the text, 0 if there is none.\<close>

definition dec_exponent :: "string \<Rightarrow> int" where
  "dec_exponent s =
     (case s of
        c # t \<Rightarrow>
          if c = CHR ''e'' \<or> c = CHR ''E'' then
            (let u = (if t \<noteq> [] \<and> (hd t = CHR ''+'' \<or> hd t = CHR ''-'') then tl t else t);
                 e = int (dec_value (takeWhile dec_digit u))
             in if t \<noteq> [] \<and> hd t = CHR ''-'' then - e else e)
          else 0
      | [] \<Rightarrow> 0)"

text \<open>The longest decimal literal without a sign at the start of the text, as a fraction.\<close>

definition dec_literal :: "string \<Rightarrow> (nat \<times> nat) option" where
  "dec_literal s =
     (let ip = takeWhile dec_digit s;
          r = dropWhile dec_digit s;
          point = (r \<noteq> [] \<and> hd r = CHR ''.'');
          fp = (if point then takeWhile dec_digit (tl r) else []);
          rest = (if point then dropWhile dec_digit (tl r) else r);
          x = dec_exponent rest - int (length fp)
      in if ip = [] \<and> fp = [] then None
         else if 0 \<le> x then Some (dec_value (ip @ fp) * 10 ^ nat x, 1)
         else Some (dec_value (ip @ fp), 10 ^ nat (- x)))"

text \<open>\<open>None\<close> is NaN.\<close>

definition unsigned_number :: "string \<Rightarrow> js_double option" where
  "unsigned_number s =
     (if HasPrefix s ''Infinity'' then Some PosInf else map_option (\<lambda>(a, b). nearest_double a b) (dec_literal s))"

definition parseFloat :: "string \<Rightarrow> js_double option" where
  "parseFloat s =
     (let t = dropWhile white s
      in if t \<noteq> [] \<and> hd t = CHR ''-'' then map_option negate (unsigned_number (tl t))
         else if t \<noteq> [] \<and> hd t = CHR ''+'' then unsigned_number (tl t)
         else unsigned_number t)"

section \<open>The sort\<close>

text \<open>
  The sign of \<open>x - y\<close>: the difference of two finite doubles is zero only if they are equal, and that of equal
  infinities is NaN, which a sort takes as zero.
\<close>

fun sub_sign :: "js_double \<Rightarrow> js_double \<Rightarrow> int" where
  "sub_sign (Finite p) (Finite q) = (if p < q then - 1 else if p = q then 0 else 1)"
| "sub_sign PosInf PosInf = 0"
| "sub_sign NegInf NegInf = 0"
| "sub_sign PosInf _ = 1"
| "sub_sign _ PosInf = - 1"
| "sub_sign NegInf _ = - 1"
| "sub_sign _ NegInf = 1"

definition cell_number :: "string \<Rightarrow> js_double option" where
  "cell_number v = parseFloat (filter (\<lambda>c. c \<noteq> CHR '','') v)"

definition compare_cells :: "(string \<Rightarrow> string \<Rightarrow> int) \<Rightarrow> bool \<Rightarrow> string \<Rightarrow> string \<Rightarrow> int" where
  "compare_cells localeCompare asc av bv =
     (case (cell_number av, cell_number bv) of
        (Some an, Some bn) \<Rightarrow> if asc then sub_sign an bn else sub_sign bn an
      | _ \<Rightarrow> if asc then localeCompare av bv else localeCompare bv av)"

definition sort_cell :: "nat \<Rightarrow> rawBlockRow \<Rightarrow> string" where
  "sort_cell col row = js_trim (raw_cells row ! col)"

text \<open>Sorting an array is stable in JavaScript.\<close>

definition sortTable :: "(string \<Rightarrow> string \<Rightarrow> int) \<Rightarrow> nat \<Rightarrow> raw_table \<Rightarrow> raw_table" where
  "sortTable localeCompare col t =
     (let asc = (rt_sortDir t \<noteq> Some (col, True))
      in \<lparr>rt_rows = sort_SliceStable (\<lambda>a b. compare_cells localeCompare asc (sort_cell col a) (sort_cell col b) < 0) (rt_rows t),
          rt_sortDir = Some (col, asc)\<rparr>)"

section \<open>Decimal text of a number\<close>

lemma digit_val_dec: "dec_digit c \<Longrightarrow> digit_val c = Some (of_char c - 48)"
  by (auto simp: dec_digit_def digit_val_def)

lemma digits_value_dec: "list_all dec_digit ds \<Longrightarrow> digits_value 10 n ds = Some (foldl (\<lambda>n c. n * 10 + (of_char c - 48)) n ds)"
  by (induction ds arbitrary: n) (auto simp: digit_val_dec dec_digit_def)

lemma digit_char_dec: "n < 10 \<Longrightarrow> dec_digit (digit_char n)"
  by (simp add: dec_digit_def digit_char_def)

lemma itoa_dec: "list_all dec_digit (itoa n)"
  by (induction "10 :: nat" n rule: format_digits.induct) (subst format_digits.simps, auto simp: digit_char_dec)

lemma itoa_Cons: "itoa n \<noteq> []"
  by (subst format_digits.simps) simp

lemma dec_value_itoa: "dec_value (itoa n) = n"
  using digits_value_dec [OF itoa_dec, of 0 n] digits_value_format [of 10 n] by (simp add: dec_value_def)

lemma dec_digit_not:
  assumes "dec_digit c"
  shows "\<not> white c" "c \<noteq> CHR '',''" "c \<noteq> CHR ''-''" "c \<noteq> CHR ''+''" "c \<noteq> CHR ''I''"
  using assms by (auto simp: dec_digit_def white_def)

lemma trim_digits:
  assumes "list_all dec_digit ds"
  shows "dropWhile white ds = ds" "js_trim ds = ds" "filter (\<lambda>c. c \<noteq> CHR '','') ds = ds" "takeWhile dec_digit ds = ds"
    "dropWhile dec_digit ds = []"
proof -
  have "dropWhile white xs = xs" if "list_all dec_digit xs" for xs
    using that by (cases xs) (auto simp: dec_digit_not(1))
  then show "dropWhile white ds = ds" "js_trim ds = ds" using assms by (simp_all add: js_trim_def list_all_rev)
  show "filter (\<lambda>c. c \<noteq> CHR '','') ds = ds"
    using assms dec_digit_not(2) by (auto simp: filter_id_conv list_all_iff)
  show "takeWhile dec_digit ds = ds" "dropWhile dec_digit ds = []" using assms by (simp_all add: list_all_iff)
qed

lemma dec_literal_itoa: "dec_literal (itoa n) = Some (n, 1)"
  using itoa_Cons [of n] by (simp add: dec_literal_def trim_digits [OF itoa_dec] dec_value_itoa dec_exponent_def)

lemma parseFloat_itoa: "parseFloat (itoa n) = Some (nearest_double n 1)"
proof -
  obtain c cs where c: "itoa n = c # cs" using itoa_Cons by (cases "itoa n") auto
  then have "dec_digit c" using itoa_dec [of n] by simp
  note not = dec_digit_not [OF this]
  have "\<not> HasPrefix (itoa n) ''Infinity''" using not(5) by (simp add: c HasPrefix_def)
  then have "unsigned_number (itoa n) = Some (nearest_double n 1)" by (simp add: unsigned_number_def dec_literal_itoa)
  then show ?thesis
    using not(3,4) by (simp add: parseFloat_def trim_digits(1) [OF itoa_dec] Let_def) (simp add: c)
qed

section \<open>Whole numbers\<close>

lemma scale_down_least:
  assumes "j \<le> k" "n < 2 ^ (53 + k)" "k = 0 \<or> 2 ^ (52 + k) \<le> n"
  shows "scale_down n 1 j = k"
  using assms(1)
proof (induction "k - j" arbitrary: j)
  case 0
  then show ?case using assms(2) by (subst scale_down.simps) (simp add: power_add)
next
  case (Suc d)
  then have "j < k" by simp
  then have "(2 :: nat) ^ (53 + j) \<le> 2 ^ (52 + k)" by (intro power_increasing) simp_all
  then have "2 ^ 53 * 2 ^ j \<le> n" using assms(3) \<open>j < k\<close> by (simp add: power_add)
  then show ?case using Suc(1) [of "j + 1"] Suc(2) \<open>j < k\<close> by (subst scale_down.simps) simp
qed

lemma nearest_double_nat:
  assumes "n < 2 ^ 64"
  shows "nearest_double n 1 = Finite (of_nat (js_number n))"
proof (cases "n < 2 ^ 53")
  case True
  then show ?thesis by (simp add: nearest_double_def Let_def round_even_def)
next
  case False
  define k where "k = floorlog 2 n - 53"
  have "n > 0" using False by simp
  then have n: "2 ^ (floorlog 2 n - 1) \<le> n" "n < 2 ^ floorlog 2 n" using floorlog_bounds [of n 2] by simp_all
  have "(2 :: nat) ^ 53 < 2 ^ floorlog 2 n" using False n(2) by linarith
  then have fl: "53 < floorlog 2 n" using power_less_imp_less_exp [of "2 :: nat" 53] by simp
  then have f: "floorlog 2 n = 53 + k" "0 < k" by (simp_all add: k_def)
  have down: "scale_down n 1 0 = k"
    using n f by (intro scale_down_least) (simp_all add: add.commute)
  have "(2 :: nat) ^ (52 + k) < 2 ^ 64" using n(1) assms f by (simp add: add.commute)
  then have "k < 12" using power_less_imp_less_exp [of "2 :: nat" "52 + k" 64] by simp
  have "round_even n (2 ^ k) * 2 ^ k \<le> (n div 2 ^ k + 1) * 2 ^ k"
    by (intro mult_le_mono1) (simp add: round_even_def Let_def)
  also have "\<dots> \<le> n + 2 ^ k" by (simp add: div_times_less_eq_dividend)
  also have "\<dots> < 2 ^ 64 + 2 ^ 12"
    using assms power_strict_increasing [OF \<open>k < 12\<close>, of "2 :: nat"] by linarith
  finally have "round_even n (2 ^ k) * 2 ^ k < 2 ^ 1024" by simp
  then show ?thesis using False down by (simp add: nearest_double_def js_number_def Let_def k_def [symmetric])
qed

lemma cell_number_itoa: "n < 2 ^ 64 \<Longrightarrow> cell_number (itoa n) = Some (Finite (of_nat (js_number n)))"
  by (simp only: cell_number_def trim_digits(3) [OF itoa_dec] parseFloat_itoa nearest_double_nat)

section \<open>Sorting by a column\<close>

lemma number_cell:
  assumes "1 \<le> col" "col \<le> 8"
  shows "sort_cell col row = itoa (raw_cell col row)"
proof -
  have "col \<in> {1, 2, 3, 4, 5, 6, 7, 8}" using assms by auto
  then have "raw_cells row ! col = itoa (raw_cell col row)" by (auto simp: raw_cells_def raw_cell_def)
  then show ?thesis by (simp add: sort_cell_def trim_digits(2) [OF itoa_dec])
qed

lemma unat_lt64: "unat (v :: u64) < 2 ^ 64"
  using unat_less_pow [of v] by simp

lemma raw_cell_small: "1 \<le> col \<Longrightarrow> col \<le> 8 \<Longrightarrow> rw_TxCount row < 2 ^ 64 \<Longrightarrow> raw_cell col row < 2 ^ 64"
proof -
  assume "1 \<le> col" "col \<le> 8" "rw_TxCount row < 2 ^ 64"
  then have "col \<in> {1, 2, 3, 4, 5, 6, 7, 8}" by auto
  then show ?thesis using \<open>rw_TxCount row < 2 ^ 64\<close> unat_lt64 by (auto simp: raw_cell_def)
qed

lemma compare_numbers:
  assumes "m < 2 ^ 64" "n < 2 ^ 64"
  shows "compare_cells localeCompare asc (itoa m) (itoa n) < 0 \<longleftrightarrow>
    (if asc then js_number m < js_number n else js_number n < js_number m)"
  by (simp add: compare_cells_def cell_number_itoa [OF assms(1)] cell_number_itoa [OF assms(2)])

lemma sortTable_key:
  assumes "\<And>a b. a \<in> set (rt_rows t) \<Longrightarrow> b \<in> set (rt_rows t) \<Longrightarrow>
      compare_cells localeCompare (rt_sortDir t \<noteq> Some (col, True)) (sort_cell col a) (sort_cell col b) < 0 \<longleftrightarrow>
      key a < (key b :: int)"
  shows "rt_rows (sortTable localeCompare col t) = sort_key key (rt_rows t)"
  by (simp only: sortTable_def Let_def raw_table.simps, rule sort_SliceStable_key) (rule assms)

text \<open>A column of numbers below 2^64.\<close>

lemma sortTable_numbers:
  assumes "list_all (\<lambda>r. sort_cell col r = itoa (f r) \<and> f r < 2 ^ 64) (rt_rows t)"
  shows "rt_rows (sortTable localeCompare col t) =
    sort_key (\<lambda>r. (if rt_sortDir t \<noteq> Some (col, True) then 1 else - 1) * int (js_number (f r))) (rt_rows t)"
  using assms by (intro sortTable_key) (auto simp: list_all_iff compare_numbers)

text \<open>A column without numbers, where \<open>localeCompare\<close> orders the texts by a rank.\<close>

lemma sortTable_names:
  assumes "list_all (\<lambda>r. cell_number (sort_cell col r) = None) (rt_rows t)"
    and "\<forall>a \<in> set (rt_rows t). \<forall>b \<in> set (rt_rows t).
      localeCompare (sort_cell col a) (sort_cell col b) < 0 \<longleftrightarrow> rank (sort_cell col a) < (rank (sort_cell col b) :: int)"
  shows "rt_rows (sortTable localeCompare col t) =
    sort_key (\<lambda>r. (if rt_sortDir t \<noteq> Some (col, True) then 1 else - 1) * rank (sort_cell col r)) (rt_rows t)"
  using assms by (intro sortTable_key) (auto simp: list_all_iff compare_cells_def)

lemma sortTable_mset: "mset (rt_rows (sortTable localeCompare col t)) = mset (rt_rows t)"
  by (simp add: sortTable_def Let_def sort_SliceStable_def mset_fold_sort_back)

lemma sort_key_map: "sort_key f (map g xs) = map g (sort_key (\<lambda>x. f (g x)) xs)"
proof -
  have "insort_key f (g x) (map g ys) = map g (insort_key (\<lambda>x. f (g x)) x ys)" for x ys
    by (induction ys) simp_all
  then show ?thesis by (induction xs) (simp_all)
qed

lemma block_cell:
  assumes "br_Kind r \<noteq> FormatZkevm"
  shows "sort_cell 0 (raw_row r) = itoa (unat (br_BlockNum r))"
  using assms by (simp add: sort_cell_def raw_cells_def raw_row_def Let_def unitCell_def itoa_clean trim_digits(2) [OF itoa_dec])

section \<open>Properties\<close>

text \<open>
  C33: a click on a column sorts by it. No row of the raw table is lost or added; the columns with numbers are
  sorted by them, as doubles, upwards and on the second click downwards, rows with equal numbers keeping their
  order; so is the column of the block numbers of a corpus report; and a column in which no cell
  starts with a number is sorted by the order in which the reader's locale puts its texts, given as a rank.
  Transaction counts are below 2^64.
\<close>

theorem sortTable_sound:
  assumes "list_all (\<lambda>r. br_TxCount r < 2 ^ 64) rs" "rt_rows t = map raw_row rs" "col \<le> 8"
    and "dir = (if rt_sortDir t \<noteq> Some (col, True) then 1 else - 1)"
    and "rows = rt_rows (sortTable localeCompare col t)"
  shows "mset rows = mset (map raw_row rs) \<and> rt_sortDir (sortTable localeCompare col t) = Some (col, dir = (1 :: int)) \<and>
    (1 \<le> col \<longrightarrow> sortTable localeCompare col t = sort_by_number col t) \<and>
    (col = 0 \<and> list_all (\<lambda>r. br_Kind r \<noteq> FormatZkevm) rs \<longrightarrow>
       rows = map raw_row (sort_key (\<lambda>r. dir * int (js_number (unat (br_BlockNum r)))) rs)) \<and>
    (col = 0 \<and> list_all (\<lambda>r. cell_number (sort_cell 0 (raw_row r)) = None) rs \<and>
       list_all (\<lambda>a. list_all (\<lambda>b. localeCompare (sort_cell 0 (raw_row a)) (sort_cell 0 (raw_row b)) < 0 \<longleftrightarrow>
           rank (sort_cell 0 (raw_row a)) < (rank (sort_cell 0 (raw_row b)) :: int)) rs) rs \<longrightarrow>
       rows = map raw_row (sort_key (\<lambda>r. dir * rank (sort_cell 0 (raw_row r))) rs))"
proof -
  have perm: "mset rows = mset (map raw_row rs)" using assms(2,5) sortTable_mset by metis
  have dir: "rt_sortDir (sortTable localeCompare col t) = Some (col, dir = (1 :: int))"
    by (simp add: sortTable_def Let_def assms(4))
  have tx: "rw_TxCount (raw_row r) = br_TxCount r" for r by (simp add: raw_row_def Let_def)
  have numbers: "sortTable localeCompare col t = sort_by_number col t" if "1 \<le> col"
  proof -
    have "list_all (\<lambda>r. sort_cell col r = itoa (raw_cell col r) \<and> raw_cell col r < 2 ^ 64) (rt_rows t)"
      using assms(1) that assms(3) number_cell raw_cell_small by (auto simp: assms(2) list_all_iff tx)
    note rows = sortTable_numbers [OF this, of localeCompare]
    have "rt_rows (sortTable localeCompare col t) = rt_rows (sort_by_number col t)"
      unfolding rows sort_by_number_rows by (intro arg_cong [where f = "\<lambda>k. sort_key k (rt_rows t)"] ext) (simp add: sort_order_def)
    then show ?thesis by (simp add: sortTable_def sort_by_number_def Let_def)
  qed
  have blocks: "rows = map raw_row (sort_key (\<lambda>r. dir * int (js_number (unat (br_BlockNum r)))) rs)"
    if "col = 0" "list_all (\<lambda>r. br_Kind r \<noteq> FormatZkevm) rs"
  proof -
    have num: "rw_BlockNum (raw_row r) = br_BlockNum r" for r by (simp add: raw_row_def Let_def)
    have "list_all (\<lambda>r. sort_cell col r = itoa (unat (rw_BlockNum r)) \<and> unat (rw_BlockNum r) < 2 ^ 64) (rt_rows t)"
      using that unat_lt64 by (simp add: assms(2) list_all_iff num block_cell)
    note rows = sortTable_numbers [OF this, of localeCompare, folded assms(4,5)]
    show ?thesis unfolding rows assms(2) sort_key_map num ..
  qed
  have names: "rows = map raw_row (sort_key (\<lambda>r. dir * rank (sort_cell 0 (raw_row r))) rs)"
    if "col = 0" "list_all (\<lambda>r. cell_number (sort_cell 0 (raw_row r)) = None) rs"
      "list_all (\<lambda>a. list_all (\<lambda>b. localeCompare (sort_cell 0 (raw_row a)) (sort_cell 0 (raw_row b)) < 0 \<longleftrightarrow>
           rank (sort_cell 0 (raw_row a)) < (rank (sort_cell 0 (raw_row b)) :: int)) rs) rs"
  proof -
    have "rows = sort_key (\<lambda>r. dir * rank (sort_cell 0 r)) (map raw_row rs)"
      using that unfolding assms(4,5) assms(2) [symmetric]
      by (simp only: that(1)) (rule sortTable_names, auto simp: assms(2) list_all_iff)
    then show ?thesis by (simp only: sort_key_map)
  qed
  from perm dir numbers blocks names show ?thesis by blast
qed

definition sample_blocks :: "BlockResult list" where
  "sample_blocks =
     map (\<lambda>n. (sample_row ''f'')\<lparr>br_Kind := FormatCorpus, br_BlockNum := n, br_TxCount := 3\<rparr>) [9, 10, 8]"

text \<open>As texts the numbers would come in another order.\<close>

theorem sortTable_sound_witness:
  "map rw_BlockNum (rt_rows (sortTable (\<lambda>_ _. 0) 0 \<lparr>rt_rows = map raw_row sample_blocks, rt_sortDir = None\<rparr>)) = [8, 9, 10]"
proof -
  let ?t = "\<lparr>rt_rows = map raw_row sample_blocks, rt_sortDir = None\<rparr>"
  have tx: "list_all (\<lambda>r. br_TxCount r < 2 ^ 64) sample_blocks" by (simp add: sample_blocks_def)
  have kind: "list_all (\<lambda>r. br_Kind r \<noteq> FormatZkevm) sample_blocks" by (simp add: sample_blocks_def)
  have "rt_rows (sortTable (\<lambda>_ _. 0) 0 ?t) = map raw_row (sort_key (\<lambda>r. 1 * int (js_number (unat (br_BlockNum r)))) sample_blocks)"
    using sortTable_sound [OF tx, of ?t 0 1 "rt_rows (sortTable (\<lambda>_ _. 0) 0 ?t)" "\<lambda>_ _. 0"] kind by simp
  moreover have "rw_BlockNum (raw_row r) = br_BlockNum r" for r by (simp add: raw_row_def Let_def)
  ultimately show ?thesis by (simp add: sample_blocks_def comp_def)
qed

end
