(* ===== verification/Progress.thy ===== *)
theory Progress
  imports Bench_Run Go_Time
begin

text \<open>
  What is printed while a run is under way: the line per unit (\<open>printProgress\<close> in \<open>bench/run.go\<close>) and the
  warning about an emulator that prints no number of steps (\<open>emu/emu.go\<close>).
\<close>

section \<open>Progress lines\<close>

text \<open>\<open>%3d\<close> and \<open>%-40s\<close>; names are ASCII.\<close>

definition pad_left :: "nat \<Rightarrow> string \<Rightarrow> string" where
  "pad_left w s = replicate (w - length s) CHR '' '' @ s"

definition pad_right :: "nat \<Rightarrow> string \<Rightarrow> string" where
  "pad_right w s = s @ replicate (w - length s) CHR '' ''"

definition progress_prefix :: "int \<Rightarrow> int \<Rightarrow> string" where
  "progress_prefix n tot = ''['' @ pad_left 3 (format_int n) @ ''/'' @ format_int tot @ ''] ''"

text \<open>The line for a row; \<open>n\<close> is the counter after this unit, \<open>tot\<close> the number of units known so far.\<close>

definition progress_line :: "BlockResult \<Rightarrow> int \<Rightarrow> int \<Rightarrow> string \<Rightarrow> string" where
  "progress_line r n tot target =
     (let costSuffix = (if target \<noteq> ''openvm'' then ''  total='' @ itoa (unat (cr_Total (br_Costs r))) else []);
          subject = (if br_Kind r = FormatZkevm then br_Label r else ''block '' @ itoa (unat (br_BlockNum r)));
          took = ''  ('' @ round_text (br_Elapsed r) @ '')''
      in progress_prefix n tot @
         (if vd_Kind (br_Verdict r) = verdictSkip then ''SKIP '' @ br_Label r @ '': '' @ vd_Reason (br_Verdict r)
          else case br_Err r of
            Some e \<Rightarrow> ''ERROR '' @ pad_right 40 (br_Name r) @ ''  '' @ error_text e
          | None \<Rightarrow>
              if vd_Kind (br_Verdict r) = verdictUnverified
              then subject @ costSuffix @ ''  UNVERIFIED: '' @ vd_Reason (br_Verdict r) @ took
              else if \<not> br_ValidationOK r
              then subject @ costSuffix @ ''  VALIDATION FAILED ('' @ vd_Reason (br_Verdict r) @ '')'' @ took
              else if br_ExecError r \<noteq> []
              then subject @ costSuffix @ ''  EXEC FAILED (expected): '' @ br_ExecError r @ took
              else subject @ costSuffix @ took) @ [CHR 10])"

text \<open>\<open>printProgress\<close>: counting and printing.\<close>

definition printProgress :: "BlockResult \<Rightarrow> string \<Rightarrow> run_state \<Rightarrow> string \<times> run_state" where
  "printProgress r target s =
     (let s' = count_done s in (progress_line r (rn_done s') (rn_total s') target, s'))"

section \<open>The warning about missing steps\<close>

text \<open>\<open>sync.Once\<close> is the flag that the warning was printed.\<close>

definition warnIfStepsUnparsed :: "u64 \<Rightarrow> bool \<Rightarrow> bool \<Rightarrow> string list \<times> bool" where
  "warnIfStepsUnparsed steps foundCosts warned =
     (if steps \<noteq> 0 \<or> \<not> foundCosts then ([], warned)
      else if warned then ([], True)
      else ([''WARNING: emulator output has no STEPS line '' @ [CHR 0xE2, CHR 0x80, CHR 0x94] @
              '' step-limit detection is inactive''], True))"

fun warn_all :: "(u64 \<times> bool) list \<Rightarrow> bool \<Rightarrow> string list \<times> bool" where
  "warn_all [] warned = ([], warned)"
| "warn_all ((steps, found) # rs) warned =
     (let (out, w) = warnIfStepsUnparsed steps found warned; (outs, w') = warn_all rs w in (out @ outs, w'))"

text \<open>Over any sequence of runs the warning appears once, if some run has costs and no steps.\<close>

lemma warn_all_once:
  "length (fst (warn_all rs warned)) =
     (if \<not> warned \<and> (\<exists>(steps, found) \<in> set rs. steps = 0 \<and> found) then 1 else 0)"
proof (induction rs arbitrary: warned)
  case (Cons r rs)
  obtain steps found where r: "r = (steps, found)" by (cases r)
  show ?case
    using Cons.IH [of warned] Cons.IH [of True]
    by (auto simp: r warnIfStepsUnparsed_def case_prod_unfold split: if_splits)
qed simp

text \<open>
  A unit of a fixture file prints a cost only if it was measured: when its verdict is an error the line
  has its name and the error, and when it was skipped its label and the reason.
\<close>

lemma progress_line_unmeasured:
  assumes "expand E j = Inr us" "u \<in> set us" "runUnit u run target el = Inr r"
    and "vd_Kind (br_Verdict r) \<in> {verdictSkip, verdictError}"
  shows "progress_line r n tot target =
    progress_prefix n tot @
      (case br_Err r of
         None \<Rightarrow> ''SKIP '' @ br_Label r @ '': '' @ vd_Reason (br_Verdict r)
       | Some e \<Rightarrow> ''ERROR '' @ pad_right 40 (br_Name r) @ ''  '' @ error_text e) @ [CHR 10]"
proof -
  obtain x err where outcome: "unit_outcome u run = (x, err)" by (metis surj_pair)
  have "br_Err r \<noteq> None \<longleftrightarrow> vd_Kind (br_Verdict r) = verdictError"
    using verify_rule.row_consistent [OF expand_rules [OF assms(1,2)] refl runUnit_row [OF assms(3) outcome]] by blast
  with assms(4) show ?thesis by (auto simp: progress_line_def Let_def split: option.splits)
qed

end
