(* ===== verification/Spec2Isabelle.thy ===== *)
theory Spec2Isabelle
  imports Program Binary_Encode Runner_Page Dry_Run Convert Bench_Repro Chart_Data Bench_Main Report_Charts Raw_Sort Progress
begin

text \<open>
  Verification of stateless-executor, a Go program that verifies Ethereum blocks without state: it
  fetches a block and its execution witness from execution-layer nodes, encodes them as one SSZ
  value, the stateless input, and runs guest programs on it that answer whether the block is valid.

  \<^bold>\<open>Parts of the program.\<close> Package \<open>fixture\<close> reads test fixtures and encodes the stateless input, from
  fixtures and from live blocks. Package \<open>pool\<close> keeps the responsive nodes and announces new heads.
  Package \<open>pipeline\<close> fetches the parts of a block and checks them against the header. Package
  \<open>runner\<close> runs a guest and reads its verdict, \<open>store\<close> keeps the last results, \<open>metrics\<close> the exported
  series. \<open>main.go\<close> ties them together: a live loop, a one-shot mode and a dump mode. The packages
  \<open>emu\<close> and \<open>bench\<close> and the commands under \<open>cmd\<close> run fixtures through emulators and report on them.

  \<^bold>\<open>Theories.\<close>
  \<^item> \<open>Prelude\<close>, \<open>Go_Strings\<close>, \<open>Go_Path\<close>, \<open>Json\<close>: Go's errors and panics as values, bytes and machine
    integers, the parts of \<open>strconv\<close>, \<open>strings\<close>, \<open>encoding/hex\<close>, \<open>math/big\<close>, \<open>path/filepath\<close> and
    \<open>encoding/json\<close> the source calls. JSON text that is read is given as its value; storing a value
    into typed fields follows \<open>encoding/json\<close>. \<open>Json_Text\<close> is the text that \<open>encoding/json\<close> writes, with a
    reader for it; \<open>Html\<close> is text and attributes as \<open>html/template\<close> writes them, with a tokenizer and a
    reader for tables; \<open>Js_Number\<close> has the sums and quotients of JavaScript numbers.
  \<^item> \<open>Geth_Api\<close>: go-ethereum's types and, as a record of functions, what the encoders call of it, with
    the documented behaviour they rely on as predicates and an instance that satisfies them.
  \<^item> \<open>Fixture_Types\<close> and \<open>Zkevm_Load\<close> model \<open>fixture/fixture.go\<close>, \<open>Format_Sniff\<close> \<open>fixture/format.go\<close>,
    \<open>Tx_Build\<close> \<open>fixture/encode.go\<close>, \<open>Fork_Schedule\<close> \<open>fixture/genesis.go\<close> and the fork selection of
    \<open>fixture/encode_ssz.go\<close>, \<open>Ssz_Encode\<close> the encoders of \<open>fixture/encode_ssz.go\<close> and
    \<open>fixture/encode_ssz_live.go\<close>, \<open>Binary_Encode\<close> \<open>fixture/encode_binary.go\<close>.
  \<^item> \<open>Ssz_Spec\<close>, \<open>Ssz_Correct\<close>, \<open>Ssz_Paths\<close>: the abstract stateless input with a reference decoder for
    SSZ, the codec contracts as locales, the proof section by section that the encoders meet them, and
    the proof for the whole input on both paths.
  \<^item> \<open>Metrics\<close>, \<open>Ring_Buffer\<close>, \<open>Pool\<close>, \<open>Runner\<close>, \<open>Jwt\<close>, \<open>Pipeline\<close>, \<open>Live\<close>: the packages of the same
    name, with \<open>Live\<close> for \<open>main.go\<close> and \<open>Jwt\<close> for the engine token of \<open>pipeline/pipeline.go\<close>.
  \<^item> \<open>Results_Api\<close>: the bodies of \<open>GET /results\<close> and of a JSON-RPC request as text. \<open>Server\<close>: the whole
    process of the live mode in \<open>main.go\<close>, with \<open>Pool.Run\<close>, the HTTP server, signals and exit codes.
  \<^item> \<open>Transition\<close>: reachability, invariants, simulation and runs driven by events, for the step relations below.
    \<open>Provenance\<close>: the live mode as a run of events, each with what nodes and guests did in it. \<open>Program\<close>:
    \<open>main.go\<close> as a whole, from the environment to the exit code or the start of the live process.
  \<^item> \<open>Emu\<close> models \<open>emu/emu.go\<close> and \<open>bench/emu.go\<close>, \<open>Stateless_Output\<close> the four places that read a
    verdict from a guest's output, \<open>Discover\<close> and \<open>Dry_Run\<close> \<open>bench/discover.go\<close>, \<open>Bench_Units\<close>
    \<open>bench/units.go\<close>, \<open>Bench_Run\<close> \<open>bench/run.go\<close>, and \<open>Bench_Stats\<close>, \<open>Bench_Csv\<close> and \<open>Bench_Report\<close> the
    sorting and statistics, the CSV, and the command with its report data in \<open>bench/main.go\<close>,
    \<open>Bench_Main\<close> the command from its flags to the files it writes and its exit code;
    \<open>Go_Files\<close> is the creation and writing of files it rests on, \<open>Go_Time\<close> has the durations it prints, \<open>Progress\<close> the progress lines and the warning about missing
    steps.
  \<^item> The template in \<open>bench/main.go\<close>: \<open>Bench_Page\<close> is the page it writes, \<open>Chart_Data\<close> the arrays at the
    head of its script, \<open>Report_Script\<close> the script (the page as loaded, the zero-gas toggle, the filters
    of the raw table, names on the axes), \<open>Report_Charts\<close> the charts it creates and the elements it looks up,
    \<open>Raw_Sort\<close> the sorting of the raw table on the texts of its cells.
  \<^item> \<open>Zkevm_Runner\<close> models \<open>cmd/zkevm-runner/main.go\<close>, \<open>Runner_Page\<close> its HTML report, and \<open>Convert\<close>
    \<open>cmd/zesu-convert/main.go\<close>.

  \<^bold>\<open>State and concurrency.\<close> A struct with methods is a record that the operations take and return;
  third-party code and the outside world (transport, guest processes, files, the clock, the order in
  which goroutines end, Go's map order, which may differ from file to file and from run to run) are arguments. The live mode is the step relation
  \<open>live_step\<close>, whose steps are the points at which the polling goroutine, the loop and the guests'
  goroutines touch shared state: a poll, the receipt of a head with its fetch, the end of one guest, and
  the end of the wait for all guests. After \<open>Pick\<close> a fetch does not touch the pool, so a poll during
  a fetch is one before or after it, and a signal that arrives during a fetch counts as one after it. The process around it is the step relation \<open>server_step\<close>: it adds
  the answer to a request, a signal, the end of the polling goroutine, shutdown, and the failure of
  the HTTP server; a \<open>select\<close> with several ready cases may take any of them. The worker pool of \<open>bench\<close> is the step relation \<open>bench_step\<close>
  (a worker takes the semaphore, expands its file, ends a unit, gives the semaphore back). The
  goroutines of \<open>zkevm-runner\<close> share nothing but the semaphore and write to slots of their own; that
  each of them ends is taken for granted there, and the order in which they end is an argument.

  \<^bold>\<open>What is shown.\<close>
  \<^item> Encoding: the live path is lossless for inputs below 4 GiB (the reach of its 32-bit offsets) and
    fails exactly on transactions that do not marshal, base fees of 2^256 and more, and malformed
    execution requests; the fixture path agrees with it when the hashes of its header have 32 bytes; framing and the binary format are
    invertible; hex and number fields round-trip.
  \<^item> Forks: both selectors meet one contract, agree on the same times from Cancun on and never go back in time; where
    the genesis has no fork yet the fixture selector answers Shanghai or Amsterdam.
  \<^item> Fetching: a fetched input decodes to what one node of the pool served, with execution requests
    that match the header, and a block access list that does when no error is recorded; a dump is only
    written if it does.
  \<^item> Live mode: heads are handled in strictly increasing order, every fetched block gets exactly one
    result per guest, the buffer holds the last 1000 results, and the loop always gets back to
    waiting. The process as a whole refines it: a clean exit comes only after a signal and loses no
    result, after a signal nothing more is fetched and the process can end, and the bodies of
    \<open>GET /results\<close> read back as snapshots of the results added, but for bytes that are not UTF-8. Every result can be traced to the fetch and to
    the guest process it came from.
  \<^item> The program: a dump that ends with code 0 holds a block served by a configured and probed node; in the live
    mode every result names a configured guest and such a node; whether a start ends in the live mode or in which exit code, start-up, guest lists, verdicts and
    metrics, on every branch.
  \<^item> Emulators: all readers of a validation result agree on it; a run without an error stayed below its
    step cap and has a cost table.
  \<^item> Benchmarks: discovery misses no recognised fixture and reports the others; a unit passes exactly
    when the guest wrote the expected result; however the workers interleave the pool ends, with the rows
    of all files in discovery order; two runs report the same but for times, whatever the orders of map keys
    (\<open>Bench_Repro\<close> and below), and
    rows of one format sort the same from any order; exit code 0 means that the report and the CSV
    are in their files, and that a CSV in the report's own file has replaced it; the statistics are those of the values while sums stay below 2^64; the CSV reads back; report and census account for every unit
    and file.
  \<^item> Reports: a browser that reads either HTML report finds exactly the tables, rows and texts of its
    data, whatever the strings contain; the arrays of the script are safe in a script element and read back;
    the script never reads past an array, agrees with the statistics of the program while sums stay
    below 2^53, and clearing the toggle restores the page; every canvas gets its chart with one value per label,
    and a click on a column sorts by it.
  \<^item> \<open>zkevm-runner\<close> counts every block once, agrees with \<open>bench\<close> block by block, and its concurrent dumps
    do not overwrite each other. The converter's flag changes only the framing.

  \<^bold>\<open>Contracts.\<close> \<open>fixed_codec\<close> and \<open>section_codec\<close> (SSZ encodings), \<open>fork_schedule\<close> and
  \<open>ordered_fork_schedule\<close>, \<open>bounded_log\<close> (the result store), \<open>node_pool\<close> (what the pipeline needs of
  the pool), \<open>verdict_reader\<close> (reading a validation result, with four interpretations) and
  \<open>verify_rule\<close> (judging a unit, for both fixture formats); \<open>transition_system\<close> (the live mode and its
  process), \<open>simulation\<close> (the process by the live mode) and \<open>event_system\<close> (the live mode as events). Each is interpreted on the definitions of
  the model.

  \<^bold>\<open>Termination.\<close> All functions are total. The probe loop runs over at most 60 attempts, the padding
  loop until the next multiple of 8. Only the reader of JSON text uses fuel, the length of the text,
  which is always enough (\<open>json_read_text\<close>).

  \<^bold>\<open>Sorting.\<close> \<open>sort.SliceStable\<close> is insertion from the right, which is what Go does on up to 20 elements
  and, for a strict weak order, what it yields on any number; the comparison of a run that mixes both
  formats is no such order (\<open>mixed_rows_cyclic\<close>), and nothing is claimed of its result but that
  rows are neither lost nor added. \<open>sort.Slice\<close> is a sort by its key; elements with equal keys may
  come in another order. \<open>strings.ToLower\<close> is applied to hexadecimal and JSON names only and modelled on
  ASCII.

  \<^bold>\<open>Reading pages.\<close> The readers of HTML in \<open>Html\<close> work on the characters as written: they do not
  normalise line ends, decode UTF-8 or drop a line feed after \<open>pre\<close>, so a browser may show a carriage return or
  a byte that is not UTF-8 differently. NUL is written, and read, as U+FFFD. The pages are those of the body; the text of the
  template around them (head, script, white space) is an argument where files are written. Whether rows of the raw
  table are hidden is \<open>applyRawFilters\<close>, not part of the page record.

  \<^bold>\<open>Not modelled.\<close> Log output other than progress lines, the lines \<open>runBlock\<close> prints and the column layout of printed tables; the body
  of \<open>/metrics\<close>, which the Prometheus client writes; timeouts other than as errors of the transport or
  of a process; the contents of executed guests; style sheets, sizes, line styles and tooltips of the charts,
  and white space between elements of the HTML templates. \<open>localeCompare\<close> is an argument.
\<close>

section \<open>Benchmarks can be compared\<close>



end
